(* ===== verification/Prelude.thy ===== *)
theory Prelude
  imports Main "HOL-Library.Multiset" "HOL-Library.Sublist" "HOL-Library.Char_ord" "HOL-Library.List_Lexorder"
begin

text \<open>
  Shared vocabulary of the development: Go strings as byte lists, the functions of Go's
  standard library the daemon calls on them (package strings, strconv and fmt's decimal verb),
  Go maps as partial functions, and the lemma collections the component theories use.
  A Go string is a sequence of bytes, and an Isabelle \<open>char\<close> is one byte.
\<close>

named_theorems go_str_simps \<open>equations of the Go string functions\<close>
named_theorems go_str_intros \<open>introduction facts about the Go string functions\<close>

section \<open>Bytes that are awkward to write as literals\<close>

abbreviation NL :: char where "NL \<equiv> CHR 0x0A"
abbreviation CR :: char where "CR \<equiv> CHR 0x0D"
abbreviation TAB :: char where "TAB \<equiv> CHR 0x09"
abbreviation DQ :: char where "DQ \<equiv> CHR 0x22"
abbreviation SQ :: char where "SQ \<equiv> CHR 0x27"
abbreviation BSL :: char where "BSL \<equiv> CHR 0x5C"

type_synonym 'v gomap = "string \<Rightarrow> 'v option"

section \<open>Package strings\<close>

definition HasPrefix :: "string \<Rightarrow> string \<Rightarrow> bool" where
  "HasPrefix s p = prefix p s"

definition HasSuffix :: "string \<Rightarrow> string \<Rightarrow> bool" where
  "HasSuffix s p = suffix p s"

definition Contains :: "string \<Rightarrow> string \<Rightarrow> bool" where
  "Contains s p = sublist p s"

definition TrimPrefix :: "string \<Rightarrow> string \<Rightarrow> string" where
  "TrimPrefix s p = (if prefix p s then drop (length p) s else s)"

definition TrimSuffix :: "string \<Rightarrow> string \<Rightarrow> string" where
  "TrimSuffix s p = (if suffix p s then take (length s - length p) s else s)"

text \<open>\<open>strings.ReplaceAll\<close> and \<open>strings.NewReplacer\<close> with one-byte old strings.\<close>

definition ReplaceByte :: "char \<Rightarrow> string \<Rightarrow> string \<Rightarrow> string" where
  "ReplaceByte old new s = concat (map (\<lambda>c. if c = old then new else [c]) s)"

fun Join :: "string list \<Rightarrow> string \<Rightarrow> string" where
  "Join [] sep = []"
| "Join [x] sep = x"
| "Join (x # y # xs) sep = x @ sep @ Join (y # xs) sep"

fun SplitByte :: "string \<Rightarrow> char \<Rightarrow> string list" where
  "SplitByte [] c = [[]]"
| "SplitByte (x # xs) c =
     (if x = c then [] # SplitByte xs c
      else (case SplitByte xs c of [] \<Rightarrow> [[x]] | p # ps \<Rightarrow> (x # p) # ps))"

text \<open>\<open>strings.Cut\<close> at a one-byte separator: \<open>None\<close> when the separator does not occur.\<close>

definition CutByte :: "string \<Rightarrow> char \<Rightarrow> (string \<times> string) option" where
  "CutByte s c =
     (if c \<in> set s then Some (takeWhile (\<lambda>x. x \<noteq> c) s, tl (dropWhile (\<lambda>x. x \<noteq> c) s))
      else None)"

text \<open>
  \<open>unicode.IsSpace\<close> as the UTF-8 encodings of the white-space code points: tab, newline,
  vertical tab, form feed, carriage return, space, U+0085, U+00A0, U+1680, U+2000 to U+200A,
  U+2028, U+2029, U+202F, U+205F and U+3000.
\<close>

definition space_runes :: "string list" where
  "space_runes =
     [[CHR 0x09], [CHR 0x0A], [CHR 0x0B], [CHR 0x0C], [CHR 0x0D], [CHR 0x20],
      [CHR 0xC2, CHR 0x85], [CHR 0xC2, CHR 0xA0], [CHR 0xE1, CHR 0x9A, CHR 0x80],
      [CHR 0xE2, CHR 0x80, CHR 0x80], [CHR 0xE2, CHR 0x80, CHR 0x81],
      [CHR 0xE2, CHR 0x80, CHR 0x82], [CHR 0xE2, CHR 0x80, CHR 0x83],
      [CHR 0xE2, CHR 0x80, CHR 0x84], [CHR 0xE2, CHR 0x80, CHR 0x85],
      [CHR 0xE2, CHR 0x80, CHR 0x86], [CHR 0xE2, CHR 0x80, CHR 0x87],
      [CHR 0xE2, CHR 0x80, CHR 0x88], [CHR 0xE2, CHR 0x80, CHR 0x89],
      [CHR 0xE2, CHR 0x80, CHR 0x8A], [CHR 0xE2, CHR 0x80, CHR 0xA8],
      [CHR 0xE2, CHR 0x80, CHR 0xA9], [CHR 0xE2, CHR 0x80, CHR 0xAF],
      [CHR 0xE2, CHR 0x81, CHR 0x9F], [CHR 0xE3, CHR 0x80, CHR 0x80]]"

lemma space_runes_nonempty: "w \<in> set space_runes \<Longrightarrow> w \<noteq> []"
  by (auto simp: space_runes_def)

definition lead_space :: "string \<Rightarrow> string option" where
  "lead_space s = find (\<lambda>w. prefix w s) space_runes"

definition tail_space :: "string \<Rightarrow> string option" where
  "tail_space s = find (\<lambda>w. suffix w s) space_runes"

lemma lead_space_SomeD:
  assumes "lead_space s = Some w"
  shows "w \<in> set space_runes" "prefix w s" "w \<noteq> []"
  using assms by (auto simp: lead_space_def find_Some_iff space_runes_nonempty)

lemma tail_space_SomeD:
  assumes "tail_space s = Some w"
  shows "w \<in> set space_runes" "suffix w s" "w \<noteq> []"
  using assms by (auto simp: tail_space_def find_Some_iff space_runes_nonempty)

function TrimLeftSpace :: "string \<Rightarrow> string" where
  "TrimLeftSpace s =
     (case lead_space s of None \<Rightarrow> s | Some w \<Rightarrow> TrimLeftSpace (drop (length w) s))"
  by pat_completeness auto
termination
proof (relation "measure length", goal_cases)
  case (2 s w)
  then have "w \<noteq> []" "prefix w s" using lead_space_SomeD by auto
  then show ?case by (cases s) auto
qed simp

function TrimRightSpace :: "string \<Rightarrow> string" where
  "TrimRightSpace s =
     (case tail_space s of None \<Rightarrow> s
      | Some w \<Rightarrow> TrimRightSpace (take (length s - length w) s))"
  by pat_completeness auto
termination
proof (relation "measure length", goal_cases)
  case (2 s w)
  then have "w \<noteq> []" "suffix w s" using tail_space_SomeD by auto
  then show ?case by (cases s) auto
qed simp

declare TrimLeftSpace.simps [simp del] TrimRightSpace.simps [simp del]

definition TrimSpace :: "string \<Rightarrow> string" where
  "TrimSpace s = TrimRightSpace (TrimLeftSpace s)"

text \<open>The bytes that occur in an encoded white-space code point.\<close>

definition space_bytes :: "char set" where
  "space_bytes = set (concat space_runes)"

lemma space_runes_bytes: "w \<in> set space_runes \<Longrightarrow> set w \<subseteq> space_bytes"
  by (auto simp: space_bytes_def)

lemma TrimLeftSpace_split: "\<exists>l. s = l @ TrimLeftSpace s \<and> set l \<subseteq> space_bytes"
proof (induction s rule: TrimLeftSpace.induct)
  case (1 s)
  show ?case
  proof (cases "lead_space s")
    case None
    then show ?thesis by (simp add: TrimLeftSpace.simps)
  next
    case (Some w)
    from 1[OF Some] obtain l where
      l: "drop (length w) s = l @ TrimLeftSpace (drop (length w) s)" "set l \<subseteq> space_bytes"
      by blast
    from lead_space_SomeD[OF Some] have "s = w @ drop (length w) s" "set w \<subseteq> space_bytes"
      by (auto simp: prefix_def space_runes_bytes)
    with l Some have "s = (w @ l) @ TrimLeftSpace s \<and> set (w @ l) \<subseteq> space_bytes"
      by (auto simp: TrimLeftSpace.simps[of s])
    then show ?thesis by blast
  qed
qed

lemma TrimRightSpace_split: "\<exists>r. s = TrimRightSpace s @ r \<and> set r \<subseteq> space_bytes"
proof (induction s rule: TrimRightSpace.induct)
  case (1 s)
  show ?case
  proof (cases "tail_space s")
    case None
    then show ?thesis by (simp add: TrimRightSpace.simps)
  next
    case (Some w)
    let ?t = "take (length s - length w) s"
    from 1[OF Some] obtain r where
      r: "?t = TrimRightSpace ?t @ r" "set r \<subseteq> space_bytes"
      by blast
    from tail_space_SomeD[OF Some] have w: "s = ?t @ w" "set w \<subseteq> space_bytes"
      by (auto simp: suffix_def space_runes_bytes)
    from w(1) r(1) have "s = (TrimRightSpace ?t @ r) @ w"
      by metis
    moreover have "TrimRightSpace s = TrimRightSpace ?t"
      using Some by (simp add: TrimRightSpace.simps[of s])
    ultimately have "s = TrimRightSpace s @ (r @ w) \<and> set (r @ w) \<subseteq> space_bytes"
      using r(2) w(2) by simp
    then show ?thesis by blast
  qed
qed

lemma TrimSpace_split:
  obtains l r where "s = l @ TrimSpace s @ r" "set l \<subseteq> space_bytes" "set r \<subseteq> space_bytes"
proof -
  obtain l where l: "s = l @ TrimLeftSpace s" "set l \<subseteq> space_bytes"
    using TrimLeftSpace_split by blast
  obtain r where r: "TrimLeftSpace s = TrimSpace s @ r" "set r \<subseteq> space_bytes"
    using TrimRightSpace_split[of "TrimLeftSpace s"] by (auto simp: TrimSpace_def)
  from l r that show thesis by metis
qed

lemma TrimSpace_id:
  assumes "s \<noteq> []" "hd s \<notin> space_bytes" "last s \<notin> space_bytes"
  shows "TrimSpace s = s"
proof -
  obtain l r where s: "s = l @ TrimSpace s @ r" "set l \<subseteq> space_bytes" "set r \<subseteq> space_bytes"
    by (rule TrimSpace_split)
  have "l = []"
  proof (rule ccontr)
    assume "l \<noteq> []"
    then have "hd s \<in> set l" using s(1) by (metis hd_append2 list.set_sel(1))
    with s(2) assms(2) show False by blast
  qed
  moreover have "r = []"
  proof (rule ccontr)
    assume "r \<noteq> []"
    then have "last s \<in> set r" using s(1) by (metis append_is_Nil_conv last_appendR last_in_set)
    with s(3) assms(3) show False by blast
  qed
  ultimately show ?thesis using s(1) by simp
qed

lemma TrimSpace_nonempty:
  assumes "c \<in> set s" "c \<notin> space_bytes"
  shows "TrimSpace s \<noteq> []"
proof
  assume "TrimSpace s = []"
  then obtain l r where "s = l @ r" "set l \<subseteq> space_bytes" "set r \<subseteq> space_bytes"
    using TrimSpace_split[of s] by auto
  with assms show False by auto
qed


section \<open>Package strconv and fmt's decimal verb\<close>

definition digit_char :: "nat \<Rightarrow> char" where
  "digit_char d = char_of (48 + d)"

definition is_digit :: "char \<Rightarrow> bool" where
  "is_digit c \<longleftrightarrow> 48 \<le> (of_char c :: nat) \<and> (of_char c :: nat) \<le> 57"

definition digit_val :: "char \<Rightarrow> nat" where
  "digit_val c = of_char c - 48"

text \<open>The decimal text of a non-negative integer, as the \<open>%d\<close> verb prints it.\<close>

fun show_nat :: "nat \<Rightarrow> string" where
  "show_nat n = (if n < 10 then [digit_char n] else show_nat (n div 10) @ [digit_char (n mod 10)])"

declare show_nat.simps [simp del]

definition show_int :: "int \<Rightarrow> string" where
  "show_int i = (if i < 0 then ''-'' @ show_nat (nat (- i)) else show_nat (nat i))"

definition read_digits :: "string \<Rightarrow> nat" where
  "read_digits ds = foldl (\<lambda>n c. 10 * n + digit_val c) 0 ds"

text \<open>
  \<open>strconv.Atoi\<close> on a 64-bit machine: an optional sign, at least one decimal digit and
  nothing else, and a value of the range of \<open>int64\<close>; \<open>None\<close> is its error.
\<close>

definition Atoi :: "string \<Rightarrow> int option" where
  "Atoi s =
     (let neg = (s \<noteq> [] \<and> hd s = CHR ''-'');
          ds = (if s \<noteq> [] \<and> (hd s = CHR ''-'' \<or> hd s = CHR ''+'') then tl s else s);
          v = (if neg then - int (read_digits ds) else int (read_digits ds))
      in if ds \<noteq> [] \<and> list_all is_digit ds \<and> - (2 ^ 63) \<le> v \<and> v < 2 ^ 63
         then Some v else None)"

lemma of_char_digit [simp]: "d < 10 \<Longrightarrow> of_char (digit_char d) = 48 + d"
  by (simp add: digit_char_def)

lemma is_digit_digit_char [simp]: "d < 10 \<Longrightarrow> is_digit (digit_char d)"
  by (simp add: is_digit_def)

lemma digit_val_digit_char [simp]: "d < 10 \<Longrightarrow> digit_val (digit_char d) = d"
  by (simp add: digit_val_def)

lemma show_nat_nonempty [simp]: "show_nat n \<noteq> []"
  by (subst show_nat.simps) simp

lemma show_nat_digits: "list_all is_digit (show_nat n)"
proof (induction n rule: show_nat.induct)
  case (1 n)
  then show ?case by (subst show_nat.simps) simp
qed

lemma read_show_nat [simp]: "read_digits (show_nat n) = n"
proof (induction n rule: show_nat.induct)
  case (1 n)
  show ?case
  proof (cases "n < 10")
    case True
    then show ?thesis by (subst show_nat.simps) (simp add: read_digits_def)
  next
    case False
    with 1 show ?thesis by (subst show_nat.simps) (simp add: read_digits_def)
  qed
qed

lemma show_nat_inject [simp]: "show_nat m = show_nat n \<longleftrightarrow> m = n"
  by (metis read_show_nat)

lemma digit_not_special [simp]:
  "\<not> is_digit (CHR ''-'')" "\<not> is_digit (CHR ''+'')" "\<not> is_digit (CHR '' '')"
  "\<not> is_digit (CHR '':'')" "\<not> is_digit (CHR ''|'')" "\<not> is_digit (CHR ''.'')"
  by (simp_all add: is_digit_def)

lemma hd_show_nat_digit: "is_digit (hd (show_nat n))"
  using show_nat_digits[of n] by (cases "show_nat n") auto

lemma Atoi_show_nat: "int n < 2 ^ 63 \<Longrightarrow> Atoi (show_nat n) = Some (int n)"
proof -
  assume "int n < 2 ^ 63"
  moreover have "hd (show_nat n) \<noteq> CHR ''-''" "hd (show_nat n) \<noteq> CHR ''+''"
    using hd_show_nat_digit[of n] by auto
  ultimately show ?thesis
    using show_nat_digits[of n] by (simp add: Atoi_def Let_def)
qed

lemma Atoi_show_natD: "Atoi (show_nat n) = Some i \<Longrightarrow> i = int n"
proof -
  assume a: "Atoi (show_nat n) = Some i"
  moreover have "hd (show_nat n) \<noteq> CHR ''-''" "hd (show_nat n) \<noteq> CHR ''+''"
    using hd_show_nat_digit[of n] by auto
  ultimately show ?thesis by (auto simp: Atoi_def Let_def split: if_splits)
qed

lemma Atoi_bounds: "Atoi s = Some v \<Longrightarrow> - (2 ^ 63) \<le> v \<and> v < 2 ^ 63"
  unfolding Atoi_def Let_def by (auto split: if_split_asm)

section \<open>Joining and splitting\<close>

lemma Join_Cons: "xs \<noteq> [] \<Longrightarrow> Join (x # xs) sep = x @ sep @ Join xs sep"
  by (cases xs) simp_all

lemma SplitByte_nonempty [simp]: "SplitByte s c \<noteq> []"
  by (induction s c rule: SplitByte.induct) (auto split: list.splits)

lemma Join_SplitByte [simp]: "Join (SplitByte s c) [c] = s"
proof (induction s)
  case (Cons a s)
  then show ?case
    by (cases "SplitByte s c"; cases "tl (SplitByte s c)") (auto simp: Join_Cons)
qed simp

lemma SplitByte_no_sep: "p \<in> set (SplitByte s c) \<Longrightarrow> c \<notin> set p"
proof (induction s arbitrary: p)
  case (Cons a s)
  then show ?case
    by (cases "SplitByte s c") (auto split: if_splits)
qed simp

lemma SplitByte_single: "c \<notin> set s \<Longrightarrow> SplitByte s c = [s]"
  by (induction s) auto

lemma SplitByte_append: "c \<notin> set p \<Longrightarrow> SplitByte (p @ c # s) c = p # SplitByte s c"
  by (induction p) auto

lemma SplitByte_Join:
  "\<lbrakk>ps \<noteq> []; \<forall>p \<in> set ps. c \<notin> set p\<rbrakk> \<Longrightarrow> SplitByte (Join ps [c]) c = ps"
proof (induction ps)
  case (Cons p ps)
  then show ?case by (cases ps) (auto simp: SplitByte_single SplitByte_append)
qed simp

lemma CutByte_append: "c \<notin> set a \<Longrightarrow> CutByte (a @ c # b) c = Some (a, b)"
  by (simp add: CutByte_def takeWhile_append dropWhile_append)

lemma CutByte_None: "CutByte s c = None \<longleftrightarrow> c \<notin> set s"
  by (simp add: CutByte_def)

lemma CutByte_SomeD: "CutByte s c = Some (a, b) \<Longrightarrow> s = a @ c # b \<and> c \<notin> set a"
proof -
  assume a: "CutByte s c = Some (a, b)"
  then have "c \<in> set s" "a = takeWhile (\<lambda>x. x \<noteq> c) s" "b = tl (dropWhile (\<lambda>x. x \<noteq> c) s)"
    by (auto simp: CutByte_def split: if_splits)
  then show ?thesis
    by (metis (mono_tags, lifting) dropWhile_eq_Nil_conv hd_Cons_tl hd_dropWhile
        set_takeWhileD takeWhile_dropWhile_id)
qed

section \<open>Lists\<close>

text \<open>A loop that appends what it finds and skips what it does not.\<close>

fun collect_some :: "('a \<Rightarrow> 'b option) \<Rightarrow> 'a list \<Rightarrow> 'b list" where
  "collect_some f [] = []"
| "collect_some f (x # xs) =
     (case f x of Some y \<Rightarrow> y # collect_some f xs | None \<Rightarrow> collect_some f xs)"

lemma set_collect_some: "set (collect_some f xs) = {y. \<exists>x \<in> set xs. f x = Some y}"
  by (induction xs) (auto split: option.split)

lemma count_list_remove1:
  "count_list (remove1 x xs) y = count_list xs y - (if x = y then 1 else 0)"
  by (induction xs) auto

end
