(* ===== verification/Outs.thy ===== *)
theory Outs
  imports Prelude
begin

text \<open>
  The rendering of response arguments (spored/internal/utilities/out): pairs, flags, arrays and
  objects, as the strings their \<open>String\<close> methods build. Go's \<open>any\<close> is the datatype
  \<open>gval\<close>; a Go map is an association list in the (unspecified) order the runtime iterates it.
\<close>

section \<open>Values held by arrays and objects\<close>

datatype gval =
    GNil
  | GStr string
  | GMap "(string \<times> gval) list"
  | GSlice "gval list"
  | GOther string \<comment> \<open>any other type, as its \<open>%v\<close> text\<close>

lemma size_gval_map: "(k, v) \<in> set kvs \<Longrightarrow> size v < Suc (size_list (size_prod (\<lambda>_. 0) size) kvs)"
  by (induction kvs) auto

lemma size_gval_slice: "v \<in> set vs \<Longrightarrow> size v < Suc (size_list size vs)"
  by (induction vs) auto

definition quoted :: "string \<Rightarrow> string" where
  "quoted s = [DQ] @ s @ [DQ]"

text \<open>
  \<open>renderItem\<close> and, for an object, \<open>renderMap\<close> with \<open>renderEntry\<close>: the keys are collected in
  iteration order and sorted before they are printed.
\<close>

function renderItem :: "gval \<Rightarrow> string" and renderEntry :: "string \<Rightarrow> gval \<Rightarrow> string" where
  "renderItem (GStr s) = quoted s"
| "renderItem (GMap kvs) =
     ''{'' @ Join (map (\<lambda>kv. renderEntry (fst kv) (snd kv)) (sort_key fst kvs)) '', '' @ ''}''"
| "renderItem (GSlice vs) = ''['' @ Join (map renderItem vs) '', '' @ '']''"
| "renderItem (GOther s) = quoted s"
| "renderItem GNil = quoted ''<nil>''"
| "renderEntry k GNil = k"
| "renderEntry k (GStr s) = k @ ''='' @ quoted s"
| "renderEntry k (GMap kvs) =
     k @ ''={'' @ Join (map (\<lambda>kv. renderEntry (fst kv) (snd kv)) (sort_key fst kvs)) '', '' @ ''}''"
| "renderEntry k (GSlice vs) = k @ ''=['' @ Join (map renderItem vs) '', '' @ '']''"
| "renderEntry k (GOther s) = k @ ''='' @ quoted s"
  by pat_completeness auto
termination
  by (relation "measure (\<lambda>x. case x of Inl v \<Rightarrow> size v | Inr (k, v) \<Rightarrow> size v)")
    (auto dest: size_gval_map size_gval_slice)

definition renderMap :: "(string \<times> gval) list \<Rightarrow> string" where
  "renderMap kvs = Join (map (\<lambda>kv. renderEntry (fst kv) (snd kv)) (sort_key fst kvs)) '', ''"

definition renderSlice :: "gval list \<Rightarrow> string" where
  "renderSlice vs = Join (map renderItem vs) '', ''"

section \<open>The four kinds of output\<close>

text \<open>\<open>Pair\<close>'s replacer: the escapes of backslash, double quote, carriage return and tab.\<close>

definition escape_byte :: "char \<Rightarrow> string" where
  "escape_byte c =
     (if c = BSL then [BSL, BSL] else if c = DQ then [BSL, DQ]
      else if c = CR then [BSL, CHR ''r''] else if c = TAB then [BSL, CHR ''t''] else [c])"

definition pair_escape :: "string \<Rightarrow> string" where
  "pair_escape v = concat (map escape_byte v)"

datatype out =
    Pair string string
  | Flag string
  | Array string "gval list"
  | Object string "(string \<times> gval) list"

fun out_String :: "out \<Rightarrow> string" where
  "out_String (Pair k v) =
     (if NL \<in> set v then k @ ''=<<'' @ [NL] @ v @ [NL] @ ''>>''
      else k @ ''='' @ quoted (pair_escape v))"
| "out_String (Flag f) = f"
| "out_String (Array k vs) = k @ ''=['' @ renderSlice vs @ '']''"
| "out_String (Object k kvs) = k @ ''={'' @ renderMap kvs @ ''}''"

definition string_array :: "string \<Rightarrow> string list \<Rightarrow> out" where
  "string_array k vs = Array k (map GStr vs)"

section \<open>Lemmas\<close>

lemma sort_key_perm_eq:
  assumes "mset kvs = mset kvs'" "distinct (map fst kvs)"
  shows "sort_key fst kvs = sort_key fst (kvs' :: (string \<times> 'a) list)"
proof (rule sort_key_inj_key_eq)
  show "mset kvs = mset (sort_key fst kvs')" using assms by simp
  show "inj_on fst (set kvs)" using assms(2) by (simp add: distinct_map)
  show "sorted (map fst (sort_key fst kvs'))" by simp
qed

text \<open>
  The text of an object does not depend on the order in which Go iterates its map: two
  enumerations of one map with distinct keys render the same.
\<close>
lemma renderMap_order_independent:
  assumes "mset kvs = mset kvs'" "distinct (map fst kvs)"
  shows "renderMap kvs = renderMap kvs'"
  using sort_key_perm_eq[OF assms] by (simp add: renderMap_def)


end
