(* ===== verification/Msg.thy ===== *)
theory Msg
  imports Outs
begin

text \<open>
  Messages (spored/internal/iface, spored/internal/message) and errors
  (spored/internal/utilities/error). The implementations of the interface \<open>iface.Message\<close> are the
  constructors of one datatype; \<open>*error.Error\<close>, itself a message, wraps an optional message and
  is declared with it. The methods of the interface are a record, built by one definition per type.
  Times are milliseconds, an argument of the methods that read the clock. The field
  \<open>incomingSent\<close> of an error is never read by the code and has no counterpart here.
\<close>

section \<open>Cast identities\<close>

record CastIdentity =
  ciActor :: string
  ciOrigin :: string

definition castIdentity :: "string \<Rightarrow> CastIdentity" where
  "castIdentity cast =
     (case CutByte cast (CHR '':'') of
        None \<Rightarrow> \<lparr>ciActor = cast, ciOrigin = cast\<rparr>
      | Some (actor, origin) \<Rightarrow> \<lparr>ciActor = actor, ciOrigin = origin\<rparr>)"

definition DelegatedCast :: "string \<Rightarrow> string \<Rightarrow> string" where
  "DelegatedCast actor origin = (if actor = origin then actor else actor @ '':'' @ origin)"

text \<open>
  A delegated cast names the component that routes a request and the node that asked for it,
  and both are read back: for an actor without a colon (every component's own id is such) the
  identity of \<open>DelegatedCast actor origin\<close> is \<open>actor\<close> and \<open>origin\<close>, whatever the origin is.
\<close>
lemma DelegatedCast_roundtrip:
  assumes "CHR '':'' \<notin> set actor"
  shows "castIdentity (DelegatedCast actor origin) = \<lparr>ciActor = actor, ciOrigin = origin\<rparr>"
proof (cases "actor = origin")
  case True
  with assms show ?thesis
    by (simp add: DelegatedCast_def castIdentity_def CutByte_def)
next
  case False
  then show ?thesis
    using CutByte_append[OF assms, of origin]
    by (simp add: DelegatedCast_def castIdentity_def)
qed

lemma DelegatedCast_roundtrip_witness:
  "CHR '':'' \<notin> set ''SPORE.pipe'' \<and>
   castIdentity (DelegatedCast ''SPORE.pipe'' ''dev.sporeos.shell'')
     = \<lparr>ciActor = ''SPORE.pipe'', ciOrigin = ''dev.sporeos.shell''\<rparr>"
  using DelegatedCast_roundtrip[of "''SPORE.pipe''" "''dev.sporeos.shell''"] by simp

section \<open>The message types\<close>

type_synonym code = string
type_synonym module = string

record pipe_msg =
  pm_id :: string
  pm_raw :: string
  pm_parts :: "string list"

record parsedMessage =
  p_command :: string
  p_args :: "string gomap"
  p_flags :: "string list"
  p_handle :: string

record request_msg =
  rq_raw :: string
  rq_id :: string
  rq_command :: string
  rq_args :: "string gomap"
  rq_flags :: "string list"
  rq_handle :: string

record response_msg =
  rs_raw :: string
  rs_id :: string
  rs_command :: string
  rs_args :: "string gomap"
  rs_flags :: "string list"
  rs_handle :: string

record broadcast_msg =
  bc_raw :: string
  bc_id :: string
  bc_topic :: string
  bc_args :: "string gomap"
  bc_flags :: "string list"
  bc_incomingSent :: bool

record witness_msg =
  wt_raw :: string
  wt_cast :: string
  wt_witnessFlag :: string

datatype message =
    MPipe pipe_msg
  | MRequest request_msg
  | MResponse response_msg
  | MBroadcast broadcast_msg
  | MSignal string
  | MSpore message "string list"
  | MWitness witness_msg
  | MError error
and error =
    Err (ecode: code) (emodule: module) (ewhat: string) (eextras: "string list")
        (emessage: "message option")

section \<open>Error codes, modules and constructors\<close>

abbreviation C_OK :: code where "C_OK \<equiv> ''OK''"
abbreviation C_Collision :: code where "C_Collision \<equiv> ''Collision''"
abbreviation C_Empty :: code where "C_Empty \<equiv> ''Empty''"
abbreviation C_Generic :: code where "C_Generic \<equiv> ''Generic''"
abbreviation C_HandleInUse :: code where "C_HandleInUse \<equiv> ''HandleInUse''"
abbreviation C_HandshakeDenial :: code where "C_HandshakeDenial \<equiv> ''HandshakeDenial''"
abbreviation C_InitializationFailure :: code where "C_InitializationFailure \<equiv> ''InitializationFailure''"
abbreviation C_Malformed :: code where "C_Malformed \<equiv> ''Malformed''"
abbreviation C_Missing :: code where "C_Missing \<equiv> ''Missing''"
abbreviation C_NoMatches :: code where "C_NoMatches \<equiv> ''NoMatches''"
abbreviation C_NotImplemented :: code where "C_NotImplemented \<equiv> ''NotImplemented''"
abbreviation C_NotPermitted :: code where "C_NotPermitted \<equiv> ''NotPermitted''"
abbreviation C_ReservedLanguage :: code where "C_ReservedLanguage \<equiv> ''ReservedLanguage''"
abbreviation C_ConnectionFailure :: code where "C_ConnectionFailure \<equiv> ''ConnectionFailure''"
abbreviation C_NotApplicable :: code where "C_NotApplicable \<equiv> ''NotApplicable''"
abbreviation C_NotReady :: code where "C_NotReady \<equiv> ''NotReady''"
abbreviation C_Timeout :: code where "C_Timeout \<equiv> ''Timeout''"
abbreviation C_UserDenial :: code where "C_UserDenial \<equiv> ''UserDenial''"

abbreviation Mod_Hub :: module where "Mod_Hub \<equiv> ''Hub''"
abbreviation Mod_Manifest :: module where "Mod_Manifest \<equiv> ''Manifest''"
abbreviation Mod_Message :: module where "Mod_Message \<equiv> ''Message''"
abbreviation Mod_Policy :: module where "Mod_Policy \<equiv> ''Policy''"
abbreviation Mod_Bus :: module where "Mod_Bus \<equiv> ''Bus''"
abbreviation Mod_Hyphae :: module where "Mod_Hyphae \<equiv> ''Hyphae''"
abbreviation Mod_Node :: module where "Mod_Node \<equiv> ''Node''"
abbreviation Mod_Parser :: module where "Mod_Parser \<equiv> ''Parser''"
abbreviation Mod_Permission :: module where "Mod_Permission \<equiv> ''Permission''"
abbreviation Mod_Pipe :: module where "Mod_Pipe \<equiv> ''Pipe''"
abbreviation Mod_Registry :: module where "Mod_Registry \<equiv> ''Registry''"
abbreviation Mod_Spore :: module where "Mod_Spore \<equiv> ''Spore''"

definition error_codes :: "code list" where
  "error_codes =
     [C_OK, C_Collision, C_ConnectionFailure, C_Empty, C_Generic, C_HandleInUse, C_HandshakeDenial,
      C_InitializationFailure, C_Malformed, C_Missing, C_NoMatches, C_NotApplicable, C_NotImplemented,
      C_NotPermitted, C_NotReady, C_ReservedLanguage, C_Timeout, C_UserDenial]"

definition error_modules :: "module list" where
  "error_modules =
     [Mod_Bus, Mod_Hub, Mod_Hyphae, Mod_Manifest, Mod_Message, Mod_Node, Mod_Parser, Mod_Permission,
      Mod_Pipe, Mod_Policy, Mod_Registry, Mod_Spore]"

text \<open>A node that reads \<open>code=c.m\<close> gets the code and the module back by cutting at the dot.\<close>

lemma error_code_reads_back:
  assumes "c \<in> set error_codes"
  shows "CutByte (c @ ''.'' @ m) (CHR ''.'') = Some (c, m)"
proof -
  have "\<forall>d \<in> set error_codes. CHR ''.'' \<notin> set d" by (simp add: error_codes_def)
  with assms CutByte_append[of "CHR ''.''" c m] show ?thesis by simp
qed

lemma error_codes_distinct: "distinct error_codes" "distinct error_modules"
  by (simp_all add: error_codes_def error_modules_def)

definition error_New :: "code \<Rightarrow> module \<Rightarrow> string \<Rightarrow> out list \<Rightarrow> error" where
  "error_New c m w outs = Err c m w (map out_String outs) None"

fun WithMessage :: "error \<Rightarrow> message \<Rightarrow> error" where
  "WithMessage (Err c m w xs _) msg = Err c m w xs (Some msg)"

fun error_Append :: "error \<Rightarrow> out \<Rightarrow> error" where
  "error_Append (Err c m w xs msg) x = Err c m w (xs @ [out_String x]) msg"

definition MissingArg :: "string \<Rightarrow> module \<Rightarrow> error" where
  "MissingArg arg m = error_New C_Missing m ''missing argument'' [Pair ''argument'' arg]"

definition extrasToString :: "error \<Rightarrow> string" where
  "extrasToString e = Join (eextras e) '' ''"

definition Error_text :: "error \<Rightarrow> string" where
  "Error_text e =
     ewhat e @ '' code='' @ ecode e @ ''.'' @ emodule e @ '' '' @ extrasToString e"

lemma error_New_sel [simp]:
  "ecode (error_New c m w os) = c" "emodule (error_New c m w os) = m"
  "ewhat (error_New c m w os) = w" "emessage (error_New c m w os) = None"
  by (simp_all add: error_New_def)

lemma WithMessage_sel [simp]:
  "ecode (WithMessage e msg) = ecode e" "emodule (WithMessage e msg) = emodule e"
  "ewhat (WithMessage e msg) = ewhat e" "eextras (WithMessage e msg) = eextras e"
  "emessage (WithMessage e msg) = Some msg"
  by (cases e; simp)+

section \<open>The methods of iface.Message\<close>

text \<open>
  A value of the interface is its table of methods. One definition per type that implements it, in
  the order of the interface. \<open>v_Arg\<close> returns a string and whether it was found, and \<open>v_Witness\<close> takes
  the time it is called at.
\<close>

record methods =
  v_Capability :: string
  v_Cast :: string
  v_Actor :: string
  v_Origin :: string
  v_Capture :: string
  v_Arg :: "string \<Rightarrow> string \<times> bool"
  v_ArgIf :: "string \<Rightarrow> string \<Rightarrow> string"
  v_Flag :: "string \<Rightarrow> bool"
  v_Handle :: string
  v_Wire :: string
  v_Witness :: "int \<Rightarrow> string"

definition spore_id :: string where "spore_id = ''dev.sporeos.SPORE''"

definition witness_frame :: "string \<Rightarrow> string \<Rightarrow> int \<Rightarrow> string" where
  "witness_frame body flg t =
     ''witness body='' @ [SQ] @ body @ [SQ] @ '' '' @ flg @ '' spore_time='' @ show_int t"

definition map_Arg :: "string gomap \<Rightarrow> string \<Rightarrow> string \<times> bool" where
  "map_Arg args key = (case args key of Some value \<Rightarrow> (value, True) | None \<Rightarrow> ([], False))"

definition map_ArgIf :: "string gomap \<Rightarrow> string \<Rightarrow> string \<Rightarrow> string" where
  "map_ArgIf args key ifnot = (case args key of Some value \<Rightarrow> value | None \<Rightarrow> ifnot)"

definition request_methods :: "request_msg \<Rightarrow> methods" where
  "request_methods r =
     (let wire = rq_raw r @ '' cast='' @ rq_id r in
      \<lparr>v_Capability = rq_command r,
       v_Cast = rq_id r,
       v_Actor = ciActor (castIdentity (rq_id r)),
       v_Origin = ciOrigin (castIdentity (rq_id r)),
       v_Capture = ''n/a'',
       v_Arg = map_Arg (rq_args r),
       v_ArgIf = map_ArgIf (rq_args r),
       v_Flag = (\<lambda>f. f \<in> set (rq_flags r)),
       v_Handle = rq_handle r,
       v_Wire = wire,
       v_Witness = witness_frame wire ''spore_outgoing''\<rparr>)"

definition response_methods :: "response_msg \<Rightarrow> methods" where
  "response_methods r =
     (let cast = map_ArgIf (rs_args r) ''cast'' ''n/a'';
          wire = rs_raw r @ '' capture='' @ rs_id r in
      \<lparr>v_Capability = rs_command r,
       v_Cast = cast,
       v_Actor = ciActor (castIdentity cast),
       v_Origin = ciOrigin (castIdentity cast),
       v_Capture = rs_id r,
       v_Arg = map_Arg (rs_args r),
       v_ArgIf = map_ArgIf (rs_args r),
       v_Flag = (\<lambda>f. f \<in> set (rs_flags r)),
       v_Handle = rs_handle r,
       v_Wire = wire,
       v_Witness = witness_frame wire ''spore_outgoing''\<rparr>)"

definition broadcast_methods :: "broadcast_msg \<Rightarrow> methods" where
  "broadcast_methods b =
     (let wire = bc_raw b @ '' cast='' @ bc_id b in
      \<lparr>v_Capability = bc_topic b,
       v_Cast = bc_id b,
       v_Actor = ciActor (castIdentity (bc_id b)),
       v_Origin = ciOrigin (castIdentity (bc_id b)),
       v_Capture = ''n/a'',
       v_Arg = map_Arg (bc_args b),
       v_ArgIf = map_ArgIf (bc_args b),
       v_Flag = (\<lambda>f. f \<in> set (bc_flags b)),
       v_Handle = ''n/a'',
       v_Wire = wire,
       v_Witness = witness_frame wire (if bc_incomingSent b then ''spore_outgoing'' else ''spore_incoming'')\<rparr>)"

definition signal_methods :: "string \<Rightarrow> methods" where
  "signal_methods h =
     \<lparr>v_Capability = [],
      v_Cast = ''dev.sporeos.SPORE'',
      v_Actor = ''dev.sporeos.SPORE'',
      v_Origin = ''dev.sporeos.SPORE'',
      v_Capture = ''dev.sporeos.SPORE'',
      v_Arg = (\<lambda>_. ([], False)),
      v_ArgIf = (\<lambda>_ ifnot. ifnot),
      v_Flag = (\<lambda>_. False),
      v_Handle = h,
      v_Wire = h,
      v_Witness = (\<lambda>_. h)\<rparr>"

text \<open>A spore message answers with the methods of its request, passed in as \<open>req\<close>.\<close>

definition spore_methods :: "methods \<Rightarrow> string list \<Rightarrow> methods" where
  "spore_methods req responses =
     (let wire = ''~'' @ v_Handle req @ '':'' @ v_Capability req @ '' '' @ Join responses '' '' @
                 '' ok cast='' @ v_Cast req @ '' capture='' @ spore_id in
      \<lparr>v_Capability = v_Capability req,
       v_Cast = v_Cast req,
       v_Actor = v_Actor req,
       v_Origin = v_Origin req,
       v_Capture = ''dev.sporeos.SPORE'',
       v_Arg = (\<lambda>_. ([], False)),
       v_ArgIf = (\<lambda>_ ifnot. ifnot),
       v_Flag = (\<lambda>_. False),
       v_Handle = v_Handle req,
       v_Wire = wire,
       v_Witness = witness_frame wire ''spore_outgoing''\<rparr>)"

definition witness_Witness :: "int \<Rightarrow> witness_msg \<Rightarrow> string" where
  "witness_Witness t w =
     (if wt_cast w = ''n/a'' then witness_frame (wt_raw w) (wt_witnessFlag w) t
      else ''witness body='' @ [SQ] @ wt_raw w @ [SQ] @ '' cast='' @ wt_cast w @ '' '' @
           wt_witnessFlag w @ '' spore_time='' @ show_int t)"

definition witness_methods :: "witness_msg \<Rightarrow> methods" where
  "witness_methods w =
     \<lparr>v_Capability = ''n/a'',
      v_Cast = wt_cast w,
      v_Actor = ciActor (castIdentity (wt_cast w)),
      v_Origin = ciOrigin (castIdentity (wt_cast w)),
      v_Capture = ''n/a'',
      v_Arg = (\<lambda>_. ([], False)),
      v_ArgIf = (\<lambda>_ ifnot. ifnot),
      v_Flag = (\<lambda>_. False),
      v_Handle = ''n/a'',
      v_Wire = ''n/a'',
      v_Witness = (\<lambda>t. witness_Witness t w)\<rparr>"

text \<open>A pipe answers an index it does not have with the reason in the string.\<close>

definition pipe_Arg :: "pipe_msg \<Rightarrow> string \<Rightarrow> string \<times> bool" where
  "pipe_Arg p key =
     (if key = ''raw'' then (pm_raw p, True)
      else if key = ''cast'' then (pm_id p, True)
      else case Atoi key of
        None \<Rightarrow> (''bad-key'', False)
      | Some index \<Rightarrow>
          if index < 0 then (''low-index'', False)
          else if index \<ge> int (length (pm_parts p)) then (''high-index'', False)
          else (pm_parts p ! nat index, True))"

definition pipe_methods :: "pipe_msg \<Rightarrow> methods" where
  "pipe_methods p =
     \<lparr>v_Capability = ''n/a'',
      v_Cast = pm_id p,
      v_Actor = ciActor (castIdentity (pm_id p)),
      v_Origin = ciOrigin (castIdentity (pm_id p)),
      v_Capture = ''n/a'',
      v_Arg = pipe_Arg p,
      v_ArgIf = (\<lambda>_ ifnot. ifnot),
      v_Flag = (\<lambda>_. False),
      v_Handle = ''n/a'',
      v_Wire = pm_raw p,
      v_Witness = (\<lambda>_. ''n/a'')\<rparr>"

text \<open>
  An error with a message answers with the methods of the message and goes back, or forward when the
  message has a capture; without one it answers n/a. The second argument holds the methods of its
  message.
\<close>

definition error_Wire :: "error \<Rightarrow> methods \<Rightarrow> string" where
  "error_Wire e msg =
     (let wire = ''~'' @ v_Handle msg @ '':'' @ v_Capability msg @ '' error code='' @ ecode e @ ''.'' @ emodule e @
                 '' what='' @ quoted (ewhat e) @ '' '' @ extrasToString e @ '' cast='' @ v_Cast msg
      in if v_Capture msg = ''n/a'' then wire else wire @ '' capture='' @ v_Capture msg)"

definition error_methods :: "error \<Rightarrow> methods option \<Rightarrow> methods" where
  "error_methods e message =
     (case message of
        None \<Rightarrow>
          \<lparr>v_Capability = ''n/a'',
           v_Cast = ''n/a'',
           v_Actor = ''n/a'',
           v_Origin = ''n/a'',
           v_Capture = ''n/a'',
           v_Arg = (\<lambda>_. ([], False)),
           v_ArgIf = (\<lambda>_ ifnot. ifnot),
           v_Flag = (\<lambda>_. False),
           v_Handle = ''n/a'',
           v_Wire = ''n/a'',
           v_Witness = (\<lambda>t. ''witness body='' @ [SQ] @ ''error code='' @ ecode e @ ''.'' @ emodule e @ '' what='' @
             quoted (ewhat e) @ [SQ] @ '' '' @ extrasToString e @ '' spore_event spore_time='' @ show_int t)\<rparr>
      | Some msg \<Rightarrow> msg\<lparr>v_Wire := error_Wire e msg, v_Witness := witness_frame (error_Wire e msg) ''spore_outgoing''\<rparr>)"

fun methods_of :: "message \<Rightarrow> methods" where
  "methods_of (MPipe p) = pipe_methods p"
| "methods_of (MRequest r) = request_methods r"
| "methods_of (MResponse r) = response_methods r"
| "methods_of (MBroadcast b) = broadcast_methods b"
| "methods_of (MSignal h) = signal_methods h"
| "methods_of (MSpore req rs) = spore_methods (methods_of req) rs"
| "methods_of (MWitness w) = witness_methods w"
| "methods_of (MError (Err c m w xs None)) = error_methods (Err c m w xs None) None"
| "methods_of (MError (Err c m w xs (Some msg))) =
     error_methods (Err c m w xs (Some msg)) (Some (methods_of msg))"

text \<open>The calls through the interface.\<close>

definition Capability :: "message \<Rightarrow> string" where "Capability msg = v_Capability (methods_of msg)"
definition Cast :: "message \<Rightarrow> string" where "Cast msg = v_Cast (methods_of msg)"
definition Actor :: "message \<Rightarrow> string" where "Actor msg = v_Actor (methods_of msg)"
definition Origin :: "message \<Rightarrow> string" where "Origin msg = v_Origin (methods_of msg)"
definition Capture :: "message \<Rightarrow> string" where "Capture msg = v_Capture (methods_of msg)"
definition Arg :: "message \<Rightarrow> string \<Rightarrow> string \<times> bool" where "Arg msg = v_Arg (methods_of msg)"
definition ArgIf :: "message \<Rightarrow> string \<Rightarrow> string \<Rightarrow> string" where "ArgIf msg = v_ArgIf (methods_of msg)"
definition FlagOf :: "message \<Rightarrow> string \<Rightarrow> bool" where "FlagOf msg = v_Flag (methods_of msg)"
definition Handle :: "message \<Rightarrow> string" where "Handle msg = v_Handle (methods_of msg)"
definition Wire :: "message \<Rightarrow> string" where "Wire msg = v_Wire (methods_of msg)"

text \<open>
  A call of \<open>Witness\<close> at time \<open>t\<close>: the text for the witness nodes, and the message afterwards (a
  broadcast remembers that its incoming form has been sent, and prints the outgoing form from then on).
\<close>

fun after_Witness :: "message \<Rightarrow> message" where
  "after_Witness (MBroadcast b) = MBroadcast (b\<lparr>bc_incomingSent := True\<rparr>)"
| "after_Witness msg = msg"

definition WitnessText :: "int \<Rightarrow> message \<Rightarrow> string \<times> message" where
  "WitnessText t msg = (v_Witness (methods_of msg) t, after_Witness msg)"

subsection \<open>What the calls return, type by type\<close>

lemmas methods_defs =
  request_methods_def response_methods_def broadcast_methods_def signal_methods_def spore_methods_def
  witness_methods_def pipe_methods_def error_methods_def

lemma Capability_simps [simp]:
  "Capability (MPipe p) = ''n/a''" "Capability (MRequest r) = rq_command r"
  "Capability (MResponse rs) = rs_command rs" "Capability (MBroadcast b) = bc_topic b"
  "Capability (MSignal h) = []" "Capability (MSpore req outs) = Capability req"
  "Capability (MWitness w) = ''n/a''" "Capability (MError (Err c m what xs None)) = ''n/a''"
  "Capability (MError (Err c m what xs (Some msg))) = Capability msg"
  by (simp_all add: Capability_def methods_defs Let_def)

lemma ArgIf_simps [simp]:
  "ArgIf (MRequest r) key ifnot = (case rq_args r key of Some v \<Rightarrow> v | None \<Rightarrow> ifnot)"
  "ArgIf (MResponse rs) key ifnot = (case rs_args rs key of Some v \<Rightarrow> v | None \<Rightarrow> ifnot)"
  "ArgIf (MBroadcast b) key ifnot = (case bc_args b key of Some v \<Rightarrow> v | None \<Rightarrow> ifnot)"
  "ArgIf (MPipe p) key ifnot = ifnot" "ArgIf (MSignal h) key ifnot = ifnot"
  "ArgIf (MSpore req outs) key ifnot = ifnot" "ArgIf (MWitness w) key ifnot = ifnot"
  "ArgIf (MError (Err c m what xs None)) key ifnot = ifnot"
  "ArgIf (MError (Err c m what xs (Some msg))) key ifnot = ArgIf msg key ifnot"
  by (simp_all add: ArgIf_def map_ArgIf_def methods_defs Let_def)

lemma Cast_simps [simp]:
  "Cast (MPipe p) = pm_id p" "Cast (MRequest r) = rq_id r"
  "Cast (MResponse rs) = ArgIf (MResponse rs) ''cast'' ''n/a''" "Cast (MBroadcast b) = bc_id b"
  "Cast (MSignal h) = ''dev.sporeos.SPORE''" "Cast (MSpore req outs) = Cast req"
  "Cast (MWitness w) = wt_cast w" "Cast (MError (Err c m what xs None)) = ''n/a''"
  "Cast (MError (Err c m what xs (Some msg))) = Cast msg"
  by (simp_all add: Cast_def map_ArgIf_def methods_defs Let_def)

lemma Actor_simps [simp]:
  "Actor (MPipe p) = ciActor (castIdentity (Cast (MPipe p)))"
  "Actor (MRequest r) = ciActor (castIdentity (Cast (MRequest r)))"
  "Actor (MResponse rs) = ciActor (castIdentity (Cast (MResponse rs)))"
  "Actor (MBroadcast b) = ciActor (castIdentity (Cast (MBroadcast b)))"
  "Actor (MSignal h) = ''dev.sporeos.SPORE''" "Actor (MSpore req outs) = Actor req"
  "Actor (MWitness w) = ciActor (castIdentity (Cast (MWitness w)))"
  "Actor (MError (Err c m what xs None)) = ''n/a''"
  "Actor (MError (Err c m what xs (Some msg))) = Actor msg"
  by (simp_all add: Actor_def map_ArgIf_def methods_defs Let_def)

lemma Origin_simps [simp]:
  "Origin (MPipe p) = ciOrigin (castIdentity (Cast (MPipe p)))"
  "Origin (MRequest r) = ciOrigin (castIdentity (Cast (MRequest r)))"
  "Origin (MResponse rs) = ciOrigin (castIdentity (Cast (MResponse rs)))"
  "Origin (MBroadcast b) = ciOrigin (castIdentity (Cast (MBroadcast b)))"
  "Origin (MSignal h) = ''dev.sporeos.SPORE''" "Origin (MSpore req outs) = Origin req"
  "Origin (MWitness w) = ciOrigin (castIdentity (Cast (MWitness w)))"
  "Origin (MError (Err c m what xs None)) = ''n/a''"
  "Origin (MError (Err c m what xs (Some msg))) = Origin msg"
  by (simp_all add: Origin_def map_ArgIf_def methods_defs Let_def)

lemma Capture_simps [simp]:
  "Capture (MPipe p) = ''n/a''" "Capture (MRequest r) = ''n/a''" "Capture (MResponse rs) = rs_id rs"
  "Capture (MBroadcast b) = ''n/a''" "Capture (MSignal h) = ''dev.sporeos.SPORE''"
  "Capture (MSpore req outs) = ''dev.sporeos.SPORE''" "Capture (MWitness w) = ''n/a''"
  "Capture (MError (Err c m what xs None)) = ''n/a''"
  "Capture (MError (Err c m what xs (Some msg))) = Capture msg"
  by (simp_all add: Capture_def methods_defs Let_def)

lemma Arg_simps [simp]:
  "Arg (MPipe p) key = pipe_Arg p key" "Arg (MRequest r) key = map_Arg (rq_args r) key"
  "Arg (MResponse rs) key = map_Arg (rs_args rs) key" "Arg (MBroadcast b) key = map_Arg (bc_args b) key"
  "Arg (MSignal h) key = ([], False)" "Arg (MSpore req outs) key = ([], False)"
  "Arg (MWitness w) key = ([], False)" "Arg (MError (Err c m what xs None)) key = ([], False)"
  "Arg (MError (Err c m what xs (Some msg))) key = Arg msg key"
  by (simp_all add: Arg_def methods_defs Let_def)

lemma FlagOf_simps [simp]:
  "FlagOf (MPipe p) f = False" "FlagOf (MRequest r) f = (f \<in> set (rq_flags r))"
  "FlagOf (MResponse rs) f = (f \<in> set (rs_flags rs))" "FlagOf (MBroadcast b) f = (f \<in> set (bc_flags b))"
  "FlagOf (MSignal h) f = False" "FlagOf (MSpore req outs) f = False" "FlagOf (MWitness w) f = False"
  "FlagOf (MError (Err c m what xs None)) f = False"
  "FlagOf (MError (Err c m what xs (Some msg))) f = FlagOf msg f"
  by (simp_all add: FlagOf_def methods_defs Let_def)

lemma Handle_simps [simp]:
  "Handle (MPipe p) = ''n/a''" "Handle (MRequest r) = rq_handle r" "Handle (MResponse rs) = rs_handle rs"
  "Handle (MBroadcast b) = ''n/a''" "Handle (MSignal h) = h" "Handle (MSpore req outs) = Handle req"
  "Handle (MWitness w) = ''n/a''" "Handle (MError (Err c m what xs None)) = ''n/a''"
  "Handle (MError (Err c m what xs (Some msg))) = Handle msg"
  by (simp_all add: Handle_def methods_defs Let_def)

lemma Wire_simps [simp]:
  "Wire (MPipe p) = pm_raw p" "Wire (MRequest r) = rq_raw r @ '' cast='' @ rq_id r"
  "Wire (MResponse rs) = rs_raw rs @ '' capture='' @ rs_id rs"
  "Wire (MBroadcast b) = bc_raw b @ '' cast='' @ bc_id b" "Wire (MSignal h) = h"
  "Wire (MSpore req outs) =
     ''~'' @ Handle req @ '':'' @ Capability req @ '' '' @ Join outs '' '' @ '' ok cast='' @ Cast req @
     '' capture='' @ spore_id"
  "Wire (MWitness w) = ''n/a''" "Wire (MError (Err c m what xs None)) = ''n/a''"
  "Wire (MError (Err c m what xs (Some msg))) =
     (let e = Err c m what xs (Some msg);
          wire = ''~'' @ Handle msg @ '':'' @ Capability msg @ '' error code='' @ c @ ''.'' @ m @
                 '' what='' @ quoted what @ '' '' @ extrasToString e @ '' cast='' @ Cast msg
      in if Capture msg = ''n/a'' then wire else wire @ '' capture='' @ Capture msg)"
  by (simp_all add: Wire_def Handle_def Capability_def Cast_def Capture_def error_Wire_def methods_defs Let_def)

lemma WitnessText_MWitness [simp]: "WitnessText t (MWitness w) = (witness_Witness t w, MWitness w)"
  by (simp add: WitnessText_def witness_methods_def)

section \<open>Constructors that need no parser\<close>

definition message_Spore :: "message \<Rightarrow> out list \<Rightarrow> message" where
  "message_Spore req outs = MSpore req (map out_String outs)"

definition witness_flag_strings :: "string list" where
  "witness_flag_strings = [''spore_incoming'', ''spore_outgoing'', ''spore_node'']"

definition message_Witness :: "string \<Rightarrow> out list \<Rightarrow> message" where
  "message_Witness body outs =
     MWitness (foldl
       (\<lambda>w el. if out_String el \<in> set witness_flag_strings
               then w\<lparr>wt_witnessFlag := out_String el\<rparr>
               else w\<lparr>wt_raw := wt_raw w @ '' '' @ out_String el\<rparr>)
       \<lparr>wt_raw = body, wt_cast = ''n/a'', wt_witnessFlag = ''spore_event''\<rparr> outs)"

definition witness_escape :: "string \<Rightarrow> string" where
  "witness_escape raw = ReplaceByte DQ [BSL, DQ] (ReplaceByte NL [BSL, CHR ''n''] raw)"

definition message_Node :: "string \<Rightarrow> string \<Rightarrow> message" where
  "message_Node raw cast =
     MWitness \<lparr>wt_raw = witness_escape raw, wt_cast = cast, wt_witnessFlag = ''spore_node''\<rparr>"

definition message_Incoming :: "string \<Rightarrow> string \<Rightarrow> message" where
  "message_Incoming raw cast =
     MWitness \<lparr>wt_raw = witness_escape raw, wt_cast = cast, wt_witnessFlag = ''spore_incoming''\<rparr>"

definition message_Outgoing :: "string \<Rightarrow> string \<Rightarrow> message" where
  "message_Outgoing raw cast =
     MWitness \<lparr>wt_raw = witness_escape raw, wt_cast = cast, wt_witnessFlag = ''spore_outgoing''\<rparr>"

section \<open>Facts about the methods\<close>

lemma ReplaceByte_removes:
  "\<lbrakk>old \<notin> set new\<rbrakk> \<Longrightarrow> old \<notin> set (ReplaceByte old new s)"
  by (auto simp: ReplaceByte_def)

lemma ReplaceByte_keeps_out:
  "\<lbrakk>c \<notin> set s; c \<notin> set new\<rbrakk> \<Longrightarrow> c \<notin> set (ReplaceByte old new s)"
  by (auto simp: ReplaceByte_def split: if_splits)

lemma NL_notin_witness_escape: "NL \<notin> set (witness_escape raw)"
  unfolding witness_escape_def by (intro ReplaceByte_keeps_out ReplaceByte_removes) simp_all

lemma is_digit_show_nat: "c \<in> set (show_nat n) \<Longrightarrow> is_digit c"
  using show_nat_digits by (auto simp: list_all_iff)

lemma NL_notin_show_int: "NL \<notin> set (show_int i)"
  by (auto simp: show_int_def is_digit_def dest: is_digit_show_nat)

text \<open>
  A witness line is one line: whatever bytes a node sent, the text made of a witness, incoming or
  outgoing record of it holds no newline (the sender's id, which is one line of the handshake, given
  without one), so one record cannot pose as two on the witness stream.
\<close>
lemma witness_records_are_one_line:
  assumes "NL \<notin> set cast"
  shows "NL \<notin> set (fst (WitnessText t (message_Node raw cast)))
       \<and> NL \<notin> set (fst (WitnessText t (message_Incoming raw cast)))
       \<and> NL \<notin> set (fst (WitnessText t (message_Outgoing raw cast)))"
  using assms NL_notin_show_int[of t] NL_notin_witness_escape[of raw]
  by (simp add: message_Node_def message_Incoming_def message_Outgoing_def witness_Witness_def
      witness_frame_def)

lemma witness_records_are_one_line_witness:
  "NL \<notin> set ''dev.a'' \<and>
   NL \<notin> set (fst (WitnessText 5 (message_Node (''x'' @ [NL] @ ''y'') ''dev.a'')))"
  using witness_records_are_one_line[of "''dev.a''" 5 "''x'' @ [NL] @ ''y''"] by simp

text \<open>
  An error answers the message it was raised for: with a message attached, the error has that
  message's handle, capability and cast (so the bus can route it back like any response), and its
  wire form starts with the handle and subject; without one it goes nowhere.
\<close>
lemma error_with_message_routes_like_it:
  "Handle (MError (WithMessage e msg)) = Handle msg
   \<and> Actor (MError (WithMessage e msg)) = Actor msg
   \<and> Origin (MError (WithMessage e msg)) = Origin msg
   \<and> Cast (MError (WithMessage e msg)) = Cast msg
   \<and> prefix (''~'' @ Handle msg @ '':'' @ Capability msg @ '' error code='' @ ecode e)
       (Wire (MError (WithMessage e msg)))
   \<and> Wire (MError (error_New c m w outs)) = ''n/a''"
  by (cases e) (auto simp: Let_def error_New_def prefix_def)

end
