(* ===== verification/Wire_Parser.thy ===== *)
theory Wire_Parser
  imports Msg
begin

text \<open>
  The Go side of the shared C parser (spored/internal/cparser) and the messages built from what it
  returns (spored/internal/message: request, response, broadcast). The C library itself is not part
  of the repository: it is the argument \<open>cp\<close>, the result of parsing a text with or without
  validation (\<open>None\<close> when the library cannot allocate its objects).
\<close>

datatype ptype = TypeUnknown | TypeRequest | TypeResponse | TypeWitness | TypePublish

record ParsedMessage =
  pmType :: ptype
  pmCommand :: string
  pmHandle :: string
  pmArgs :: "string gomap"
  pmFlags :: "string list"

section \<open>Stringify\<close>

definition arg_text :: "string \<Rightarrow> string \<Rightarrow> string" where
  "arg_text key value =
     '' '' @ key @ ''='' @ (if Contains value '' '' then quoted value else value)"

text \<open>\<open>ks\<close> is the order in which the runtime iterates the argument map.\<close>

definition args_text :: "string gomap \<Rightarrow> string list \<Rightarrow> string" where
  "args_text args ks =
     concat (map (\<lambda>k. case args k of Some v \<Rightarrow> arg_text k v | None \<Rightarrow> []) ks)"

definition flags_text :: "string list \<Rightarrow> string" where
  "flags_text flags = concat (map (\<lambda>f. '' '' @ f) flags)"

definition Stringify :: "ParsedMessage \<Rightarrow> string list \<Rightarrow> string" where
  "Stringify p ks =
     (case pmType p of
        TypeRequest \<Rightarrow> pmCommand p @ args_text (pmArgs p) ks @ flags_text (pmFlags p) @ '' ~'' @ pmHandle p
      | TypeResponse \<Rightarrow>
          ''~'' @ pmHandle p @ '':'' @ pmCommand p @ args_text (pmArgs p) ks @ flags_text (pmFlags p)
      | TypeWitness \<Rightarrow> ''witness'' @ args_text (pmArgs p) ks @ flags_text (pmFlags p)
      | TypePublish \<Rightarrow>
          ''publish'' @ '' '' @ pmCommand p @ args_text (pmArgs p) ks @ flags_text (pmFlags p)
      | TypeUnknown \<Rightarrow> ''unknown'')"

section \<open>Unquoting argument values\<close>

fun unescapeLoop :: "string \<Rightarrow> string" where
  "unescapeLoop [] = []"
| "unescapeLoop [c] = [c]"
| "unescapeLoop (c # d # s) =
     (if c = BSL then
        (if d = BSL then [BSL] else if d = DQ then [DQ] else if d = CHR ''n'' then [NL]
         else if d = CHR ''r'' then [CR] else if d = CHR ''t'' then [TAB] else [BSL, d]) @
        unescapeLoop s
      else c # unescapeLoop (d # s))"

definition unescapeDoubleQuoted :: "string \<Rightarrow> string" where
  "unescapeDoubleQuoted s = (if BSL \<notin> set s then s else unescapeLoop s)"

definition slice_inner :: "string \<Rightarrow> string" where
  "slice_inner s = take (length s - 2) (drop 1 s)" \<comment> \<open>\<open>s[1 : len(s)-1]\<close>\<close>

definition unquoteValue :: "string \<Rightarrow> string" where
  "unquoteValue s =
     (if length s \<ge> 2 then
        if hd s = DQ \<and> last s = DQ then unescapeDoubleQuoted (slice_inner s)
        else if hd s = SQ \<and> last s = SQ then slice_inner s
        else s
      else s)"

lemma unescapeLoop_id: "BSL \<notin> set s \<Longrightarrow> unescapeLoop s = s"
  by (induction s rule: unescapeLoop.induct) auto

lemma unescapeLoop_plain: "c \<noteq> BSL \<Longrightarrow> unescapeLoop (c # s) = c # unescapeLoop s"
  by (cases s) auto

lemma unescapeLoop_escape:
  "unescapeLoop (escape_byte c @ s) = c # unescapeLoop s"
  by (auto simp: escape_byte_def unescapeLoop_plain)

lemma unescapeLoop_pair_escape: "unescapeLoop (pair_escape v) = v"
proof (induction v)
  case (Cons c v)
  have "unescapeLoop (escape_byte c @ pair_escape v) = c # unescapeLoop (pair_escape v)"
    by (rule unescapeLoop_escape)
  with Cons show ?case by (simp add: pair_escape_def)
qed (simp add: pair_escape_def)

lemma slice_inner_quoted [simp]: "slice_inner (quoted s) = s"
  by (simp add: slice_inner_def quoted_def)

lemma unquoteValue_quoted: "unquoteValue (quoted s) = unescapeDoubleQuoted s"
  by (simp add: unquoteValue_def) (simp add: quoted_def)

lemma unescape_pair_escape: "unescapeDoubleQuoted (pair_escape v) = v"
  using unescapeLoop_pair_escape unescapeLoop_id
  by (metis unescapeDoubleQuoted_def)

text \<open>
  Every value survives the wire: the text \<open>out.Pair\<close> prints for a one-line value is the key, an
  equals sign and a token that \<open>unquoteValue\<close> decodes to exactly that value, backslashes, quotes,
  carriage returns and tabs included.
\<close>
lemma pair_unquote_roundtrip:
  assumes "NL \<notin> set v"
  shows "\<exists>tok. out_String (Pair k v) = k @ ''='' @ tok \<and> unquoteValue tok = v"
  using assms by (auto simp: unquoteValue_quoted unescape_pair_escape)

lemma pair_unquote_roundtrip_witness:
  "NL \<notin> set [BSL, DQ, TAB, CHR ''a''] \<and>
   (\<exists>tok. out_String (Pair ''k'' [BSL, DQ, TAB, CHR ''a'']) = ''k='' @ tok \<and>
          unquoteValue tok = [BSL, DQ, TAB, CHR ''a''])"
  using pair_unquote_roundtrip[of "[BSL, DQ, TAB, CHR ''a'']" "''k''"] by simp

text \<open>
  \<open>Stringify\<close> loses the difference between messages: a value that itself contains a quote is
  printed without escaping it, so one argument whose value holds the text of a second argument
  prints the same request as two arguments.
\<close>
lemma Stringify_not_injective:
  "\<exists>p q ks ks'. pmArgs p \<noteq> pmArgs q
     \<and> set ks = dom (pmArgs p) \<and> distinct ks \<and> set ks' = dom (pmArgs q) \<and> distinct ks'
     \<and> pmType p = TypeRequest \<and> pmType q = TypeRequest
     \<and> Stringify p ks = Stringify q ks'"
proof -
  let ?v = "''x '' @ [DQ] @ '' b='' @ [DQ] @ ''y z''"
  let ?p = "\<lparr>pmType = TypeRequest, pmCommand = ''go'', pmHandle = ''h'',
             pmArgs = [''a'' \<mapsto> ?v], pmFlags = []\<rparr>"
  let ?q = "\<lparr>pmType = TypeRequest, pmCommand = ''go'', pmHandle = ''h'',
             pmArgs = [''a'' \<mapsto> ''x '', ''b'' \<mapsto> ''y z''], pmFlags = []\<rparr>"
  have eq: "Stringify ?p [''a''] = Stringify ?q [''a'', ''b'']"
    by (simp add: Stringify_def args_text_def arg_text_def Contains_def sublist_Cons_right
        quoted_def flags_text_def)
  have "pmArgs ?p ''b'' \<noteq> pmArgs ?q ''b''" by simp
  then have "pmArgs ?p \<noteq> pmArgs ?q" by metis
  with eq show ?thesis
    by (intro exI[of _ ?p] exI[of _ ?q] exI[of _ "[''a'']"] exI[of _ "[''a'', ''b'']"]) auto
qed

section \<open>Parse and Validate\<close>

record c_message =
  c_error :: "(string \<times> string) option" \<comment> \<open>code and what, when the parser has an error\<close>
  c_type :: ptype
  c_capability :: "string option"
  c_handle :: "string option"
  c_args :: "(string \<times> string) list"
  c_flags :: "string list"

type_synonym c_parser = "string \<Rightarrow> bool \<Rightarrow> c_message option"

text \<open>A failed parse sends a witness message when it is the parser that reported an error.\<close>

datatype parse_result = ParseFail "error option" | ParseOk ParsedMessage

definition args_of :: "(string \<times> string) list \<Rightarrow> string gomap" where
  "args_of kvs = foldl (\<lambda>m kv. m(fst kv \<mapsto> unquoteValue (snd kv))) (\<lambda>_. None) kvs"

definition cparse :: "c_parser \<Rightarrow> string \<Rightarrow> bool \<Rightarrow> parse_result" where
  "cparse cp raw validate =
     (if TrimSpace raw = [] then ParseFail None
      else case cp raw validate of
        None \<Rightarrow> ParseFail None
      | Some m \<Rightarrow>
          (case c_error m of
             Some (ec, what) \<Rightarrow> ParseFail (Some (error_New ec Mod_Parser what []))
           | None \<Rightarrow> ParseOk
               \<lparr>pmType = c_type m,
                pmCommand = (case c_capability m of Some c \<Rightarrow> c | None \<Rightarrow> []),
                pmHandle = (case c_handle m of Some h \<Rightarrow> h | None \<Rightarrow> []),
                pmArgs = args_of (c_args m),
                pmFlags = c_flags m\<rparr>))"

definition Parse :: "c_parser \<Rightarrow> string \<Rightarrow> parse_result" where
  "Parse cp raw = cparse cp raw False"

definition Validate :: "c_parser \<Rightarrow> string \<Rightarrow> parse_result" where
  "Validate cp raw = cparse cp raw True"

definition parsed_of :: "ptype \<Rightarrow> parse_result \<Rightarrow> ParsedMessage option" where
  "parsed_of ty r =
     (case r of ParseOk pm \<Rightarrow> if pmType pm = ty then Some pm else None | ParseFail _ \<Rightarrow> None)"

definition parseRequest :: "c_parser \<Rightarrow> string \<Rightarrow> parsedMessage option" where
  "parseRequest cp raw =
     map_option (\<lambda>pm. \<lparr>p_command = pmCommand pm, p_args = pmArgs pm, p_flags = pmFlags pm,
                       p_handle = pmHandle pm\<rparr>)
       (parsed_of TypeRequest (Validate cp raw))"

definition parseResponse :: "c_parser \<Rightarrow> string \<Rightarrow> parsedMessage option" where
  "parseResponse cp raw =
     map_option (\<lambda>pm. \<lparr>p_command = pmCommand pm, p_args = pmArgs pm, p_flags = pmFlags pm,
                       p_handle = pmHandle pm\<rparr>)
       (parsed_of TypeResponse (Validate cp raw))"

definition parseBroadcast :: "c_parser \<Rightarrow> string \<Rightarrow> parsedMessage option" where
  "parseBroadcast cp raw =
     map_option (\<lambda>pm. \<lparr>p_command = pmCommand pm, p_args = pmArgs pm, p_flags = pmFlags pm,
                       p_handle = []\<rparr>)
       (parsed_of TypePublish (Validate cp raw))"

definition message_Request :: "c_parser \<Rightarrow> string \<Rightarrow> string \<Rightarrow> message option" where
  "message_Request cp raw i =
     map_option (\<lambda>p. MRequest \<lparr>rq_raw = raw, rq_id = i, rq_command = p_command p,
                               rq_args = p_args p, rq_flags = p_flags p, rq_handle = p_handle p\<rparr>)
       (parseRequest cp raw)"

definition message_Response :: "c_parser \<Rightarrow> string \<Rightarrow> string \<Rightarrow> message option" where
  "message_Response cp raw captureID =
     map_option (\<lambda>p. MResponse \<lparr>rs_raw = raw, rs_id = captureID, rs_command = p_command p,
                                rs_args = p_args p, rs_flags = p_flags p, rs_handle = p_handle p\<rparr>)
       (parseResponse cp raw)"

definition message_Broadcast :: "c_parser \<Rightarrow> string \<Rightarrow> string \<Rightarrow> message option" where
  "message_Broadcast cp raw i =
     map_option (\<lambda>p. MBroadcast \<lparr>bc_raw = raw, bc_id = i, bc_topic = p_command p,
                                 bc_args = p_args p, bc_flags = p_flags p, bc_incomingSent = False\<rparr>)
       (parseBroadcast cp raw)"

lemmas message_build_defs =
  message_Request_def message_Response_def message_Broadcast_def
  parseRequest_def parseResponse_def parseBroadcast_def parsed_of_def Validate_def

text \<open>The sender of a built message is the id the daemon passes, never a field of the text.\<close>

lemma message_Request_identity:
  "message_Request cp raw i = Some msg \<Longrightarrow>
     Cast msg = i \<and> Wire msg = raw @ '' cast='' @ i \<and> Capture msg = ''n/a''"
  by (auto simp: message_build_defs split: parse_result.splits if_splits)

lemma message_Broadcast_identity:
  "message_Broadcast cp raw i = Some msg \<Longrightarrow> Cast msg = i \<and> Wire msg = raw @ '' cast='' @ i"
  by (auto simp: message_build_defs split: parse_result.splits if_splits)

lemma message_Response_identity:
  "message_Response cp raw i = Some msg \<Longrightarrow> Capture msg = i \<and> Wire msg = raw @ '' capture='' @ i"
  by (auto simp: message_build_defs split: parse_result.splits if_splits)

end
