(* ===== verification/Pipe_Split.thy ===== *)
theory Pipe_Split
  imports Msg
begin

text \<open>
  Splitting a pipe into its stages (spored/internal/message/pipe.go): the byte loop of
  \<open>splitPipe\<close>, which cuts at top-level \<open>|\<close> bytes only, outside quotes, brackets, braces and block
  values.
\<close>

record split_st =
  sp_parts :: "string list"
  sp_buf :: string
  inSingle :: bool
  inDouble :: bool
  bracketDepth :: nat
  braceDepth :: nat
  escaped :: bool
  inBlock :: bool
  atLineStart :: bool

definition split_init :: split_st where
  "split_init = \<lparr>sp_parts = [], sp_buf = [], inSingle = False, inDouble = False,
     bracketDepth = 0, braceDepth = 0, escaped = False, inBlock = False, atLineStart = True\<rparr>"

definition push_byte :: "char \<Rightarrow> split_st \<Rightarrow> split_st" where
  "push_byte ch st = st\<lparr>sp_buf := sp_buf st @ [ch]\<rparr>"

definition unquoted :: "split_st \<Rightarrow> bool" where
  "unquoted st \<longleftrightarrow> \<not> inSingle st \<and> \<not> inDouble st"

definition top_level :: "split_st \<Rightarrow> bool" where
  "top_level st \<longleftrightarrow> unquoted st \<and> bracketDepth st = 0 \<and> braceDepth st = 0"

definition next_is :: "char \<Rightarrow> string \<Rightarrow> bool" where
  "next_is c rest \<longleftrightarrow> (case rest of [] \<Rightarrow> False | d # _ \<Rightarrow> d = c)"

text \<open>The switch on the byte.\<close>

definition split_switch :: "char \<Rightarrow> split_st \<Rightarrow> split_st" where
  "split_switch ch st =
     (if ch = SQ then
        push_byte ch (if \<not> inDouble st then st\<lparr>inSingle := \<not> inSingle st\<rparr> else st)
      else if ch = DQ then
        push_byte ch (if \<not> inSingle st then st\<lparr>inDouble := \<not> inDouble st\<rparr> else st)
      else if ch = CHR ''['' then
        push_byte ch (if unquoted st then st\<lparr>bracketDepth := bracketDepth st + 1\<rparr> else st)
      else if ch = CHR '']'' then
        push_byte ch (if unquoted st \<and> bracketDepth st > 0
                      then st\<lparr>bracketDepth := bracketDepth st - 1\<rparr> else st)
      else if ch = CHR ''{'' then
        push_byte ch (if unquoted st then st\<lparr>braceDepth := braceDepth st + 1\<rparr> else st)
      else if ch = CHR ''}'' then
        push_byte ch (if unquoted st \<and> braceDepth st > 0
                      then st\<lparr>braceDepth := braceDepth st - 1\<rparr> else st)
      else if ch = CHR ''|'' then
        (if top_level st
         then st\<lparr>sp_parts := sp_parts st @ [TrimSpace (sp_buf st)], sp_buf := []\<rparr>
         else push_byte ch st)
      else push_byte ch st)"

text \<open>
  One iteration outside a block and outside an escape: the switch, then the test for the
  \<open>=<<\<close> that opens a block; \<open>prev\<close> is the byte before, \<open>rest\<close> what follows.
\<close>

definition split_plain :: "char option \<Rightarrow> char \<Rightarrow> string \<Rightarrow> split_st \<Rightarrow> split_st" where
  "split_plain prev ch rest st =
     (let st1 = split_switch ch st;
          st2 = (if top_level st1 \<and> ch = CHR ''<'' \<and> prev = Some (CHR ''='') \<and>
                    next_is (CHR ''<'') rest
                 then st1\<lparr>inBlock := True\<rparr> else st1)
      in st2\<lparr>atLineStart := (ch = NL)\<rparr>)"

function splitLoop :: "char option \<Rightarrow> string \<Rightarrow> split_st \<Rightarrow> split_st" where
  "splitLoop prev [] st = st"
| "splitLoop prev (ch # rest) st =
     (if inBlock st then
        if atLineStart st \<and> ch = CHR ''>'' \<and> next_is (CHR ''>'') rest then
          splitLoop (Some (CHR ''>'')) (tl rest)
            (st\<lparr>sp_buf := sp_buf st @ ''>>'', inBlock := False, atLineStart := False\<rparr>)
        else splitLoop (Some ch) rest ((push_byte ch st)\<lparr>atLineStart := (ch = NL)\<rparr>)
      else if escaped st then
        splitLoop (Some ch) rest ((push_byte ch st)\<lparr>escaped := False, atLineStart := (ch = NL)\<rparr>)
      else if ch = BSL \<and> inDouble st then
        splitLoop (Some ch) rest ((push_byte ch st)\<lparr>escaped := True, atLineStart := False\<rparr>)
      else splitLoop (Some ch) rest (split_plain prev ch rest st))"
  by pat_completeness auto
termination
  by (relation "measure (\<lambda>(prev, raw, st). length raw)") auto

definition split_finish :: "split_st \<Rightarrow> string list" where
  "split_finish st = (if sp_buf st \<noteq> [] then sp_parts st @ [TrimSpace (sp_buf st)] else sp_parts st)"

definition splitPipe :: "string \<Rightarrow> string list" where
  "splitPipe raw = split_finish (splitLoop None raw split_init)"

definition IsPipe :: "string \<Rightarrow> bool" where
  "IsPipe raw = (if \<not> Contains raw ''|'' then False else length (splitPipe raw) > 1)"

definition message_Pipe :: "string \<Rightarrow> string \<Rightarrow> message option" where
  "message_Pipe raw i =
     (let ps = splitPipe raw
      in if length ps < 2 then None
         else Some (MPipe \<lparr>pm_id = i, pm_raw = raw, pm_parts = ps\<rparr>))"

section \<open>The quoting state\<close>

text \<open>
  What decides where the loop cuts is the state without its output. \<open>same_mode\<close> compares two
  states up to the output; \<open>atLineStart\<close> matters inside a block only.
\<close>

definition same_mode :: "split_st \<Rightarrow> split_st \<Rightarrow> bool" where
  "same_mode a b \<longleftrightarrow>
     inSingle a = inSingle b \<and> inDouble a = inDouble b \<and> bracketDepth a = bracketDepth b \<and>
     braceDepth a = braceDepth b \<and> escaped a = escaped b \<and> inBlock a = inBlock b \<and>
     (inBlock a \<longrightarrow> atLineStart a = atLineStart b)"

text \<open>A state the loop can be in: an escape and a block exclude each other and other modes.\<close>

definition mode_ok :: "split_st \<Rightarrow> bool" where
  "mode_ok st \<longleftrightarrow> (inBlock st \<longrightarrow> top_level st \<and> \<not> escaped st) \<and> (escaped st \<longrightarrow> inDouble st)
     \<and> \<not> (inSingle st \<and> inDouble st)"

definition one_step :: "char option \<Rightarrow> char \<Rightarrow> string \<Rightarrow> split_st \<Rightarrow> split_st" where
  "one_step prev ch rest st =
     (if inBlock st then (push_byte ch st)\<lparr>atLineStart := (ch = NL)\<rparr>
      else if escaped st then (push_byte ch st)\<lparr>escaped := False, atLineStart := (ch = NL)\<rparr>
      else if ch = BSL \<and> inDouble st then (push_byte ch st)\<lparr>escaped := True, atLineStart := False\<rparr>
      else split_plain prev ch rest st)"

definition closes :: "char \<Rightarrow> string \<Rightarrow> split_st \<Rightarrow> bool" where
  "closes ch rest st \<longleftrightarrow> inBlock st \<and> atLineStart st \<and> ch = CHR ''>'' \<and> next_is (CHR ''>'') rest"

definition close_block :: "split_st \<Rightarrow> split_st" where
  "close_block st = st\<lparr>sp_buf := sp_buf st @ ''>>'', inBlock := False, atLineStart := False\<rparr>"

lemma splitLoop_step:
  "splitLoop prev (ch # rest) st =
     (if closes ch rest st then splitLoop (Some (CHR ''>'')) (tl rest) (close_block st)
      else splitLoop (Some ch) rest (one_step prev ch rest st))"
  by (simp add: closes_def one_step_def close_block_def)

text \<open>The separator: the only byte on which a stage ends.\<close>

definition cuts :: "char \<Rightarrow> split_st \<Rightarrow> bool" where
  "cuts ch st \<longleftrightarrow> ch = CHR ''|'' \<and> \<not> inBlock st \<and> \<not> escaped st \<and> top_level st"

lemmas split_step_defs =
  one_step_def split_plain_def split_switch_def push_byte_def Let_def

lemma one_step_output:
  assumes "mode_ok st"
  shows "sp_parts (one_step prev ch rest st) =
           (if cuts ch st then sp_parts st @ [TrimSpace (sp_buf st)] else sp_parts st)"
    and "sp_buf (one_step prev ch rest st) = (if cuts ch st then [] else sp_buf st @ [ch])"
  using assms
  by (auto simp: split_step_defs cuts_def top_level_def unquoted_def mode_ok_def)

lemma one_step_mode_ok: "mode_ok st \<Longrightarrow> mode_ok (one_step prev ch rest st)"
  by (auto simp: split_step_defs mode_ok_def top_level_def unquoted_def)

lemma close_block_mode_ok: "mode_ok st \<Longrightarrow> mode_ok (close_block st)"
  by (auto simp: close_block_def mode_ok_def top_level_def unquoted_def)

lemma same_mode_cuts: "same_mode a b \<Longrightarrow> cuts ch a = cuts ch b"
  by (auto simp: same_mode_def cuts_def top_level_def unquoted_def)

lemma same_mode_closes: "same_mode a b \<Longrightarrow> closes ch rest a = closes ch rest b"
  by (auto simp: same_mode_def closes_def)

lemma mode_ok_init: "mode_ok split_init"
  by (simp add: mode_ok_def split_init_def)

section \<open>Where the loop cuts\<close>

text \<open>The position of the first cut of a run, if there is one.\<close>

function cut_at :: "char option \<Rightarrow> string \<Rightarrow> split_st \<Rightarrow> nat option" where
  "cut_at prev [] st = None"
| "cut_at prev (ch # rest) st =
     (if closes ch rest st then
        map_option (\<lambda>n. n + 2) (cut_at (Some (CHR ''>'')) (tl rest) (close_block st))
      else if cuts ch st then Some 0
      else map_option Suc (cut_at (Some ch) rest (one_step prev ch rest st)))"
  by pat_completeness auto
termination
  by (relation "measure (\<lambda>(prev, raw, st). length raw)") auto

text \<open>A state at the start of a stage.\<close>

definition fresh :: "split_st \<Rightarrow> bool" where
  "fresh st \<longleftrightarrow> top_level st \<and> \<not> inBlock st \<and> \<not> escaped st"

lemma fresh_init: "fresh split_init"
  by (simp add: fresh_def split_init_def top_level_def unquoted_def)

lemma fresh_mode_ok: "fresh st \<Longrightarrow> mode_ok st"
  by (auto simp: fresh_def mode_ok_def top_level_def unquoted_def)

lemma fresh_same_mode: "\<lbrakk>fresh a; fresh b\<rbrakk> \<Longrightarrow> same_mode a b"
  by (auto simp: fresh_def same_mode_def top_level_def unquoted_def)

lemma closes_Cons: "closes ch rest st \<Longrightarrow> \<exists>s. rest = CHR ''>'' # s \<and> ch = CHR ''>''"
  by (auto simp: closes_def next_is_def split: list.splits)

lemma cut_None_loop:
  "\<lbrakk>cut_at prev raw st = None; mode_ok st\<rbrakk> \<Longrightarrow>
     sp_parts (splitLoop prev raw st) = sp_parts st \<and>
     sp_buf (splitLoop prev raw st) = sp_buf st @ raw"
proof (induction prev raw st rule: cut_at.induct)
  case (2 prev ch rest st)
  show ?case
  proof (cases "closes ch rest st")
    case True
    then obtain s where s: "rest = CHR ''>'' # s" "ch = CHR ''>''" using closes_Cons by blast
    with True 2 show ?thesis
      by (simp add: splitLoop_step close_block_mode_ok del: splitLoop.simps)
        (simp add: close_block_def)
  next
    case False
    with 2 show ?thesis
      by (auto simp: splitLoop_step one_step_mode_ok one_step_output
          simp del: splitLoop.simps split: if_splits)
  qed
qed simp

lemma cut_Some_loop:
  "\<lbrakk>cut_at prev raw st = Some n; mode_ok st\<rbrakk> \<Longrightarrow>
     n < length raw \<and> raw ! n = CHR ''|'' \<and>
     (\<exists>st'. splitLoop prev raw st = splitLoop (Some (CHR ''|'')) (drop (Suc n) raw) st' \<and>
        fresh st' \<and> sp_buf st' = [] \<and>
        sp_parts st' = sp_parts st @ [TrimSpace (sp_buf st @ take n raw)])"
proof (induction prev raw st arbitrary: n rule: cut_at.induct)
  case (2 prev ch rest st)
  show ?case
  proof (cases "closes ch rest st")
    case True
    then obtain s where s: "rest = CHR ''>'' # s" "ch = CHR ''>''" using closes_Cons by blast
    from 2(3) True obtain m where
      m: "n = m + 2" "cut_at (Some (CHR ''>'')) (tl rest) (close_block st) = Some m"
      by auto
    from 2(1)[OF True m(2) close_block_mode_ok[OF 2(4)]] show ?thesis
      using True s m(1)
      by (simp add: splitLoop_step del: splitLoop.simps) (simp add: close_block_def)
  next
    case noclose: False
    show ?thesis
    proof (cases "cuts ch st")
      case True
      have "fresh (one_step prev ch rest st)"
        using True by (auto simp: cuts_def fresh_def split_step_defs top_level_def unquoted_def)
      with noclose True 2(3,4) show ?thesis
        by (auto simp: splitLoop_step one_step_output cuts_def simp del: splitLoop.simps)
    next
      case False
      from 2(3) noclose False obtain m where
        m: "n = Suc m" "cut_at (Some ch) rest (one_step prev ch rest st) = Some m"
        by auto
      from 2(2)[OF noclose False m(2) one_step_mode_ok[OF 2(4)]] show ?thesis
        using noclose False m(1) 2(4)
        by (simp add: splitLoop_step one_step_output del: splitLoop.simps)
    qed
  qed
qed simp

section \<open>Stages joined by bars give the pipe back\<close>

lemma split_join_loop:
  "mode_ok st \<Longrightarrow>
     \<exists>ss. sp_parts (splitLoop prev raw st) = sp_parts st @ map TrimSpace ss \<and>
          Join (ss @ [sp_buf (splitLoop prev raw st)]) ''|'' = sp_buf st @ raw"
proof (induction "length raw" arbitrary: prev raw st rule: less_induct)
  case less
  show ?case
  proof (cases "cut_at prev raw st")
    case None
    from cut_None_loop[OF None less.prems] show ?thesis
      by (intro exI[of _ "[]"]) simp
  next
    case (Some n)
    from cut_Some_loop[OF Some less.prems] obtain st' where
      n: "n < length raw" "raw ! n = CHR ''|''" and
      st': "splitLoop prev raw st = splitLoop (Some (CHR ''|'')) (drop (Suc n) raw) st'"
        "fresh st'" "sp_buf st' = []"
        "sp_parts st' = sp_parts st @ [TrimSpace (sp_buf st @ take n raw)]"
      by blast
    from n(1) have "length (drop (Suc n) raw) < length raw" by simp
    from less.hyps[OF this fresh_mode_ok[OF st'(2)], of "Some (CHR ''|'')"] obtain ss where
      ss: "sp_parts (splitLoop prev raw st) = sp_parts st' @ map TrimSpace ss"
        "Join (ss @ [sp_buf (splitLoop prev raw st)]) ''|'' = drop (Suc n) raw"
      using st'(1,3) by auto
    have raw: "raw = take n raw @ CHR ''|'' # drop (Suc n) raw"
      using n id_take_nth_drop[of n raw] by simp
    show ?thesis
      using ss st'(4) raw
      by (intro exI[of _ "(sp_buf st @ take n raw) # ss"]) (simp add: Join_Cons)
  qed
qed


section \<open>A stage is never a pipe\<close>

lemma next_is_append: "\<lbrakk>u = [] \<or> hd u \<noteq> c\<rbrakk> \<Longrightarrow> next_is c (s @ u) = next_is c s"
  by (cases s; cases u) (auto simp: next_is_def)

lemma one_step_same_mode:
  assumes "same_mode a b" "mode_ok a" "(prev = Some (CHR ''='')) = (prev' = Some (CHR ''=''))"
    "next_is (CHR ''<'') r = next_is (CHR ''<'') r'"
  shows "same_mode (one_step prev ch r a) (one_step prev' ch r' b)"
  using assms
  by (auto simp: same_mode_def split_step_defs top_level_def unquoted_def mode_ok_def)

text \<open>Cutting a text short cannot create a cut, when what follows cannot open or close a block.\<close>

lemma cut_at_prefix:
  assumes "same_mode a b" "mode_ok a" "(prev = Some (CHR ''='')) = (prev' = Some (CHR ''=''))"
    and u: "u = [] \<or> hd u \<noteq> CHR ''<'' \<and> hd u \<noteq> CHR ''>''"
    and "\<forall>n. cut_at prev (s @ u) a = Some n \<longrightarrow> length s \<le> n"
  shows "cut_at prev' s b = None"
  using assms(1-3,5)
proof (induction "length s" arbitrary: s a b prev prev' rule: less_induct)
  case less
  show ?case
  proof (cases s)
    case (Cons ch s1)
    have nx: "next_is c (s1 @ u) = next_is c s1" if "c = CHR ''<'' \<or> c = CHR ''>''" for c
      using that u by (intro next_is_append) auto
    have cl: "closes ch (s1 @ u) a = closes ch s1 b"
      using less.prems(1) nx by (auto simp: closes_def same_mode_def)
    show ?thesis
    proof (cases "closes ch s1 b")
      case True
      then obtain s2 where s2: "s1 = CHR ''>'' # s2" using closes_Cons by blast
      have "same_mode (close_block a) (close_block b)"
        using less.prems(1) by (auto simp: same_mode_def close_block_def)
      moreover have "\<forall>n. cut_at (Some (CHR ''>'')) (s2 @ u) (close_block a) = Some n \<longrightarrow> length s2 \<le> n"
        using less.prems(4) Cons cl True s2 by auto
      ultimately have "cut_at (Some (CHR ''>'')) s2 (close_block b) = None"
        using less.hyps[of s2 "close_block a" "close_block b" "Some (CHR ''>'')" "Some (CHR ''>'')"]
          close_block_mode_ok[OF less.prems(2)] Cons s2 by simp
      with True Cons s2 show ?thesis by simp
    next
      case False
      then have nocut: "\<not> cuts ch b"
        using less.prems(1,4) Cons cl same_mode_cuts[of a b] by auto
      have "\<forall>n. cut_at (Some ch) (s1 @ u) (one_step prev ch (s1 @ u) a) = Some n \<longrightarrow> length s1 \<le> n"
        using less.prems(1,4) Cons cl False nocut same_mode_cuts[of a b] by auto
      moreover have "same_mode (one_step prev ch (s1 @ u) a) (one_step prev' ch s1 b)"
        using nx by (intro one_step_same_mode less.prems(1-3)) simp
      ultimately have "cut_at (Some ch) s1 (one_step prev' ch s1 b) = None"
        using less.hyps[of s1 "one_step prev ch (s1 @ u) a" "one_step prev' ch s1 b"
            "Some ch" "Some ch"] one_step_mode_ok[OF less.prems(2)] Cons by simp
      with False nocut Cons show ?thesis by simp
    qed
  qed simp
qed

lemma space_bytes_plain:
  "c \<in> space_bytes \<Longrightarrow>
     c \<noteq> SQ \<and> c \<noteq> DQ \<and> c \<noteq> CHR ''['' \<and> c \<noteq> CHR '']'' \<and> c \<noteq> CHR ''{'' \<and> c \<noteq> CHR ''}'' \<and>
     c \<noteq> CHR ''|'' \<and> c \<noteq> CHR ''<'' \<and> c \<noteq> CHR ''>'' \<and> c \<noteq> CHR ''=''"
  by (auto simp: space_bytes_def space_runes_def)

lemma cut_at_leading_space:
  assumes "set l \<subseteq> space_bytes" "fresh st" "prev \<noteq> Some (CHR ''='')"
  shows "\<exists>prev' st'. fresh st' \<and> prev' \<noteq> Some (CHR ''='') \<and>
           cut_at prev (l @ s) st = map_option (\<lambda>n. n + length l) (cut_at prev' s st')"
  using assms
proof (induction l arbitrary: prev st)
  case Nil
  then show ?case
    by (intro exI[of _ prev] exI[of _ st]) (simp add: option.map_ident)
next
  case (Cons c l)
  from Cons.prems have plain: "c \<in> space_bytes" "\<not> inBlock st" by (auto simp: fresh_def)
  then have c: "\<not> cuts c st" "\<not> closes c (l @ s) st"
    using space_bytes_plain[of c] by (auto simp: cuts_def closes_def)
  have "fresh (one_step prev c (l @ s) st)"
    using Cons.prems(2) space_bytes_plain[OF plain(1)]
    by (auto simp: fresh_def split_step_defs top_level_def unquoted_def)
  moreover have "Some c \<noteq> Some (CHR ''='')" using space_bytes_plain[OF plain(1)] by simp
  ultimately obtain prev' st' where
    "fresh st'" "prev' \<noteq> Some (CHR ''='')"
    "cut_at (Some c) (l @ s) (one_step prev c (l @ s) st) =
       map_option (\<lambda>n. n + length l) (cut_at prev' s st')"
    using Cons.IH[of "one_step prev c (l @ s) st" "Some c"] Cons.prems(1) by auto
  with c show ?case
    by (intro exI[of _ prev'] exI[of _ st']) (simp add: option.map_comp comp_def)
qed

text \<open>A trimmed piece that the loop did not cut is not cut when it is split on its own.\<close>

lemma uncut_trimmed:
  assumes "fresh st" "prev \<noteq> Some (CHR ''='')" "u = [] \<or> hd u = CHR ''|''"
    and "\<forall>n. cut_at prev (seg @ u) st = Some n \<longrightarrow> length seg \<le> n"
  shows "cut_at None (TrimSpace seg) split_init = None"
proof -
  obtain l r where seg: "seg = l @ TrimSpace seg @ r"
    and lr: "set l \<subseteq> space_bytes" "set r \<subseteq> space_bytes"
    by (rule TrimSpace_split)
  let ?t = "TrimSpace seg"
  obtain prev' st' where p: "fresh st'" "prev' \<noteq> Some (CHR ''='')"
    "cut_at prev (l @ ?t @ r @ u) st =
       map_option (\<lambda>n. n + length l) (cut_at prev' (?t @ r @ u) st')"
    using cut_at_leading_space[OF lr(1) assms(1,2)] by blast
  have "seg @ u = l @ ?t @ r @ u" using seg by (metis append.assoc)
  with assms(4) p(3) have "\<forall>n. cut_at prev' (?t @ (r @ u)) st' = Some n \<longrightarrow> length seg \<le> n + length l"
    by auto
  moreover have "length seg = length l + length ?t + length r"
    using seg by (metis length_append add.assoc)
  ultimately have "\<forall>n. cut_at prev' (?t @ (r @ u)) st' = Some n \<longrightarrow> length ?t \<le> n"
    by fastforce
  moreover have "r @ u = [] \<or> hd (r @ u) \<noteq> CHR ''<'' \<and> hd (r @ u) \<noteq> CHR ''>''"
    using assms(3) lr(2) space_bytes_plain by (cases r) auto
  ultimately show ?thesis
    using cut_at_prefix[OF fresh_same_mode[OF p(1) fresh_init] fresh_mode_ok[OF p(1)],
        of prev' None "r @ u" ?t] p(2) by simp
qed

lemma new_parts_uncut:
  assumes "fresh st" "sp_buf st = []" "prev \<noteq> Some (CHR ''='')"
    "\<forall>p \<in> set (sp_parts st). cut_at None p split_init = None"
  shows "\<forall>p \<in> set (split_finish (splitLoop prev raw st)). cut_at None p split_init = None"
  using assms
proof (induction "length raw" arbitrary: prev raw st rule: less_induct)
  case less
  show ?case
  proof (cases "cut_at prev raw st")
    case None
    from uncut_trimmed[OF less.prems(1,3), of "[]" raw] None
    have "cut_at None (TrimSpace raw) split_init = None" by simp
    with cut_None_loop[OF None fresh_mode_ok[OF less.prems(1)]] less.prems(2,4)
    show ?thesis by (auto simp: split_finish_def)
  next
    case (Some n)
    from cut_Some_loop[OF Some fresh_mode_ok[OF less.prems(1)]] obtain st' where
      n: "n < length raw" "raw ! n = CHR ''|''" and
      st': "splitLoop prev raw st = splitLoop (Some (CHR ''|'')) (drop (Suc n) raw) st'"
        "fresh st'" "sp_buf st' = []"
        "sp_parts st' = sp_parts st @ [TrimSpace (take n raw)]"
      using less.prems(2) by auto
    have raw: "raw = take n raw @ CHR ''|'' # drop (Suc n) raw"
      using n id_take_nth_drop[of n raw] by simp
    have "cut_at None (TrimSpace (take n raw)) split_init = None"
      using uncut_trimmed[OF less.prems(1,3), of "CHR ''|'' # drop (Suc n) raw" "take n raw"]
        raw Some n(1) by simp
    then have "\<forall>p \<in> set (sp_parts st'). cut_at None p split_init = None"
      using st'(4) less.prems(4) by auto
    with less.hyps[OF _ st'(2,3), of "drop (Suc n) raw" "Some (CHR ''|'')"] n(1) st'(1)
    show ?thesis by simp
  qed
qed

text \<open>
  A stage of a pipe is never itself a pipe: whatever the quoting, brackets and blocks of the
  text, no stage \<open>splitPipe\<close> returns is recognised by \<open>IsPipe\<close>, so the nested-pipe error of the
  pipe runner cannot be reached.
\<close>
lemma stage_is_not_a_pipe:
  assumes "p \<in> set (splitPipe raw)"
  shows "\<not> IsPipe p"
proof -
  have "cut_at None p split_init = None"
    using assms new_parts_uncut[OF fresh_init, of None raw]
    by (simp add: splitPipe_def split_init_def)
  from cut_None_loop[OF this mode_ok_init]
  have "sp_parts (splitLoop None p split_init) = []" by (simp add: split_init_def)
  then show ?thesis by (simp add: IsPipe_def splitPipe_def split_finish_def)
qed

lemma stage_is_not_a_pipe_witness:
  "''b [x|y]'' \<in> set (splitPipe ''a | b [x|y] '') \<and> \<not> IsPipe ''b [x|y]''"
proof -
  have "splitPipe ''a | b [x|y] '' = [''a'', ''b [x|y]'']" by code_simp
  then show ?thesis using stage_is_not_a_pipe[of "''b [x|y]''" "''a | b [x|y] ''"] by simp
qed

end
