(* ===== verification/Await.thy ===== *)
theory Await
  imports Msg
begin

text \<open>
  Pending responses (spored/internal/utilities/await): a table from handles to channels of
  capacity one. A channel is a number into the buffers; a send on a full channel blocks, so the
  operations that send return an option, \<open>None\<close> for a call that never returns while it holds
  the table's mutex. Durations are nanoseconds.
\<close>

record Pending =
  aw_module :: module
  aw_channels :: "string \<Rightarrow> nat option"
  aw_bufs :: "nat \<Rightarrow> message option"
  aw_next :: nat \<comment> \<open>channels made so far\<close>
  aw_timeout :: int

definition await_New :: "module \<Rightarrow> Pending" where
  "await_New m = \<lparr>aw_module = m, aw_channels = (\<lambda>_. None), aw_bufs = (\<lambda>_. None),
                  aw_next = 0, aw_timeout = 0\<rparr>"

definition WithTimeout :: "int \<Rightarrow> Pending \<Rightarrow> Pending" where
  "WithTimeout timeout p = p\<lparr>aw_timeout := timeout\<rparr>"

definition AwaitHandle :: "string \<Rightarrow> Pending \<Rightarrow> nat \<times> Pending" where
  "AwaitHandle handle p =
     (aw_next p, p\<lparr>aw_channels := (aw_channels p)(handle \<mapsto> aw_next p),
                   aw_next := Suc (aw_next p)\<rparr>)"

definition DeleteHandle :: "string \<Rightarrow> Pending \<Rightarrow> Pending" where
  "DeleteHandle handle p = p\<lparr>aw_channels := (aw_channels p)(handle := None)\<rparr>"

definition HasHandle :: "string \<Rightarrow> Pending \<Rightarrow> bool" where
  "HasHandle handle p = (aw_channels p handle \<noteq> None)"

text \<open>\<open>ch <- msg\<close> on a channel of capacity one.\<close>

definition send_chan :: "nat \<Rightarrow> message \<Rightarrow> Pending \<Rightarrow> Pending option" where
  "send_chan ch msg p =
     (case aw_bufs p ch of None \<Rightarrow> Some (p\<lparr>aw_bufs := (aw_bufs p)(ch \<mapsto> msg)\<rparr>) | Some _ \<Rightarrow> None)"

definition dropped_response :: "string \<Rightarrow> Pending \<Rightarrow> error" where
  "dropped_response handle p =
     error_New C_Missing (aw_module p) ''dropped response for unknown or expired handle''
       [Pair ''handle'' handle]"

text \<open>\<open>Receive\<close> hands the message to the waiter of its handle, or reports it on the witness stream.\<close>

definition pending_Receive :: "message \<Rightarrow> Pending \<Rightarrow> (Pending \<times> error option) option" where
  "pending_Receive msg p =
     (let handle = Handle msg in
      case aw_channels p handle of
        Some ch \<Rightarrow> map_option (\<lambda>p'. (p', None)) (send_chan ch msg (DeleteHandle handle p))
      | None \<Rightarrow> Some (p, Some (dropped_response handle p)))"

definition pending_Resolve :: "string \<Rightarrow> Pending \<Rightarrow> Pending option" where
  "pending_Resolve handle p =
     (case aw_channels p handle of
        Some ch \<Rightarrow> send_chan ch (MSignal handle) (DeleteHandle handle p)
      | None \<Rightarrow> Some p)"

datatype wait_result = WGot message | WTimedOut error

definition effective_timeout :: "Pending \<Rightarrow> int option \<Rightarrow> int" where
  "effective_timeout p override = (case override of Some t \<Rightarrow> t | None \<Rightarrow> aw_timeout p)"

definition timed_out :: "string \<Rightarrow> Pending \<Rightarrow> error" where
  "timed_out handle p =
     error_New C_Timeout (aw_module p) ''timed out pending'' [Pair ''handle'' handle]"

text \<open>
  \<open>WaitForTimeout\<close>: it returns by receiving from its channel or, only when the effective timeout is
  positive, by the timer; with both ready the runtime picks either. A wait with no rule that
  applies is a goroutine that stays blocked.
\<close>

inductive waits :: "string \<Rightarrow> nat \<Rightarrow> int option \<Rightarrow> int \<Rightarrow> Pending \<Rightarrow> wait_result \<Rightarrow> Pending \<Rightarrow> bool" where
  got: "aw_bufs p ch = Some msg \<Longrightarrow>
          waits handle ch override elapsed p (WGot msg) (p\<lparr>aw_bufs := (aw_bufs p)(ch := None)\<rparr>)"
| expired: "\<lbrakk>effective_timeout p override > 0; elapsed \<ge> effective_timeout p override\<rbrakk> \<Longrightarrow>
          waits handle ch override elapsed p (WTimedOut (timed_out handle p)) (DeleteHandle handle p)"

inductive_cases waitsE: "waits handle ch override elapsed p r p'"

text \<open>The steps goroutines take on one table, in any order, and the tables they can reach.\<close>

inductive pending_step :: "Pending \<Rightarrow> Pending \<Rightarrow> bool" where
  await: "AwaitHandle h p = (ch, p') \<Longrightarrow> pending_step p p'"
| delete: "pending_step p (DeleteHandle h p)"
| receive: "pending_Receive msg p = Some (p', e) \<Longrightarrow> pending_step p p'"
| resolve: "pending_Resolve h p = Some p' \<Longrightarrow> pending_step p p'"
| wait: "waits h ch override elapsed p r p' \<Longrightarrow> pending_step p p'"

inductive_cases pending_stepE: "pending_step p p'"

inductive pending_reach :: "Pending \<Rightarrow> bool" where
  init: "pending_reach (WithTimeout t (await_New m))"
| step: "\<lbrakk>pending_reach p; pending_step p p'\<rbrakk> \<Longrightarrow> pending_reach p'"

section \<open>The invariant\<close>

definition pending_inv :: "Pending \<Rightarrow> bool" where
  "pending_inv p \<longleftrightarrow>
     (\<forall>h ch. aw_channels p h = Some ch \<longrightarrow> ch < aw_next p \<and> aw_bufs p ch = None) \<and>
     (\<forall>h h' ch. aw_channels p h = Some ch \<and> aw_channels p h' = Some ch \<longrightarrow> h = h') \<and>
     (\<forall>ch \<ge> aw_next p. aw_bufs p ch = None)"

lemmas pending_defs =
  AwaitHandle_def DeleteHandle_def pending_Receive_def pending_Resolve_def send_chan_def Let_def

lemma pending_inv_init: "pending_inv (WithTimeout t (await_New m))"
  by (simp add: pending_inv_def WithTimeout_def await_New_def)

lemma pending_inv_await: "pending_inv p \<Longrightarrow> pending_inv (snd (AwaitHandle h p))"
  unfolding pending_inv_def AwaitHandle_def
  by (auto simp: less_Suc_eq dest: less_not_refl2 split: if_splits)

lemma pending_inv_delete: "pending_inv p \<Longrightarrow> pending_inv (DeleteHandle h p)"
  by (auto simp: pending_inv_def DeleteHandle_def)

lemma pending_inv_send:
  "\<lbrakk>pending_inv p; aw_channels p h = Some ch; send_chan ch msg (DeleteHandle h p) = Some p'\<rbrakk>
     \<Longrightarrow> pending_inv p'"
  by (auto simp: pending_inv_def DeleteHandle_def send_chan_def split: option.splits if_splits)
    (metis less_le_not_le linorder_not_le)+

lemma pending_inv_receive: "\<lbrakk>pending_inv p; pending_Receive msg p = Some (p', e)\<rbrakk> \<Longrightarrow> pending_inv p'"
  by (auto simp: pending_Receive_def Let_def split: option.splits intro: pending_inv_send)

lemma pending_inv_resolve: "\<lbrakk>pending_inv p; pending_Resolve h p = Some p'\<rbrakk> \<Longrightarrow> pending_inv p'"
  by (auto simp: pending_Resolve_def split: option.splits intro: pending_inv_send)

lemma pending_inv_waits: "\<lbrakk>waits h ch ov el p r p'; pending_inv p\<rbrakk> \<Longrightarrow> pending_inv p'"
  by (erule waits.cases) (auto simp: pending_inv_def DeleteHandle_def)

lemma pending_inv_step: "\<lbrakk>pending_step p p'; pending_inv p\<rbrakk> \<Longrightarrow> pending_inv p'"
proof (erule pending_stepE)
  show "pending_inv p \<Longrightarrow> AwaitHandle h p = (ch, p') \<Longrightarrow> pending_inv p'" for h ch
    using pending_inv_await[of p h] by simp
qed (auto intro: pending_inv_delete pending_inv_receive pending_inv_resolve pending_inv_waits)

lemma pending_reach_inv: "pending_reach p \<Longrightarrow> pending_inv p"
  by (induction rule: pending_reach.induct) (auto intro: pending_inv_init pending_inv_step)

text \<open>
  C22. Delivering a response never blocks: in every table that any interleaving of registrations,
  deliveries, cancellations, waits and timeouts can reach, the channel of a registered handle is
  empty, so neither \<open>Receive\<close> nor \<open>Resolve\<close> can stall while it holds the table's mutex.
\<close>
theorem delivery_never_blocks:
  assumes "pending_reach p"
  shows "pending_Receive msg p \<noteq> None \<and> pending_Resolve h p \<noteq> None"
proof -
  have "aw_bufs p ch = None" if "aw_channels p k = Some ch" for k ch
    using pending_reach_inv[OF assms] that by (auto simp: pending_inv_def)
  then show ?thesis
    by (auto simp: pending_defs split: option.splits)
qed

theorem delivery_never_blocks_witness:
  "pending_reach (snd (AwaitHandle ''h'' (WithTimeout 5 (await_New ''Node'')))) \<and>
   pending_Receive (MSignal ''h'') (snd (AwaitHandle ''h'' (WithTimeout 5 (await_New ''Node'')))) \<noteq> None"
proof -
  let ?p = "snd (AwaitHandle ''h'' (WithTimeout 5 (await_New ''Node'')))"
  have "pending_reach ?p"
    by (rule pending_reach.step[OF pending_reach.init], rule pending_step.await)
      (simp add: AwaitHandle_def)
  with delivery_never_blocks[of ?p "MSignal ''h''" "''h''"] show ?thesis by simp
qed

section \<open>The interface the callers rely on\<close>

text \<open>
  The permission manager, the pipe runner, the hyphae and the nodes all register a handle, send a
  request and wait for the message with that handle. What they need of the table is stated once.
\<close>

locale waiter_table =
  fixes register :: "string \<Rightarrow> 's \<Rightarrow> nat \<times> 's"
    and deliver :: "message \<Rightarrow> 's \<Rightarrow> 's"
    and slot :: "'s \<Rightarrow> nat \<Rightarrow> message option"
    and waiting :: "'s \<Rightarrow> string \<Rightarrow> nat option"
    and ok :: "'s \<Rightarrow> bool"
  assumes register_ok: "\<lbrakk>ok s; register h s = (c, s')\<rbrakk> \<Longrightarrow>
      ok s' \<and> waiting s' = (waiting s)(h \<mapsto> c) \<and> slot s' = slot s"
    and deliver_hit: "\<lbrakk>ok s; waiting s (Handle m) = Some c\<rbrakk> \<Longrightarrow>
      ok (deliver m s) \<and> waiting (deliver m s) = (waiting s)(Handle m := None) \<and>
      slot (deliver m s) = (slot s)(c \<mapsto> m)"
    and deliver_miss: "\<lbrakk>ok s; waiting s (Handle m) = None\<rbrakk> \<Longrightarrow> deliver m s = s"
    and waiting_inj: "\<lbrakk>ok s; waiting s h = Some c; waiting s h' = Some c\<rbrakk> \<Longrightarrow> h = h'"
begin

lemma deliver_ok: "ok s \<Longrightarrow> ok (deliver m s)"
  using deliver_hit deliver_miss by (cases "waiting s (Handle m)") auto

lemma deliver_other:
  assumes "ok s" "waiting s h = Some c" "Handle m \<noteq> h"
  shows "waiting (deliver m s) h = Some c \<and> slot (deliver m s) c = slot s c"
proof (cases "waiting s (Handle m)")
  case None
  with assms deliver_miss show ?thesis by simp
next
  case (Some d)
  with assms have "d \<noteq> c" using waiting_inj by blast
  with deliver_hit[OF assms(1) Some] assms show ?thesis by simp
qed

lemma deliver_unregistered:
  assumes "ok s" "\<forall>h. waiting s h \<noteq> Some c"
  shows "(\<forall>h. waiting (deliver m s) h \<noteq> Some c) \<and> slot (deliver m s) c = slot s c"
proof (cases "waiting s (Handle m)")
  case None
  with assms deliver_miss show ?thesis by simp
next
  case (Some d)
  with assms have "d \<noteq> c" by auto
  with deliver_hit[OF assms(1) Some] assms show ?thesis by auto
qed

lemma others_keep_waiting:
  "\<lbrakk>ok s; waiting s h = Some c; \<forall>m \<in> set ms. Handle m \<noteq> h\<rbrakk> \<Longrightarrow>
     ok (fold deliver ms s) \<and> waiting (fold deliver ms s) h = Some c \<and>
     slot (fold deliver ms s) c = slot s c"
proof (induction ms arbitrary: s)
  case (Cons m ms)
  with deliver_other[of s h c m] Cons.IH[of "deliver m s"] deliver_ok[of s m] show ?case by simp
qed simp

lemma unregistered_stays:
  "\<lbrakk>ok s; \<forall>h. waiting s h \<noteq> Some c\<rbrakk> \<Longrightarrow> slot (fold deliver ms s) c = slot s c"
proof (induction ms arbitrary: s)
  case (Cons m ms)
  with deliver_unregistered[of s c m] Cons.IH[of "deliver m s"] deliver_ok[of s m] show ?case by simp
qed simp

lemma first_response_wins:
  assumes "ok s" "register h s = (c, s1)" "\<forall>m \<in> set pre. Handle m \<noteq> h" "Handle m0 = h"
  shows "slot (fold deliver (pre @ m0 # post) s1) c = Some m0"
proof -
  let ?s2 = "fold deliver pre s1"
  have s1: "ok s1" "waiting s1 h = Some c"
    using register_ok[OF assms(1,2)] by auto
  from others_keep_waiting[OF s1 assms(3)] have s2: "ok ?s2" "waiting ?s2 h = Some c" by auto
  from deliver_hit[OF s2(1), of m0 c] s2(2) assms(4)
  have s3: "ok (deliver m0 ?s2)" "slot (deliver m0 ?s2) c = Some m0"
    "waiting (deliver m0 ?s2) = (waiting ?s2)(h := None)" by auto
  moreover have "\<forall>k. waiting (deliver m0 ?s2) k \<noteq> Some c"
    using s3(3) s2 waiting_inj by (auto split: if_splits)
  ultimately show ?thesis using unregistered_stays[of "deliver m0 ?s2" c post] by simp
qed

lemma replaced_waiter_is_never_served:
  assumes "ok s" "register h s = (c, s1)" "slot s1 c = None" "\<forall>k. waiting s k \<noteq> Some c"
    "register h s1 = (d, s2)" "c \<noteq> d"
  shows "slot (fold deliver ms s2) c = None"
proof -
  have s1: "ok s1" "waiting s1 = (waiting s)(h \<mapsto> c)"
    using register_ok[OF assms(1,2)] by auto
  from register_ok[OF s1(1) assms(5)]
  have s2: "ok s2" "waiting s2 = (waiting s1)(h \<mapsto> d)" "slot s2 = slot s1" by auto
  have "\<forall>k. waiting s2 k \<noteq> Some c"
    using s1(2) s2(2) assms(4,6) by auto
  with unregistered_stays[OF s2(1)] s2(3) assms(3) show ?thesis by simp
qed

end

definition deliver_msg :: "message \<Rightarrow> Pending \<Rightarrow> Pending" where
  "deliver_msg msg p = (case pending_Receive msg p of Some (p', e) \<Rightarrow> p' | None \<Rightarrow> p)"

interpretation pending: waiter_table AwaitHandle deliver_msg aw_bufs aw_channels pending_inv
proof (unfold_locales, goal_cases)
  case (1 s h c s')
  then show ?case using pending_inv_await[of s h] by (auto simp: AwaitHandle_def)
next
  case (2 s m c)
  then have "aw_bufs s c = None" by (auto simp: pending_inv_def)
  with 2 have r: "pending_Receive m s =
      Some ((DeleteHandle (Handle m) s)\<lparr>aw_bufs := (aw_bufs s)(c \<mapsto> m)\<rparr>, None)"
    by (simp add: pending_defs)
  with pending_inv_receive[OF 2(1) r] show ?case
    by (simp add: deliver_msg_def DeleteHandle_def)
next
  case (3 s m)
  then show ?case by (simp add: deliver_msg_def pending_Receive_def Let_def)
next
  case (4 s h c h')
  then show ?case unfolding pending_inv_def by blast
qed

text \<open>
  A waiter gets the first response with its handle, whatever else is delivered before and
  after it: responses of other handles pass it by, and a second response with the same handle
  cannot replace the first.
\<close>
lemma waiter_gets_first_response:
  assumes "pending_reach p" "AwaitHandle h p = (ch, p1)"
    "\<forall>m \<in> set pre. Handle m \<noteq> h" "Handle msg = h"
  shows "aw_bufs (fold deliver_msg (pre @ msg # post) p1) ch = Some msg"
  by (rule pending.first_response_wins[OF pending_reach_inv[OF assms(1)] assms(2-4)])

lemma waiter_gets_first_response_witness:
  "aw_bufs (fold deliver_msg ([MSignal ''x''] @ MSignal ''h'' # [MSignal ''h''])
     (snd (AwaitHandle ''h'' (WithTimeout 5 (await_New ''Node''))))) 0 = Some (MSignal ''h'')"
  using waiter_gets_first_response[OF pending_reach.init, of "''h''" 5 "''Node''" 0
      "snd (AwaitHandle ''h'' (WithTimeout 5 (await_New ''Node'')))" "[MSignal ''x'']"
      "MSignal ''h''" "[MSignal ''h'']"]
  by (simp add: AwaitHandle_def WithTimeout_def await_New_def)

text \<open>
  Registering a handle that is already awaited abandons the earlier waiter: no later delivery
  reaches its channel, so without a timeout its wait never returns. The pipe runner registers
  before it asks the bus whether the handle is free and does not undo it when the bus refuses.
\<close>
lemma second_await_orphans_first:
  assumes "pending_reach p" "AwaitHandle h p = (ch, p1)" "AwaitHandle h p1 = (ch', p2)"
  shows "aw_bufs (fold deliver_msg ms p2) ch = None \<and>
         (\<forall>override elapsed r p'. effective_timeout p override \<le> 0 \<longrightarrow>
            \<not> waits h ch override elapsed (fold deliver_msg ms p2) r p')"
proof -
  have inv: "pending_inv p" by (rule pending_reach_inv[OF assms(1)])
  have "aw_bufs p1 ch = None" "\<forall>k. aw_channels p k \<noteq> Some ch" "ch \<noteq> ch'"
    using inv assms(2,3) by (auto simp: pending_inv_def AwaitHandle_def)
  from pending.replaced_waiter_is_never_served[OF inv assms(2) this(1,2) assms(3) this(3)]
  have empty: "aw_bufs (fold deliver_msg ms p2) ch = None" .
  have timeout: "aw_timeout (fold deliver_msg ms q) = aw_timeout q" for q
    by (induction ms arbitrary: q)
      (auto simp: deliver_msg_def pending_defs split: option.splits)
  have "aw_timeout p2 = aw_timeout p"
    using assms(2,3) by (auto simp: AwaitHandle_def)
  with empty timeout[of p2] show ?thesis
    by (auto simp: effective_timeout_def elim!: waitsE split: option.splits)
qed

lemma second_await_orphans_first_witness:
  "aw_bufs (fold deliver_msg [MSignal ''h'']
     (snd (AwaitHandle ''h'' (snd (AwaitHandle ''h'' (await_New ''Pipe'')))))) 0 = None"
proof -
  have "pending_reach (await_New ''Pipe'')"
    using pending_reach.init[of 0 "''Pipe''"] by (simp add: WithTimeout_def await_New_def)
  then show ?thesis
    using second_await_orphans_first[of "await_New ''Pipe''" "''h''" 0
        "snd (AwaitHandle ''h'' (await_New ''Pipe''))" 1
        "snd (AwaitHandle ''h'' (snd (AwaitHandle ''h'' (await_New ''Pipe''))))" "[MSignal ''h'']"]
    by (simp add: AwaitHandle_def await_New_def)
qed

text \<open>
  A response that comes after its waiter has timed out is dropped and reported, and one that
  comes twice is too: after a timeout the handle is free, and delivering to a free handle changes
  nothing and returns the error for the witness stream.
\<close>
lemma late_response_is_reported:
  assumes "waits h ch override elapsed p (WTimedOut e) p'" "Handle msg = h"
  shows "ecode e = C_Timeout \<and> pending_Receive msg p' = Some (p', Some (dropped_response h p'))"
  using assms
  by (auto elim!: waitsE simp: timed_out_def DeleteHandle_def pending_Receive_def Let_def)


end
