(* ===== verification/Abbrev.thy ===== *)
theory Abbrev
  imports Prelude
begin

text \<open>
  The abbreviation index (spored/internal/bus/abbreviation.go): it resolves the dot-suffixes of fully
  qualified command and topic names. The index is two Go maps; the abstraction of the index is the
  set of fully qualified names registered in it, and the interface the bus relies on is the
  locale \<open>name_index\<close>.
\<close>

record abbreviationIndex =
  abbreviations :: "string gomap"
  collisions :: "string list gomap"

definition newAbbreviationIndex :: abbreviationIndex where
  "newAbbreviationIndex = \<lparr>abbreviations = (\<lambda>_. None), collisions = (\<lambda>_. None)\<rparr>"

text \<open>From the bare trailing segment up to the name itself.\<close>

definition suffixesOf :: "string \<Rightarrow> string list" where
  "suffixesOf fqname =
     (let segments = SplitByte fqname (CHR ''.'')
      in map (\<lambda>i. Join (drop i segments) ''.'') (rev [0..<length segments]))"

definition bind_name :: "string \<Rightarrow> string \<Rightarrow> abbreviationIndex \<Rightarrow> abbreviationIndex" where
  "bind_name key fqname idx =
     (case collisions idx key of
        Some candidates \<Rightarrow> idx\<lparr>collisions := (collisions idx)(key \<mapsto> candidates @ [fqname])\<rparr>
      | None \<Rightarrow>
          (case abbreviations idx key of
             Some existing \<Rightarrow>
               if existing = fqname then idx
               else idx\<lparr>abbreviations := (abbreviations idx)(key := None),
                        collisions := (collisions idx)(key \<mapsto> [existing, fqname])\<rparr>
           | None \<Rightarrow> idx\<lparr>abbreviations := (abbreviations idx)(key \<mapsto> fqname)\<rparr>))"

definition unbind_name :: "string \<Rightarrow> string \<Rightarrow> abbreviationIndex \<Rightarrow> abbreviationIndex" where
  "unbind_name key fqname idx =
     (case collisions idx key of
        Some candidates \<Rightarrow>
          (case filter (\<lambda>candidate. candidate \<noteq> fqname) candidates of
             [] \<Rightarrow> idx\<lparr>collisions := (collisions idx)(key := None)\<rparr>
           | [r] \<Rightarrow> idx\<lparr>collisions := (collisions idx)(key := None),
                        abbreviations := (abbreviations idx)(key \<mapsto> r)\<rparr>
           | remaining \<Rightarrow> idx\<lparr>collisions := (collisions idx)(key \<mapsto> remaining)\<rparr>)
      | None \<Rightarrow>
          (case abbreviations idx key of
             Some existing \<Rightarrow>
               if existing = fqname then idx\<lparr>abbreviations := (abbreviations idx)(key := None)\<rparr>
               else idx
           | None \<Rightarrow> idx))"

definition idx_add :: "string \<Rightarrow> abbreviationIndex \<Rightarrow> abbreviationIndex" where
  "idx_add fqname idx = fold (\<lambda>key. bind_name key fqname) (suffixesOf fqname) idx"

definition idx_remove :: "string \<Rightarrow> abbreviationIndex \<Rightarrow> abbreviationIndex" where
  "idx_remove fqname idx = fold (\<lambda>key. unbind_name key fqname) (suffixesOf fqname) idx"

text \<open>The three results of \<open>resolve\<close>: the name, the candidates, and whether it resolved.\<close>

definition idx_resolve :: "abbreviationIndex \<Rightarrow> string \<Rightarrow> string \<times> string list \<times> bool" where
  "idx_resolve idx key =
     (case collisions idx key of
        Some contenders \<Rightarrow> ([], contenders, False)
      | None \<Rightarrow> (case abbreviations idx key of
                  Some fqname \<Rightarrow> (fqname, [], True)
                | None \<Rightarrow> ([], [], False)))"

section \<open>Dot-suffixes\<close>

definition dot_suffix :: "string \<Rightarrow> string \<Rightarrow> bool" where
  "dot_suffix key name \<longleftrightarrow> key = name \<or> suffix (CHR ''.'' # key) name"

lemma SplitByte_append_any: "SplitByte (p @ c # s) c = SplitByte p c @ SplitByte s c"
proof (induction p)
  case (Cons a p)
  then show ?case by (cases "SplitByte p c") auto
qed simp

lemma Join_append:
  "\<lbrakk>xs \<noteq> []; ys \<noteq> []\<rbrakk> \<Longrightarrow> Join (xs @ ys) sep = Join xs sep @ sep @ Join ys sep"
proof (induction xs)
  case (Cons x xs)
  then show ?case by (cases xs) (auto simp: Join_Cons)
qed simp

lemma set_suffixesOf: "set (suffixesOf name) = {key. dot_suffix key name}"
proof (intro set_eqI iffI, goal_cases)
  case (1 key)
  let ?segs = "SplitByte name (CHR ''.'')"
  from 1 obtain i where i: "i < length ?segs" "key = Join (drop i ?segs) ''.''"
    by (auto simp: suffixesOf_def Let_def)
  show ?case
  proof (cases "i = 0")
    case True
    with i show ?thesis by (simp add: dot_suffix_def)
  next
    case False
    then have "Join (take i ?segs @ drop i ?segs) ''.''
        = Join (take i ?segs) ''.'' @ ''.'' @ Join (drop i ?segs) ''.''"
      using i(1) by (intro Join_append) auto
    then have "name = Join (take i ?segs) ''.'' @ CHR ''.'' # key"
      using i(2) by simp
    then show ?thesis by (auto simp: dot_suffix_def suffix_def)
  qed
next
  case (2 key)
  let ?segs = "SplitByte name (CHR ''.'')"
  have "\<exists>i < length ?segs. key = Join (drop i ?segs) ''.''"
  proof (cases "key = name")
    case True
    then show ?thesis by (intro exI[of _ 0]) simp
  next
    case False
    with 2 obtain p where p: "name = p @ CHR ''.'' # key"
      by (auto simp: dot_suffix_def suffix_def)
    then have "?segs = SplitByte p (CHR ''.'') @ SplitByte key (CHR ''.'')"
      by (simp add: SplitByte_append_any)
    then show ?thesis
      by (intro exI[of _ "length (SplitByte p (CHR ''.''))"]) auto
  qed
  then show ?case by (auto simp: suffixesOf_def Let_def)
qed

lemma Join_drop_length:
  "\<lbrakk>i < j; j < length segs\<rbrakk> \<Longrightarrow> length (Join (drop j segs) ''.'') < length (Join (drop i segs) ''.'')"
proof -
  assume ij: "i < j" "j < length segs"
  then have "drop i segs = take (j - i) (drop i segs) @ drop j segs"
    by (metis append_take_drop_id drop_drop le_add_diff_inverse2 less_imp_le)
  moreover have "take (j - i) (drop i segs) \<noteq> []" "drop j segs \<noteq> []" using ij by auto
  ultimately have "Join (drop i segs) ''.'' =
      Join (take (j - i) (drop i segs)) ''.'' @ ''.'' @ Join (drop j segs) ''.''"
    by (metis Join_append)
  then show ?thesis by simp
qed

lemma distinct_suffixesOf: "distinct (suffixesOf name)"
proof -
  have "inj_on (\<lambda>i. Join (drop i segs) ''.'') {0..<length segs}" for segs
    by (rule inj_onI) (metis Join_drop_length atLeastLessThan_iff linorder_neqE_nat nat_less_le)
  then show ?thesis by (simp add: suffixesOf_def Let_def distinct_map)
qed

lemma dot_suffix_refl [simp]: "dot_suffix f f"
  by (simp add: dot_suffix_def)

lemma dot_suffix_prepend: "dot_suffix key f \<Longrightarrow> dot_suffix key (p @ CHR ''.'' # f)"
  by (auto simp: dot_suffix_def suffix_def)

section \<open>The interface of a name index\<close>

text \<open>
  \<open>holds i R\<close>: the index \<open>i\<close> stands for the set \<open>R\<close> of fully qualified names.
\<close>

locale name_index =
  fixes emp :: 'i
    and add :: "string \<Rightarrow> 'i \<Rightarrow> 'i"
    and remove :: "string \<Rightarrow> 'i \<Rightarrow> 'i"
    and resolve :: "'i \<Rightarrow> string \<Rightarrow> string \<times> string list \<times> bool"
    and holds :: "'i \<Rightarrow> string set \<Rightarrow> bool"
  assumes holds_emp: "holds emp {}"
    and holds_add: "holds i R \<Longrightarrow> holds (add f i) (insert f R)"
    and holds_remove: "holds i R \<Longrightarrow> holds (remove f i) (R - {f})"
    and resolve_found: "\<lbrakk>holds i R; resolve i key = (f, cs, True)\<rbrakk> \<Longrightarrow>
      {g \<in> R. dot_suffix key g} = {f} \<and> cs = []"
    and resolve_ambiguous: "\<lbrakk>holds i R; resolve i key = (f, cs, False)\<rbrakk> \<Longrightarrow>
      {g \<in> R. dot_suffix key g} = set cs"
begin

lemma resolve_registered:
  "\<lbrakk>holds i R; resolve i key = (f, cs, True)\<rbrakk> \<Longrightarrow> f \<in> R \<and> dot_suffix key f"
  using resolve_found by blast

lemma resolve_deterministic:
  "\<lbrakk>holds i R; resolve i key = (f, cs, True); g \<in> R; dot_suffix key g\<rbrakk> \<Longrightarrow> g = f"
  using resolve_found by blast

lemma resolve_missing:
  assumes "holds i R" "\<forall>g \<in> R. \<not> dot_suffix key g" "resolve i key = (f, cs, ok)"
  shows "\<not> ok \<and> cs = []"
proof -
  have none: "{g \<in> R. dot_suffix key g} = {}" using assms(2) by blast
  have "\<not> ok" using resolve_found[OF assms(1), of key f cs] assms(3) none by auto
  moreover from this have "set cs = {}"
    using resolve_ambiguous[OF assms(1), of key f cs] assms(3) none by simp
  ultimately show ?thesis by simp
qed

lemma shadowed_name_unreachable:
  assumes "holds i R" "p @ CHR ''.'' # f \<in> R"
  shows "resolve i key \<noteq> (f, cs, True)"
proof
  assume r: "resolve i key = (f, cs, True)"
  then have "dot_suffix key f" using resolve_registered assms(1) by blast
  then have "dot_suffix key (p @ CHR ''.'' # f)" by (rule dot_suffix_prepend)
  with resolve_deterministic[OF assms(1) r assms(2)] show False
    by (metis append_is_Nil_conv length_Cons length_append list.distinct(1) not_add_less2 lessI)
qed

end

section \<open>The index implements the interface\<close>

text \<open>The names an index holds for a key, however it stores them.\<close>

definition claims :: "abbreviationIndex \<Rightarrow> string \<Rightarrow> string list" where
  "claims idx key =
     (case collisions idx key of
        Some cs \<Rightarrow> cs
      | None \<Rightarrow> (case abbreviations idx key of Some f \<Rightarrow> [f] | None \<Rightarrow> []))"

definition idx_wf :: "abbreviationIndex \<Rightarrow> bool" where
  "idx_wf idx \<longleftrightarrow> (\<forall>key cs. collisions idx key = Some cs \<longrightarrow>
      length cs \<ge> 2 \<and> abbreviations idx key = None)"

definition idx_holds :: "abbreviationIndex \<Rightarrow> string set \<Rightarrow> bool" where
  "idx_holds idx R \<longleftrightarrow> idx_wf idx \<and> (\<forall>key. set (claims idx key) = {f \<in> R. dot_suffix key f})"

lemma claims_bind:
  "claims (bind_name key f idx) k =
     (if k = key then (if claims idx key = [f] \<and> collisions idx key = None then [f]
                       else claims idx key @ [f])
      else claims idx k)"
  by (auto simp: claims_def bind_name_def split: option.splits)

lemma claims_unbind:
  "claims (unbind_name key f idx) k =
     (if k = key then filter (\<lambda>c. c \<noteq> f) (claims idx key) else claims idx k)"
  if "idx_wf idx"
  using that
  by (auto simp: claims_def unbind_name_def idx_wf_def filter_empty_conv
      split: option.splits list.splits)

lemma idx_wf_bind: "idx_wf idx \<Longrightarrow> idx_wf (bind_name key f idx)"
  by (fastforce simp: idx_wf_def bind_name_def split: option.splits)

lemma idx_wf_unbind: "idx_wf idx \<Longrightarrow> idx_wf (unbind_name key f idx)"
  by (auto simp: idx_wf_def unbind_name_def split: option.splits list.splits)

lemma idx_wf_new: "idx_wf newAbbreviationIndex"
  by (simp add: idx_wf_def newAbbreviationIndex_def)

lemma fold_bind:
  "idx_wf idx \<Longrightarrow>
     idx_wf (fold (\<lambda>key. bind_name key f) ks idx) \<and>
     set (claims (fold (\<lambda>key. bind_name key f) ks idx) k) =
       set (claims idx k) \<union> (if k \<in> set ks then {f} else {})"
  by (induction ks arbitrary: idx) (auto simp: idx_wf_bind claims_bind)

lemma fold_unbind:
  "idx_wf idx \<Longrightarrow>
     idx_wf (fold (\<lambda>key. unbind_name key f) ks idx) \<and>
     claims (fold (\<lambda>key. unbind_name key f) ks idx) k =
       (if k \<in> set ks then filter (\<lambda>c. c \<noteq> f) (claims idx k) else claims idx k)"
  by (induction ks arbitrary: idx) (auto simp: idx_wf_unbind claims_unbind)

lemma idx_holds_new: "idx_holds newAbbreviationIndex {}"
  by (auto simp: idx_holds_def idx_wf_new claims_def)
    (simp_all add: newAbbreviationIndex_def)

lemma idx_holds_add: "idx_holds idx R \<Longrightarrow> idx_holds (idx_add f idx) (insert f R)"
  by (auto simp: idx_holds_def idx_add_def fold_bind set_suffixesOf)

lemma idx_holds_remove: "idx_holds idx R \<Longrightarrow> idx_holds (idx_remove f idx) (R - {f})"
  by (auto simp: idx_holds_def idx_remove_def fold_unbind set_suffixesOf)

lemma idx_resolve_True:
  "idx_resolve idx key = (f, cs, True) \<Longrightarrow> claims idx key = [f] \<and> cs = []"
  by (auto simp: idx_resolve_def claims_def split: option.splits)

lemma idx_resolve_False:
  "idx_resolve idx key = (f, cs, False) \<Longrightarrow> claims idx key = cs"
  by (auto simp: idx_resolve_def claims_def split: option.splits)

interpretation abbr: name_index newAbbreviationIndex idx_add idx_remove idx_resolve idx_holds
proof (unfold_locales, goal_cases)
  case 1
  show ?case by (rule idx_holds_new)
next
  case (2 i R f)
  then show ?case by (rule idx_holds_add)
next
  case (3 i R f)
  then show ?case by (rule idx_holds_remove)
next
  case (4 i R key f cs)
  from idx_resolve_True[OF 4(2)] have "set (claims i key) = {f}" "cs = []" by simp_all
  with 4(1) show ?case unfolding idx_holds_def by simp
next
  case (5 i R key f cs)
  then show ?case by (auto simp: idx_holds_def dest: idx_resolve_False)
qed


section \<open>Histories of registrations\<close>

datatype idx_op = OpAdd string | OpRemove string

fun idx_apply :: "idx_op \<Rightarrow> abbreviationIndex \<Rightarrow> abbreviationIndex" where
  "idx_apply (OpAdd f) idx = idx_add f idx"
| "idx_apply (OpRemove f) idx = idx_remove f idx"

definition idx_run :: "idx_op list \<Rightarrow> abbreviationIndex" where
  "idx_run ops = fold idx_apply ops newAbbreviationIndex"

fun names_apply :: "idx_op \<Rightarrow> string set \<Rightarrow> string set" where
  "names_apply (OpAdd f) R = insert f R"
| "names_apply (OpRemove f) R = R - {f}"

definition names_run :: "idx_op list \<Rightarrow> string set" where
  "names_run ops = fold names_apply ops {}"

lemma fold_holds:
  "idx_holds idx R \<Longrightarrow> idx_holds (fold idx_apply ops idx) (fold names_apply ops R)"
proof (induction ops arbitrary: idx R)
  case (Cons op ops)
  have "idx_holds (idx_apply op idx) (names_apply op R)"
    using Cons.prems idx_holds_add idx_holds_remove by (cases op) auto
  with Cons.IH show ?case by simp
qed simp

lemma run_holds: "idx_holds (idx_run ops) (names_run ops)"
  unfolding idx_run_def names_run_def by (rule fold_holds[OF idx_holds_new])

text \<open>
  C21. The index never guesses: after any history of registrations and removals, a key that resolves
  resolves to the one registered name that has it as a dot-suffix; and a key that does not resolve
  comes back with exactly the registered names it could mean.
\<close>
theorem resolve_never_guesses:
  "case idx_resolve (idx_run ops) key of (f, cs, ok) \<Rightarrow>
     (ok \<longrightarrow> {g \<in> names_run ops. dot_suffix key g} = {f}) \<and>
     (\<not> ok \<longrightarrow> {g \<in> names_run ops. dot_suffix key g} = set cs)"
proof (cases "idx_resolve (idx_run ops) key")
  case (fields f cs ok)
  then show ?thesis
    using abbr.resolve_found[OF run_holds, of ops key f cs]
      abbr.resolve_ambiguous[OF run_holds, of ops key f cs]
    by (cases ok) auto
qed

theorem resolve_never_guesses_witness:
  "idx_resolve (idx_run [OpAdd ''a.run'', OpAdd ''b.run'']) ''run'' = ([], [''a.run'', ''b.run''], False)
   \<and> {g \<in> names_run [OpAdd ''a.run'', OpAdd ''b.run'']. dot_suffix ''run'' g} = {''a.run'', ''b.run''}"
proof -
  have r: "idx_resolve (idx_run [OpAdd ''a.run'', OpAdd ''b.run'']) ''run''
      = ([], [''a.run'', ''b.run''], False)"
    by code_simp
  with resolve_never_guesses[of "[OpAdd ''a.run'', OpAdd ''b.run'']" "''run''"] show ?thesis
    by simp
qed

text \<open>A history in which a name is registered only while it is not registered.\<close>

fun disciplined :: "idx_op list \<Rightarrow> string set \<Rightarrow> bool" where
  "disciplined [] R = True"
| "disciplined (OpAdd f # ops) R = (f \<notin> R \<and> disciplined ops (insert f R))"
| "disciplined (OpRemove f # ops) R = disciplined ops (R - {f})"

lemma fold_bind_fresh:
  "\<lbrakk>distinct ks; \<forall>k. f \<notin> set (claims idx k) \<or> k \<notin> set ks\<rbrakk> \<Longrightarrow>
     claims (fold (\<lambda>key. bind_name key f) ks idx) k
       = claims idx k @ (if k \<in> set ks then [f] else [])"
proof (induction ks arbitrary: idx)
  case (Cons a ks)
  have "\<forall>k. f \<notin> set (claims (bind_name a f idx) k) \<or> k \<notin> set ks"
    using Cons.prems by (auto simp: claims_bind)
  with Cons.IH[of "bind_name a f idx"] Cons.prems
  have "claims (fold (\<lambda>key. bind_name key f) ks (bind_name a f idx)) k
      = claims (bind_name a f idx) k @ (if k \<in> set ks then [f] else [])" by simp
  moreover have "f \<notin> set (claims idx a)" using Cons.prems(2) by auto
  then have "claims (bind_name a f idx) a = claims idx a @ [f]"
    by (auto simp: claims_bind)
  ultimately show ?case using Cons.prems by (auto simp: claims_bind)
qed simp

lemma fold_bind_distinct:
  "\<lbrakk>distinct ks; \<forall>k. distinct (claims idx k) \<and> f \<notin> set (claims idx k)\<rbrakk> \<Longrightarrow>
     distinct (claims (fold (\<lambda>key. bind_name key f) ks idx) k)"
  using fold_bind_fresh[of ks f idx k] by simp

lemma disciplined_distinct:
  "\<lbrakk>disciplined ops R; idx_holds idx R; \<forall>k. distinct (claims idx k)\<rbrakk> \<Longrightarrow>
     distinct (claims (fold idx_apply ops idx) k)"
proof (induction ops R arbitrary: idx rule: disciplined.induct)
  case (2 f ops R)
  then have "\<forall>k. f \<notin> set (claims idx k)" by (auto simp: idx_holds_def)
  with 2(4) have "\<forall>k. distinct (claims (idx_add f idx) k)"
    unfolding idx_add_def by (intro allI fold_bind_distinct distinct_suffixesOf) simp
  with 2 idx_holds_add[OF 2(3)] show ?case by simp
next
  case (3 f ops R)
  then have "\<forall>k. distinct (claims (idx_remove f idx) k)"
    by (simp add: idx_remove_def fold_unbind idx_holds_def)
  with 3 idx_holds_remove[OF 3(3)] show ?case by simp
qed simp

text \<open>
  When no name is registered twice, abbreviation is complete as well: a key resolves to a name
  exactly when that name is the only registered one with that dot-suffix. In particular removing
  one of two contenders makes the short form of the other usable again.
\<close>
lemma resolve_complete_when_disciplined:
  assumes "disciplined ops {}"
  shows "idx_resolve (idx_run ops) key = (f, [], True) \<longleftrightarrow>
         {g \<in> names_run ops. dot_suffix key g} = {f}"
proof
  assume "idx_resolve (idx_run ops) key = (f, [], True)"
  with abbr.resolve_found[OF run_holds] show "{g \<in> names_run ops. dot_suffix key g} = {f}" by blast
next
  assume one: "{g \<in> names_run ops. dot_suffix key g} = {f}"
  have "distinct (claims (idx_run ops) key)"
    unfolding idx_run_def
    using disciplined_distinct[OF assms idx_holds_new, of key]
    by (simp add: claims_def newAbbreviationIndex_def)
  moreover have "set (claims (idx_run ops) key) = {f}"
    using one run_holds[of ops] by (simp add: idx_holds_def)
  ultimately have "claims (idx_run ops) key = [f]"
    by (metis distinct.simps(2) empty_iff list.set(1) list.set_intros(1) list.set_intros(2)
        neq_Nil_conv set_ConsD singletonD empty_set insert_not_empty)
  then show "idx_resolve (idx_run ops) key = (f, [], True)"
    using run_holds[of ops]
    by (fastforce simp: idx_holds_def idx_wf_def claims_def idx_resolve_def split: option.splits)
qed

lemma resolve_complete_when_disciplined_witness:
  "disciplined [OpAdd ''a.run'', OpAdd ''b.run'', OpRemove ''a.run''] {} \<and>
   idx_resolve (idx_run [OpAdd ''a.run'', OpAdd ''b.run'', OpRemove ''a.run'']) ''run''
     = (''b.run'', [], True)"
proof -
  let ?ops = "[OpAdd ''a.run'', OpAdd ''b.run'', OpRemove ''a.run'']"
  have d: "disciplined ?ops {}" by simp
  have "{g \<in> names_run ?ops. dot_suffix ''run'' g} = {''b.run''}"
    by (auto simp: names_run_def dot_suffix_def suffix_def)
  with resolve_complete_when_disciplined[OF d, of "''run''" "''b.run''"] d show ?thesis by simp
qed

text \<open>
  Registering a name again while its short form is contended leaves the short form unusable: a
  node that connects (which registers it each time) twice beside a contender keeps two entries, and
  when the contender is gone the key still counts as ambiguous, between the name and itself.
\<close>
lemma reregistration_stays_ambiguous:
  "names_run [OpAdd ''a.run'', OpAdd ''b.run'', OpAdd ''b.run'', OpRemove ''a.run''] = {''b.run''}
   \<and> idx_resolve (idx_run [OpAdd ''a.run'', OpAdd ''b.run'', OpAdd ''b.run'', OpRemove ''a.run'']) ''run''
     = ([], [''b.run'', ''b.run''], False)"
proof
  show "names_run [OpAdd ''a.run'', OpAdd ''b.run'', OpAdd ''b.run'', OpRemove ''a.run''] = {''b.run''}"
    by (auto simp: names_run_def)
  show "idx_resolve (idx_run [OpAdd ''a.run'', OpAdd ''b.run'', OpAdd ''b.run'', OpRemove ''a.run'']) ''run''
     = ([], [''b.run'', ''b.run''], False)"
    by code_simp
qed

text \<open>
  A name can be made unreachable by another registration: once some name that ends in a dot and
  the whole of \<open>f\<close> is registered, no key at all resolves to \<open>f\<close>, its own fully qualified form
  included, although the error advises a more qualified name.
\<close>
lemma registration_can_shadow_a_name:
  assumes "p @ CHR ''.'' # f \<in> names_run ops"
  shows "idx_resolve (idx_run ops) key \<noteq> (f, cs, True)"
  by (rule abbr.shadowed_name_unreachable[OF run_holds assms])

lemma registration_can_shadow_a_name_witness:
  "''x.a.run'' \<in> names_run [OpAdd ''a.run'', OpAdd ''x.a.run''] \<and>
   idx_resolve (idx_run [OpAdd ''a.run'', OpAdd ''x.a.run'']) ''a.run'' \<noteq> (''a.run'', [], True)"
  using registration_can_shadow_a_name[of "''x''" "''a.run''" "[OpAdd ''a.run'', OpAdd ''x.a.run'']"
      "''a.run''" "[]"]
  by (simp add: names_run_def)

end
