(* ===== verification/Go_Path.thy ===== *)
theory Go_Path
  imports Prelude
begin

text \<open>
  The parts of Go's path/filepath package the daemon uses, on a system whose separator is the
  slash: \<open>Clean\<close>, \<open>Join\<close>, \<open>Dir\<close> and \<open>Ext\<close>, and the executable-path rule of
  spored/internal/utilities/file.
\<close>

abbreviation SLASH :: char where "SLASH \<equiv> CHR ''/''"

definition path_rooted :: "string \<Rightarrow> bool" where
  "path_rooted p \<longleftrightarrow> p \<noteq> [] \<and> hd p = SLASH"

text \<open>\<open>Clean\<close> over the elements of a path, with the cleaned ones so far as a stack, last first.\<close>

fun clean_step :: "bool \<Rightarrow> string list \<Rightarrow> string \<Rightarrow> string list" where
  "clean_step rooted stack seg =
     (if seg = [] \<or> seg = ''.'' then stack
      else if seg = ''..'' then
        (case stack of
           [] \<Rightarrow> if rooted then [] else [''..'']
         | e # rest \<Rightarrow> if e = ''..'' then ''..'' # stack else rest)
      else seg # stack)"

definition clean_segs :: "string \<Rightarrow> string list" where
  "clean_segs p = rev (foldl (clean_step (path_rooted p)) [] (SplitByte p SLASH))"

definition Clean :: "string \<Rightarrow> string" where
  "Clean p =
     (let body = Join (clean_segs p) ''/''
      in if path_rooted p then ''/'' @ body else if body = [] then ''.'' else body)"

fun filepath_Join :: "string list \<Rightarrow> string" where
  "filepath_Join [] = []"
| "filepath_Join (e # es) = (if e \<noteq> [] then Clean (Join (e # es) ''/'') else filepath_Join es)"

definition filepath_Dir :: "string \<Rightarrow> string" where
  "filepath_Dir p = Clean (rev (dropWhile (\<lambda>c. c \<noteq> SLASH) (rev p)))"

text \<open>\<open>Ext\<close>: from the last dot of the last element; \<open>sep\<close> tells the separators.\<close>

definition filepath_Ext :: "(char \<Rightarrow> bool) \<Rightarrow> string \<Rightarrow> string" where
  "filepath_Ext sep p =
     (let tailpart = takeWhile (\<lambda>c. \<not> sep c \<and> c \<noteq> CHR ''.'') (rev p);
          before = drop (length tailpart) (rev p)
      in case before of
           c # _ \<Rightarrow> if c = CHR ''.'' then CHR ''.'' # rev tailpart else []
         | [] \<Rightarrow> [])"

definition path_seps :: "string \<Rightarrow> char \<Rightarrow> bool" where
  "path_seps goos c \<longleftrightarrow> c = SLASH \<or> (goos = ''windows'' \<and> c = BSL)"

definition executablePathFor :: "string \<Rightarrow> string \<Rightarrow> string" where
  "executablePathFor goos path =
     (if goos \<noteq> ''windows'' \<or> path = [] \<or> filepath_Ext (path_seps goos) path \<noteq> [] then path
      else path @ ''.exe'')"

section \<open>Lemmas\<close>

lemma path_rooted_append: "d \<noteq> [] \<Longrightarrow> path_rooted (d @ x) = path_rooted d"
  by (simp add: path_rooted_def)

lemma clean_segs_append:
  assumes "d \<noteq> []" "SLASH \<notin> set name" "name \<noteq> []" "name \<noteq> ''.''" "name \<noteq> ''..''"
  shows "clean_segs (d @ SLASH # name) = clean_segs d @ [name]"
proof -
  have "SplitByte (d @ SLASH # name) SLASH = SplitByte d SLASH @ [name]"
    using assms(2)
  proof (induction d)
    case (Cons a d)
    then show ?case by (cases "SplitByte d SLASH") auto
  qed (simp add: SplitByte_single)
  then show ?thesis
    using assms by (simp add: clean_segs_def path_rooted_append)
qed

lemma filepath_Ext_append_exe: "filepath_Ext (path_seps ''windows'') (p @ ''.exe'') = ''.exe''"
  by (simp add: filepath_Ext_def path_seps_def Let_def)

text \<open>
  The executable path is stable: naming a binary twice changes nothing more, and away from
  Windows the path of the manifest is used as it is.
\<close>
lemma executablePath_idempotent:
  "executablePathFor goos (executablePathFor goos path) = executablePathFor goos path
   \<and> executablePathFor ''linux'' path = path \<and> executablePathFor ''darwin'' path = path"
  by (auto simp: executablePathFor_def filepath_Ext_append_exe)

end
