(* ===== verification/Manifest_Model.thy ===== *)
theory Manifest_Model
  imports Go_Path
begin

text \<open>
  Manifests (spored/internal/manifest), their status (spored/internal/utilities/status) and the file
  helpers they use (spored/internal/utilities/file). The YAML decoder and the SHA-256 function are
  arguments; the file system is a record of what the calls of package os return.
\<close>

section \<open>Status\<close>

datatype Estatus =
  Unverified | RequiresUserSpace | RequiresDeveloper | Verified | FailedChecksum | StMalformed | StMissing

fun status_String :: "Estatus \<Rightarrow> string" where
  "status_String Unverified = ''Unverified''"
| "status_String RequiresUserSpace = ''RequiresUserSpace''"
| "status_String RequiresDeveloper = ''RequiresDeveloperCheck''"
| "status_String Verified = ''Verified''"
| "status_String FailedChecksum = ''FailedChecksum''"
| "status_String StMalformed = ''Malformed''"
| "status_String StMissing = ''Missing''"

section \<open>Files\<close>

record filesys =
  fs_exists :: "string \<Rightarrow> bool" \<comment> \<open>\<open>os.Stat\<close> does not say that the file does not exist\<close>
  fs_opens :: "string \<Rightarrow> bool" \<comment> \<open>\<open>os.Open\<close> succeeds\<close>
  fs_content :: "string \<Rightarrow> string option" \<comment> \<open>reading the open file to the end\<close>
  fs_sha256 :: "string \<Rightarrow> string" \<comment> \<open>hexadecimal digest of a content\<close>
  fs_goos :: string

definition IsReadable :: "filesys \<Rightarrow> string \<Rightarrow> bool" where
  "IsReadable fs path = fs_opens fs path"

definition file_Read :: "filesys \<Rightarrow> string \<Rightarrow> string option" where
  "file_Read fs path = (if fs_opens fs path then fs_content fs path else None)"

definition CalculateChecksum :: "filesys \<Rightarrow> string \<Rightarrow> string option" where
  "CalculateChecksum fs path =
     (if fs_opens fs path
      then map_option (\<lambda>c. ''sha256:'' @ fs_sha256 fs c) (fs_content fs path) else None)"

section \<open>The manifest\<close>

abbreviation T_System :: string where "T_System \<equiv> ''system''"
abbreviation T_Developer :: string where "T_Developer \<equiv> ''developer''"
abbreviation R_Benign :: string where "R_Benign \<equiv> ''benign''"
abbreviation R_Admin :: string where "R_Admin \<equiv> ''admin''"
abbreviation R_Protected :: string where "R_Protected \<equiv> ''protected''"
abbreviation L_Auto :: string where "L_Auto \<equiv> ''auto''"
abbreviation L_Lazy :: string where "L_Lazy \<equiv> ''lazy''"
abbreviation N_Spore :: string where "N_Spore \<equiv> ''spore''"
abbreviation N_Hyphae :: string where "N_Hyphae \<equiv> ''hyphae''"

record Input =
  in_Name :: string
  in_Type :: string
  in_Description :: string
  in_Required :: bool

record Output =
  ou_Name :: string
  ou_Type :: string
  ou_Description :: string

record Command =
  cm_Name :: string
  cm_Description :: string
  cm_Risk :: string
  cm_Usage :: "string list"
  cm_Inputs :: "Input list option"
  cm_Outputs :: "Output list option"
  cm_Notes :: "string list option"

record Topic =
  tp_Name :: string
  tp_Description :: string
  tp_Risk :: string
  tp_Usage :: "string list"
  tp_Outputs :: "Output list option"
  tp_Notes :: "string list option"

record Permission =
  pr_Name :: string
  pr_Reasons :: "string list"

record ManifestError =
  me_Name :: string
  me_Description :: string
  me_Examples :: "string list"

record Manifest =
  m_ID :: string
  m_Name :: string
  m_Description :: string
  m_Trust :: string
  m_Schema :: string
  m_Version :: string
  m_App :: string
  m_Launch :: string
  m_Namespace :: string
  m_Witness :: bool
  m_Roles :: "string list"
  m_Api :: "Command list"
  m_Topics :: "Topic list"
  m_Permissions :: "Permission list"
  m_Errors :: "ManifestError list"
  m_Status :: Estatus
  m_Path :: string
  m_ExpectedChecksum :: string

definition empty_manifest :: Manifest where
  "empty_manifest = \<lparr>m_ID = [], m_Name = [], m_Description = [], m_Trust = [], m_Schema = [],
     m_Version = [], m_App = [], m_Launch = [], m_Namespace = [], m_Witness = False, m_Roles = [],
     m_Api = [], m_Topics = [], m_Permissions = [], m_Errors = [], m_Status = Unverified,
     m_Path = [], m_ExpectedChecksum = []\<rparr>"

text \<open>
  \<open>yaml.Unmarshal\<close> of a text into a manifest: the manifest with the fields the text sets, and
  whether it reported an error (it may have set fields before).
\<close>

type_synonym yaml_decoder = "string \<Rightarrow> Manifest \<Rightarrow> Manifest \<times> bool"

definition manifest_New :: "filesys \<Rightarrow> string \<Rightarrow> string \<Rightarrow> Manifest" where
  "manifest_New fs path checksum =
     (let m = empty_manifest\<lparr>m_Path := path, m_ExpectedChecksum := checksum\<rparr>
      in if \<not> fs_exists fs path then m\<lparr>m_Status := StMissing\<rparr> else m)"

definition applyDefaults :: "Manifest \<Rightarrow> Manifest" where
  "applyDefaults m =
     (let m1 = (if m_Namespace m = [] then m\<lparr>m_Namespace := N_Hyphae\<rparr> else m)
      in if m_Launch m1 = [] then m1\<lparr>m_Launch := L_Auto\<rparr> else m1)"

definition ManifestFromPath :: "filesys \<Rightarrow> yaml_decoder \<Rightarrow> string \<Rightarrow> Manifest option" where
  "ManifestFromPath fs yaml path =
     (case file_Read fs path of
        None \<Rightarrow> None
      | Some contents \<Rightarrow>
          (case yaml contents (empty_manifest\<lparr>m_Path := path\<rparr>) of
             (m, True) \<Rightarrow> None
           | (m, False) \<Rightarrow>
               (let m1 = applyDefaults m
                in if m_Trust m1 = T_Developer
                   then Some (m1\<lparr>m_ExpectedChecksum := ''developer''\<rparr>)
                   else map_option (\<lambda>c. m1\<lparr>m_ExpectedChecksum := c\<rparr>) (CalculateChecksum fs path))))"

definition with_sha_prefix :: "string \<Rightarrow> string" where
  "with_sha_prefix expected =
     (if HasPrefix expected ''sha256:'' then expected else ''sha256:'' @ expected)"

definition manifest_Verify :: "filesys \<Rightarrow> Manifest \<Rightarrow> Manifest" where
  "manifest_Verify fs m =
     (if m_Status m = StMissing then m
      else if m_Trust m = T_Developer then m\<lparr>m_Status := RequiresDeveloper\<rparr>
      else if \<not> IsReadable fs (m_Path m) then m\<lparr>m_Status := RequiresUserSpace\<rparr>
      else case CalculateChecksum fs (m_Path m) of
             None \<Rightarrow> m\<lparr>m_Status := FailedChecksum\<rparr>
           | Some checksum \<Rightarrow>
               if checksum \<noteq> with_sha_prefix (m_ExpectedChecksum m)
               then m\<lparr>m_Status := FailedChecksum\<rparr> else m\<lparr>m_Status := Verified\<rparr>)"

definition manifest_LoadContent :: "yaml_decoder \<Rightarrow> string \<Rightarrow> Manifest \<Rightarrow> Manifest" where
  "manifest_LoadContent yaml content m =
     (case yaml content m of
        (m1, err) \<Rightarrow> applyDefaults (if err then m1\<lparr>m_Status := StMalformed\<rparr> else m1))"

definition manifest_Load :: "filesys \<Rightarrow> yaml_decoder \<Rightarrow> Manifest \<Rightarrow> Manifest" where
  "manifest_Load fs yaml m =
     (case file_Read fs (m_Path m) of
        None \<Rightarrow> m
      | Some contents \<Rightarrow>
          (case yaml contents m of
             (m1, err) \<Rightarrow> applyDefaults (if err then m1\<lparr>m_Status := StMalformed\<rparr> else m1)))"

definition GetBinaryPath :: "string \<Rightarrow> Manifest \<Rightarrow> string" where
  "GetBinaryPath goos m =
     executablePathFor goos (Clean (filepath_Join [filepath_Dir (m_Path m), m_App m]))"

definition CommandIds :: "Manifest \<Rightarrow> string list" where
  "CommandIds m = map cm_Name (m_Api m)"

definition TopicIds :: "Manifest \<Rightarrow> string list" where
  "TopicIds m = map tp_Name (m_Topics m)"

definition ErrorIds :: "Manifest \<Rightarrow> string list" where
  "ErrorIds m = map me_Name (m_Errors m)"

section \<open>Reserved language\<close>

definition reservedArgNames :: "string list" where
  "reservedArgNames =
     [''cast'', ''capture'', ''ok'', ''error'', ''code'', ''what'', ''module'',
      ''spore_incoming'', ''spore_outgoing'', ''spore_event'', ''spore_node'', ''spore_time'', ''json'']"

definition reserved_arg :: "string \<Rightarrow> bool" where
  "reserved_arg name \<longleftrightarrow> HasPrefix name ''spore_'' \<or> name \<in> set reservedArgNames"

fun check_names :: "string \<Rightarrow> string list \<Rightarrow> string" where
  "check_names what [] = []"
| "check_names what (n # ns) = (if reserved_arg n then what @ n else check_names what ns)"

definition checkArgs :: "Input list option \<Rightarrow> string" where
  "checkArgs inputs =
     (case inputs of None \<Rightarrow> []
      | Some ins \<Rightarrow> check_names ''reserved argument name in input: '' (map in_Name ins))"

definition checkOutputs :: "Output list option \<Rightarrow> string" where
  "checkOutputs outputs =
     (case outputs of None \<Rightarrow> []
      | Some outs \<Rightarrow> check_names ''reserved argument name in output: '' (map ou_Name outs))"

definition reserved_subject :: "string \<Rightarrow> bool" where
  "reserved_subject name \<longleftrightarrow>
     name = ''witness'' \<or> HasPrefix name ''witness '' \<or> name = ''publish'' \<or> HasPrefix name ''publish ''"

text \<open>The first message of a list of checks that is not empty.\<close>

fun first_problem :: "string list \<Rightarrow> string" where
  "first_problem [] = []"
| "first_problem (p # ps) = (if p \<noteq> [] then p else first_problem ps)"

definition check_command :: "Command \<Rightarrow> string" where
  "check_command cmd =
     (if Contains (cm_Name cmd) '':'' then ''subject name contains reserved colon: '' @ cm_Name cmd
      else if reserved_subject (cm_Name cmd) then ''subject name is reserved: '' @ cm_Name cmd
      else if checkArgs (cm_Inputs cmd) \<noteq> [] then checkArgs (cm_Inputs cmd)
      else checkOutputs (cm_Outputs cmd))"

definition check_topic :: "Topic \<Rightarrow> string" where
  "check_topic topic =
     (if Contains (tp_Name topic) '':'' then ''topic name contains reserved colon: '' @ tp_Name topic
      else if reserved_subject (tp_Name topic) then ''topic name is reserved: '' @ tp_Name topic
      else checkOutputs (tp_Outputs topic))"

definition check_error :: "ManifestError \<Rightarrow> string" where
  "check_error e =
     (if Contains (me_Name e) '':'' then ''error name contains reserved colon: '' @ me_Name e else [])"

definition ValidateReservedLanguage :: "Manifest \<Rightarrow> string" where
  "ValidateReservedLanguage m =
     (if HasPrefix (m_ID m) ''SPORE.'' then ''node id uses reserved SPORE. namespace: '' @ m_ID m
      else if Contains (m_ID m) '':'' then ''node id contains reserved colon: '' @ m_ID m
      else first_problem (map check_command (m_Api m) @ map check_topic (m_Topics m) @
                          map check_error (m_Errors m)))"

section \<open>What the checks guarantee\<close>

lemma first_problem_append: "first_problem (ps @ qs) = [] \<longleftrightarrow> first_problem ps = [] \<and> first_problem qs = []"
  by (induction ps) auto

lemma first_problem_map: "first_problem (map f xs) = [] \<longleftrightarrow> (\<forall>x \<in> set xs. f x = [])"
  by (induction xs) auto

lemma check_names_empty: "what \<noteq> [] \<Longrightarrow> check_names what ns = [] \<longleftrightarrow> (\<forall>n \<in> set ns. \<not> reserved_arg n)"
  by (induction ns) auto

lemma Contains_byte [simp]: "Contains s [c] \<longleftrightarrow> c \<in> set s"
  by (metis Contains_def in_set_conv_decomp append_Cons append_Nil sublist_def)

definition clean_command :: "Command \<Rightarrow> bool" where
  "clean_command cmd \<longleftrightarrow> CHR '':'' \<notin> set (cm_Name cmd) \<and> \<not> reserved_subject (cm_Name cmd) \<and>
     (\<forall>ins. cm_Inputs cmd = Some ins \<longrightarrow> (\<forall>i \<in> set ins. \<not> reserved_arg (in_Name i))) \<and>
     (\<forall>outs. cm_Outputs cmd = Some outs \<longrightarrow> (\<forall>x \<in> set outs. \<not> reserved_arg (ou_Name x)))"

definition clean_topic :: "Topic \<Rightarrow> bool" where
  "clean_topic topic \<longleftrightarrow> CHR '':'' \<notin> set (tp_Name topic) \<and> \<not> reserved_subject (tp_Name topic) \<and>
     (\<forall>outs. tp_Outputs topic = Some outs \<longrightarrow> (\<forall>x \<in> set outs. \<not> reserved_arg (ou_Name x)))"

lemma checkArgs_empty:
  "checkArgs ins = [] \<longleftrightarrow> (\<forall>xs. ins = Some xs \<longrightarrow> (\<forall>i \<in> set xs. \<not> reserved_arg (in_Name i)))"
  by (cases ins) (auto simp: checkArgs_def check_names_empty)

lemma checkOutputs_empty:
  "checkOutputs outs = [] \<longleftrightarrow> (\<forall>xs. outs = Some xs \<longrightarrow> (\<forall>x \<in> set xs. \<not> reserved_arg (ou_Name x)))"
  by (cases outs) (auto simp: checkOutputs_def check_names_empty)

lemma check_command_empty: "check_command cmd = [] \<longleftrightarrow> clean_command cmd"
  unfolding check_command_def clean_command_def
  by (cases "checkArgs (cm_Inputs cmd) = []") (auto simp: checkArgs_empty checkOutputs_empty)

lemma check_topic_empty: "check_topic topic = [] \<longleftrightarrow> clean_topic topic"
  by (simp add: check_topic_def clean_topic_def checkOutputs_empty)

lemma check_error_empty: "check_error e = [] \<longleftrightarrow> CHR '':'' \<notin> set (me_Name e)"
  by (simp add: check_error_def)

text \<open>
  A manifest passes the reserved-language check exactly when its id is outside the SPORE
  namespace, no id or subject, topic or error name holds a colon, no subject or topic is a wire
  keyword, and no input or output uses a protocol argument name.
\<close>
lemma ValidateReservedLanguage_ok_iff:
  "ValidateReservedLanguage m = [] \<longleftrightarrow>
     \<not> HasPrefix (m_ID m) ''SPORE.'' \<and> CHR '':'' \<notin> set (m_ID m) \<and>
     (\<forall>cmd \<in> set (m_Api m). clean_command cmd) \<and> (\<forall>topic \<in> set (m_Topics m). clean_topic topic) \<and>
     (\<forall>e \<in> set (m_Errors m). CHR '':'' \<notin> set (me_Name e))"
  by (auto simp: ValidateReservedLanguage_def first_problem_append first_problem_map check_command_empty
      check_topic_empty check_error_empty)

lemma ValidateReservedLanguage_ok_iff_witness:
  "ValidateReservedLanguage (empty_manifest\<lparr>m_ID := ''dev.a''\<rparr>) = [] \<and>
   \<not> HasPrefix (m_ID (empty_manifest\<lparr>m_ID := ''dev.a''\<rparr>)) ''SPORE.''"
proof -
  have "ValidateReservedLanguage (empty_manifest\<lparr>m_ID := ''dev.a''\<rparr>) = []"
    by (simp add: ValidateReservedLanguage_def empty_manifest_def HasPrefix_def)
  with ValidateReservedLanguage_ok_iff[of "empty_manifest\<lparr>m_ID := ''dev.a''\<rparr>"] show ?thesis
    by blast
qed

text \<open>
  \<open>Verify\<close> never marks a manifest verified without a checksum: a manifest is verified by it
  exactly when the file was not found missing, does not claim developer trust, opens, and has the
  registered digest, with or without its \<open>sha256:\<close> prefix; and a missing file stays missing.
\<close>
lemma Verify_verified_iff:
  "m_Status (manifest_Verify fs m) = Verified \<longleftrightarrow>
     m_Status m \<noteq> StMissing \<and> m_Trust m \<noteq> T_Developer \<and> fs_opens fs (m_Path m) \<and>
     (\<exists>c. fs_content fs (m_Path m) = Some c \<and>
        ''sha256:'' @ fs_sha256 fs c = with_sha_prefix (m_ExpectedChecksum m))"
  by (auto simp: manifest_Verify_def CalculateChecksum_def IsReadable_def split: option.splits)

lemma Verify_verified_iff_witness:
  "m_Status (manifest_Verify
      \<lparr>fs_exists = (\<lambda>_. True), fs_opens = (\<lambda>_. True), fs_content = (\<lambda>_. Some ''x''),
       fs_sha256 = (\<lambda>_. ''ab''), fs_goos = ''linux''\<rparr>
      (empty_manifest\<lparr>m_ExpectedChecksum := ''ab''\<rparr>)) = Verified"
  by (subst Verify_verified_iff)
    (simp add: empty_manifest_def with_sha_prefix_def HasPrefix_def)

end
