(* ===== verification/Bus_Types.thy ===== *)
theory Bus_Types
  imports Msg Manifest_Model
begin

text \<open>
  What the bus knows of its neighbours (spored/internal/bus/types.go): the nodes it routes to
  (\<open>INode\<close>) and the permission manager it asks (\<open>ipermissions\<close>). An interface value is the
  record of what its getters return, with its identity; \<open>Receive\<close> is an argument of the operations
  that call it. The gate's state is a type variable: the bus never looks inside.
\<close>

record inode =
  n_ptr :: nat \<comment> \<open>identity of the Go value\<close>
  n_id :: string
  n_manifest :: "Manifest option"
  n_isWitness :: bool
  n_connected :: bool

type_synonym receive = "inode \<Rightarrow> message \<Rightarrow> error option"

type_synonym 'p can = "message \<Rightarrow> string \<Rightarrow> 'p \<Rightarrow> (bool \<times> error option) \<times> 'p"

definition node_commands :: "inode \<Rightarrow> string list" where
  "node_commands n =
     (case n_manifest n of
        None \<Rightarrow> []
      | Some man \<Rightarrow> map (\<lambda>command. n_id n @ ''.'' @ cm_Name command) (m_Api man))"

definition node_topics :: "inode \<Rightarrow> string list" where
  "node_topics n =
     (case n_manifest n of
        None \<Rightarrow> []
      | Some man \<Rightarrow> map (\<lambda>topic. n_id n @ ''.'' @ tp_Name topic) (m_Topics man))"

section \<open>The interface of the permission gate\<close>

text \<open>
  \<open>authorised\<close> says when the gate may let a call through. Refusing a call, or failing to decide,
  must leave the gate as it was, so that a refused request cannot use anything up.
\<close>

locale permission_gate =
  fixes can :: "message \<Rightarrow> string \<Rightarrow> 'p \<Rightarrow> (bool \<times> error option) \<times> 'p"
    and authorised :: "'p \<Rightarrow> message \<Rightarrow> string \<Rightarrow> bool"
  assumes allowed_authorised: "can msg c p = ((True, e), p') \<Longrightarrow> authorised p msg c"
    and denied_unchanged: "can msg c p = ((False, e), p') \<Longrightarrow> p' = p"
    and error_unchanged: "can msg c p = ((ok, Some err), p') \<Longrightarrow> p' = p"
begin

lemma unauthorised_denied:
  "\<not> authorised p msg c \<Longrightarrow> \<exists>e. can msg c p = ((False, e), p)"
  using allowed_authorised denied_unchanged by (metis (full_types) surj_pair)

end

end
