(* ===== verification/Bus_Api.thy ===== *)
theory Bus_Api
  imports Bus_Types Abbrev
begin

text \<open>
  The command side of the bus (spored/internal/bus/api.go): which node answers which fully qualified
  command, the abbreviations of the commands, and the routing of a request through the permission
  gate to its node. \<open>None\<close> for the gate is the nil interface before \<open>setPermissions\<close>.
\<close>

record api =
  a_nodes :: "inode gomap"
  a_commands :: "string gomap"
  a_abbrevs :: abbreviationIndex

definition newApi :: api where
  "newApi = \<lparr>a_nodes = (\<lambda>_. None), a_commands = (\<lambda>_. None), a_abbrevs = newAbbreviationIndex\<rparr>"

definition api_add_command :: "string \<Rightarrow> string \<Rightarrow> api \<Rightarrow> api" where
  "api_add_command nodeid fqname a =
     a\<lparr>a_commands := (a_commands a)(fqname \<mapsto> nodeid), a_abbrevs := idx_add fqname (a_abbrevs a)\<rparr>"

definition api_remove_command :: "string \<Rightarrow> api \<Rightarrow> api" where
  "api_remove_command fqname a =
     a\<lparr>a_commands := (a_commands a)(fqname := None), a_abbrevs := idx_remove fqname (a_abbrevs a)\<rparr>"

definition api_register :: "inode \<Rightarrow> api \<Rightarrow> api" where
  "api_register n a =
     fold (api_add_command (n_id n)) (node_commands n) (a\<lparr>a_nodes := (a_nodes a)(n_id n \<mapsto> n)\<rparr>)"

definition api_unregister :: "inode \<Rightarrow> api \<Rightarrow> api" where
  "api_unregister n a =
     fold api_remove_command (node_commands n) (a\<lparr>a_nodes := (a_nodes a)(n_id n := None)\<rparr>)"

definition fullyQualifiedRequest :: "string \<Rightarrow> api \<Rightarrow> string" where
  "fullyQualifiedRequest command a =
     (case idx_resolve (a_abbrevs a) command of
        (fqname, _, True) \<Rightarrow> fqname
      | (_, _, False) \<Rightarrow> command)"

text \<open>Where a command leads: its fully qualified name and its node, or the error of the lookup.\<close>

definition api_lookup :: "message \<Rightarrow> api \<Rightarrow> error + string \<times> inode" where
  "api_lookup msg a =
     (let key = Capability msg in
      case idx_resolve (a_abbrevs a) key of
        (fqname, candidates, ok) \<Rightarrow>
          if \<not> ok then
            (if length candidates > 0
             then Inl (WithMessage (error_New C_Collision Mod_Bus
                         ''ambiguous command, use a more qualified name''
                         [Pair ''command'' key, Pair ''candidates'' (Join candidates '', '')]) msg)
             else Inl (WithMessage (error_New C_Missing Mod_Bus ''command not found''
                         [Pair ''command'' key]) msg))
          else case a_commands a fqname of
                 None \<Rightarrow> Inl (WithMessage (error_New C_Missing Mod_Bus ''command not found''
                           [Pair ''command'' key]) msg)
               | Some nodeid \<Rightarrow>
                   (case a_nodes a nodeid of
                      None \<Rightarrow> Inl (WithMessage (error_New C_Missing Mod_Bus ''node not found''
                                [Pair ''command'' key]) msg)
                    | Some node \<Rightarrow> Inr (fqname, node)))"

text \<open>The error, the node whose \<open>Receive\<close> was called, and the gate afterwards.\<close>

definition api_request ::
  "'p can option \<Rightarrow> receive \<Rightarrow> message \<Rightarrow> api \<Rightarrow> 'p \<Rightarrow> error option \<times> inode option \<times> 'p" where
  "api_request permissions Receive msg a p =
     (case api_lookup msg a of
        Inl e \<Rightarrow> (Some e, None, p)
      | Inr (fqname, node) \<Rightarrow>
          (case permissions of
             None \<Rightarrow> (Some (WithMessage (error_New C_Generic Mod_Bus
                        ''permission manager unavailable'' []) msg), None, p)
           | Some can \<Rightarrow>
               (case can msg fqname p of
                  ((allowed, Some err), p1) \<Rightarrow> (Some (WithMessage err msg), None, p1)
                | ((False, None), p1) \<Rightarrow>
                    (Some (WithMessage (error_New C_NotPermitted Mod_Bus ''permission required''
                       [Pair ''node'' (Origin msg), Pair ''capability'' fqname]) msg), None, p1)
                | ((True, None), p1) \<Rightarrow> (Receive node msg, Some node, p1))))"

section \<open>The two tables stay in step\<close>

text \<open>
  The index holds exactly the names of the command table. The relation is stated with the index's
  own interface, and every operation of the component keeps it.
\<close>

definition api_inv :: "api \<Rightarrow> bool" where
  "api_inv a \<longleftrightarrow> idx_holds (a_abbrevs a) (dom (a_commands a))"

lemma api_inv_new: "api_inv newApi"
  using abbr.holds_emp by (simp add: api_inv_def newApi_def)

lemma api_inv_add: "api_inv a \<Longrightarrow> api_inv (api_add_command nodeid f a)"
  using abbr.holds_add[of "a_abbrevs a" "dom (a_commands a)" f]
  by (simp add: api_inv_def api_add_command_def)

lemma api_inv_remove: "api_inv a \<Longrightarrow> api_inv (api_remove_command f a)"
  using abbr.holds_remove[of "a_abbrevs a" "dom (a_commands a)" f]
  by (simp add: api_inv_def api_remove_command_def)

lemma fold_api_inv: "(\<And>x a. api_inv a \<Longrightarrow> api_inv (f x a)) \<Longrightarrow> api_inv a \<Longrightarrow> api_inv (fold f xs a)"
  by (induction xs arbitrary: a) auto

lemma api_inv_register: "api_inv a \<Longrightarrow> api_inv (api_register n a)"
  unfolding api_register_def
  by (rule fold_api_inv, erule api_inv_add) (simp add: api_inv_def)

lemma api_inv_unregister: "api_inv a \<Longrightarrow> api_inv (api_unregister n a)"
  unfolding api_unregister_def
  by (rule fold_api_inv, erule api_inv_remove) (simp add: api_inv_def)

lemma fold_add_command:
  "a_nodes (fold (api_add_command i) fs a) = a_nodes a \<and>
   a_commands (fold (api_add_command i) fs a) f = (if f \<in> set fs then Some i else a_commands a f)"
  by (induction fs arbitrary: a) (auto simp: api_add_command_def)

lemma fold_remove_command:
  "a_nodes (fold api_remove_command fs a) = a_nodes a \<and>
   a_commands (fold api_remove_command fs a) f = (if f \<in> set fs then None else a_commands a f)"
  by (induction fs arbitrary: a) (auto simp: api_remove_command_def)

lemma api_register_tables:
  "a_nodes (api_register n a) = (a_nodes a)(n_id n \<mapsto> n)"
  "a_commands (api_register n a) f =
     (if f \<in> set (node_commands n) then Some (n_id n) else a_commands a f)"
  by (simp_all add: api_register_def fold_add_command)

lemma api_unregister_tables:
  "a_nodes (api_unregister n a) = (a_nodes a)(n_id n := None)"
  "a_commands (api_unregister n a) f = (if f \<in> set (node_commands n) then None else a_commands a f)"
  by (simp_all add: api_unregister_def fold_remove_command)

text \<open>Histories of registrations.\<close>

datatype api_op = ApiRegister inode | ApiUnregister inode

fun api_apply :: "api_op \<Rightarrow> api \<Rightarrow> api" where
  "api_apply (ApiRegister n) a = api_register n a"
| "api_apply (ApiUnregister n) a = api_unregister n a"

definition api_run :: "api_op list \<Rightarrow> api" where
  "api_run ops = fold api_apply ops newApi"

lemma api_run_inv: "api_inv (api_run ops)"
proof -
  have "api_inv (fold api_apply ops a)" if "api_inv a" for a
    using that
  proof (induction ops arbitrary: a)
    case (Cons op ops)
    have "api_inv (api_apply op a)"
      by (cases op) (auto simp: Cons.prems api_inv_register api_inv_unregister)
    with Cons.IH show ?case by simp
  qed simp
  then show ?thesis by (simp add: api_run_def api_inv_new)
qed

lemma api_lookup_Inr:
  assumes "api_lookup msg a = Inr (f, node)" "api_inv a"
  shows "\<exists>i. a_commands a f = Some i \<and> a_nodes a i = Some node \<and>
           {g \<in> dom (a_commands a). dot_suffix (Capability msg) g} = {f}"
proof -
  obtain g cs ok where r: "idx_resolve (a_abbrevs a) (Capability msg) = (g, cs, ok)"
    by (metis surj_pair)
  with assms(1) have "ok" "g = f"
    by (auto simp: api_lookup_def Let_def split: if_splits option.splits)
  with r abbr.resolve_found[OF assms(2)[unfolded api_inv_def], of "Capability msg" f cs]
  have "{g \<in> dom (a_commands a). dot_suffix (Capability msg) g} = {f}" by simp
  moreover obtain i where "a_commands a f = Some i" "a_nodes a i = Some node"
    using assms(1) r \<open>ok\<close> \<open>g = f\<close> by (auto simp: api_lookup_def Let_def split: option.splits)
  ultimately show ?thesis by blast
qed

section \<open>What the gate guarantees about routing\<close>

context permission_gate
begin

lemma delivered_is_authorised:
  assumes "api_request (Some can) Receive msg a p = (e, Some node, p')" "api_inv a"
  shows "\<exists>f i. {g \<in> dom (a_commands a). dot_suffix (Capability msg) g} = {f} \<and>
           a_commands a f = Some i \<and> a_nodes a i = Some node \<and>
           authorised p msg f \<and> e = Receive node msg"
proof -
  obtain f n where l: "api_lookup msg a = Inr (f, n)"
    using assms(1) by (cases "api_lookup msg a") (auto simp: api_request_def)
  obtain ok err p1 where c: "can msg f p = ((ok, err), p1)" by (metis surj_pair)
  have "n = node" "e = Receive node msg" "ok"
    using assms(1) l c by (cases err; cases ok; simp add: api_request_def)+
  with api_lookup_Inr[OF l assms(2)] allowed_authorised[of msg f p err p1] c show ?thesis by auto
qed

lemma undelivered_keeps_gate:
  assumes "api_request (Some can) Receive msg a p = (e, None, p')"
  shows "p' = p \<and> e \<noteq> None"
proof (cases "api_lookup msg a")
  case (Inl x)
  with assms show ?thesis by (auto simp: api_request_def)
next
  case (Inr fn)
  obtain f n where fn: "fn = (f, n)" by (cases fn)
  obtain ok err p1 where c: "can msg f p = ((ok, err), p1)" by (metis surj_pair)
  with assms Inr fn show ?thesis
    by (cases err; cases ok) (auto simp: api_request_def dest: denied_unchanged error_unchanged)
qed

end

end
