(* ===== verification/Permissions.thy ===== *)
theory Permissions
  imports Await Wire_Parser Manifest_Model Bus_Api
begin

text \<open>
  The permission manager (spored/internal/permissions/manager.go). Its state is one record; the disk,
  the bus, the shell's answer, the hyphae confirmation and the random source are arguments. Times
  are nanoseconds. The handle counter is 64 bits wide in the code and a natural number here.
\<close>

definition protectedCaller :: string where "protectedCaller = ''hyphae-in-spore''"
definition hyphaeBinaryHashCapability :: string where
  "hyphaeBinaryHashCapability = ''dev.sporeos.HYPHAE.binary.hash''"
definition hyphaeConfirmationCapability :: string where
  "hyphaeConfirmationCapability = ''dev.sporeos.HYPHAE.confirm''"
definition permissionCaller :: string where "permissionCaller = ''permission-in-spore''"
definition permissionConfirmationCapability :: string where
  "permissionConfirmationCapability = ''dev.sporeos.shell.confirm''"
definition permissionTokenLifetime :: int where "permissionTokenLifetime = 30 * 1000000000"
definition nodeInstallCapability :: string where
  "nodeInstallCapability = ''dev.sporeos.SPORE.node.install''"
definition nodeReinstallCapability :: string where
  "nodeReinstallCapability = ''dev.sporeos.SPORE.node.reinstall''"

lemmas capability_consts =
  protectedCaller_def hyphaeBinaryHashCapability_def hyphaeConfirmationCapability_def
  permissionCaller_def permissionConfirmationCapability_def nodeInstallCapability_def
  nodeReinstallCapability_def

record permit =
  pt_origin :: string
  pt_capability :: string
  pt_expiresAt :: int

record Manager =
  pm_index :: nat
  pm_allowances :: "string list gomap"
  pm_permits :: "permit gomap"
  pm_sysNodes :: "string list"
  pm_benignCommands :: "string list"
  pm_benignTopics :: "string list"
  pm_adminCommands :: "string list"
  pm_protectedCommands :: "string list"

text \<open>\<open>m.allowances[nodeid]\<close>: the nil slice for a node without an entry.\<close>

definition allowances_of :: "Manager \<Rightarrow> string \<Rightarrow> string list" where
  "allowances_of m nodeid = (case pm_allowances m nodeid of Some cs \<Rightarrow> cs | None \<Rightarrow> [])"

section \<open>The disk\<close>

record perm_disk =
  pd_marshal_err :: "string option"
  pd_mkdir_err :: "string option"
  pd_write_err :: "string option"
  pd_file :: "string list gomap option" \<comment> \<open>the allowances last written\<close>

definition perm_save :: "Manager \<Rightarrow> perm_disk \<Rightarrow> error option \<times> perm_disk" where
  "perm_save m d =
     (case pd_marshal_err d of
        Some e \<Rightarrow> (Some (error_New C_Malformed Mod_Permission ''unable to serialize permissions''
                        [Pair ''err'' e]), d)
      | None \<Rightarrow>
          (case pd_mkdir_err d of
             Some e \<Rightarrow> (Some (error_New C_Generic Mod_Permission
                             ''unable to create permissions directory'' [Pair ''err'' e]), d)
           | None \<Rightarrow>
               (case pd_write_err d of
                  Some e \<Rightarrow> (Some (error_New C_Generic Mod_Permission
                                  ''unable to write permissions'' [Pair ''err'' e]), d)
                | None \<Rightarrow> (None, d\<lparr>pd_file := Some (pm_allowances m)\<rparr>))))"

text \<open>What reading and decoding the permissions file gives.\<close>

datatype perm_read =
    FileNotExist
  | FileUnreadable string
  | FileUndecodable string
  | FileAllowances "string list gomap"

definition perm_load :: "perm_read \<Rightarrow> Manager \<Rightarrow> error option \<times> Manager" where
  "perm_load r m =
     (case r of
        FileNotExist \<Rightarrow> (None, m)
      | FileUnreadable e \<Rightarrow>
          (Some (error_New C_Missing Mod_Permission ''unable to read permissions'' [Pair ''err'' e]), m)
      | FileUndecodable e \<Rightarrow>
          (Some (error_New C_Malformed Mod_Permission ''unable to parse permissions'' [Pair ''err'' e]), m)
      | FileAllowances a \<Rightarrow> (None, m\<lparr>pm_allowances := a\<rparr>))"

definition perm_New :: "perm_read \<Rightarrow> Manager" where
  "perm_New r =
     snd (perm_load r \<lparr>pm_index = 0, pm_allowances = (\<lambda>_. None), pm_permits = (\<lambda>_. None),
       pm_sysNodes = [], pm_benignCommands = [], pm_benignTopics = [], pm_adminCommands = [],
       pm_protectedCommands = []\<rparr>)"

section \<open>Allowances\<close>

definition perm_List :: "Manager \<Rightarrow> string \<Rightarrow> error + string list" where
  "perm_List m nodeid =
     (case pm_allowances m nodeid of
        Some cs \<Rightarrow> Inr cs
      | None \<Rightarrow> Inl (error_New C_Missing Mod_Permission ''node not found'' [Pair ''node'' nodeid]))"

definition register_command :: "string \<Rightarrow> Command \<Rightarrow> Manager \<Rightarrow> Manager" where
  "register_command i command m =
     (let capability = i @ ''.'' @ cm_Name command;
          m1 = (if cm_Risk command = R_Benign
                then m\<lparr>pm_benignCommands := pm_benignCommands m @ [capability]\<rparr> else m);
          m2 = (if cm_Risk command = R_Admin
                then m1\<lparr>pm_adminCommands := pm_adminCommands m1 @ [capability]\<rparr> else m1)
      in if cm_Risk command = R_Protected
         then m2\<lparr>pm_protectedCommands := pm_protectedCommands m2 @ [capability]\<rparr> else m2)"

definition register_topic :: "Topic \<Rightarrow> Manager \<Rightarrow> Manager" where
  "register_topic topic m =
     (if tp_Risk topic = R_Benign
      then m\<lparr>pm_benignTopics := pm_benignTopics m @ [tp_Name topic]\<rparr> else m)"

definition RegisterNode :: "Manifest option \<Rightarrow> Manager \<Rightarrow> Manager" where
  "RegisterNode man m =
     (case man of
        None \<Rightarrow> m
      | Some man \<Rightarrow>
          (let m1 = (if m_Trust man = T_System
                     then m\<lparr>pm_sysNodes := pm_sysNodes m @ [m_ID man]\<rparr> else m)
           in fold register_topic (m_Topics man)
                (fold (register_command (m_ID man)) (m_Api man) m1)))"

definition Grant :: "string \<Rightarrow> string \<Rightarrow> Manager \<Rightarrow> perm_disk \<Rightarrow> error option \<times> Manager \<times> perm_disk" where
  "Grant nodeid command m d =
     (if command \<in> set (allowances_of m nodeid) then (None, m, d)
      else let m1 = m\<lparr>pm_allowances :=
                       (pm_allowances m)(nodeid \<mapsto> allowances_of m nodeid @ [command])\<rparr>;
               (e, d1) = perm_save m1 d
           in (e, m1, d1))"

text \<open>The loop removes the first occurrence; without one the map is left as it is.\<close>

definition Revoke :: "string \<Rightarrow> string \<Rightarrow> Manager \<Rightarrow> perm_disk \<Rightarrow> error option \<times> Manager \<times> perm_disk" where
  "Revoke nodeid command m d =
     (let m1 = (if command \<in> set (allowances_of m nodeid)
                then m\<lparr>pm_allowances :=
                        (pm_allowances m)(nodeid \<mapsto> remove1 command (allowances_of m nodeid))\<rparr>
                else m);
          (e, d1) = perm_save m1 d
      in (e, m1, d1))"

definition RemoveNode :: "string \<Rightarrow> Manager \<Rightarrow> perm_disk \<Rightarrow> error option \<times> Manager \<times> perm_disk" where
  "RemoveNode nodeid m d =
     (let m1 = m\<lparr>pm_allowances := (pm_allowances m)(nodeid := None)\<rparr>;
          (e, d1) = perm_save m1 d
      in (e, m1, d1))"

section \<open>Asking the user\<close>

text \<open>The outcome of sending a request on the bus and waiting for its response.\<close>

datatype ask_outcome = AskBusError error | AskWaitError error | AskAnswer message

definition perm_handle :: "Manager \<Rightarrow> string \<times> Manager" where
  "perm_handle m = (''permission-'' @ show_nat (Suc (pm_index m)), m\<lparr>pm_index := Suc (pm_index m)\<rparr>)"

definition confirm_raw :: "string \<Rightarrow> string \<Rightarrow> string list \<Rightarrow> string \<Rightarrow> string" where
  "confirm_raw nodeid capability reason handle =
     ''dev.sporeos.shell.confirm body='' @ [DQ] @ ''Grant node ['' @ nodeid @ ''] permission to ['' @
     capability @ '']?'' @ [DQ] @
     (if length reason > 0
      then '' lines=[ '' @ [DQ] @ ''Reasons'' @ [DQ] @
           concat (map (\<lambda>r. '', '' @ [DQ] @ '' - '' @ r @ [DQ]) reason) @ '' ]''
      else []) @
     '' ~'' @ handle"

text \<open>The answer of \<open>ask\<close> to a request, read as the two confirmation routines read it.\<close>

definition read_confirmation :: "string \<Rightarrow> ask_outcome \<Rightarrow> bool \<times> error option" where
  "read_confirmation failed r =
     (case r of
        AskBusError e \<Rightarrow> (False, Some e)
      | AskWaitError e \<Rightarrow> (False, Some e)
      | AskAnswer response \<Rightarrow>
          if FlagOf response ''error''
          then (False, Some (error_New C_Generic Mod_Permission (ArgIf response ''what'' failed) []))
          else (FlagOf response ''yes'', None))"

definition perm_confirm ::
  "c_parser \<Rightarrow> (message \<Rightarrow> ask_outcome) \<Rightarrow> string \<Rightarrow> string \<Rightarrow> string list \<Rightarrow> Manager \<Rightarrow>
     (bool \<times> error option) \<times> Manager" where
  "perm_confirm cp ask nodeid capability reason m =
     (let (handle, m1) = perm_handle m in
      case message_Request cp (confirm_raw nodeid capability reason handle) permissionCaller of
        None \<Rightarrow> ((False, Some (error_New C_Malformed Mod_Permission ''failure to request permission'' [])), m1)
      | Some msg \<Rightarrow> (read_confirmation ''permission request failed'' (ask msg), m1))"

text \<open>\<open>quote\<close> is fmt's \<open>%q\<close> verb.\<close>

definition confirmDeveloperInstallation ::
  "c_parser \<Rightarrow> (string \<Rightarrow> string) \<Rightarrow> (message \<Rightarrow> ask_outcome) \<Rightarrow> string \<Rightarrow> Manager \<Rightarrow>
     (bool \<times> error option) \<times> Manager" where
  "confirmDeveloperInstallation cp quote ask nodeid m =
     (let (handle, m1) = perm_handle m;
          body = ''Install developer-trust node ['' @ nodeid @ '']? Developer trust bypasses checksum '' @
                 ''verification and must not be used in production.'' in
      case message_Request cp (''dev.sporeos.shell.confirm body='' @ quote body @ '' ~'' @ handle)
             permissionCaller of
        None \<Rightarrow> ((False, Some (error_New C_Malformed Mod_Permission
                   ''failure to request developer installation confirmation'' [])), m1)
      | Some msg \<Rightarrow> (read_confirmation ''developer installation confirmation failed'' (ask msg), m1))"

definition perm_Request ::
  "c_parser \<Rightarrow> (message \<Rightarrow> ask_outcome) \<Rightarrow> string \<Rightarrow> string \<Rightarrow> string list \<Rightarrow> Manager \<Rightarrow> perm_disk \<Rightarrow>
     (bool \<times> error option) \<times> Manager \<times> perm_disk" where
  "perm_Request cp ask nodeid capability reason m d =
     (let ((granted, err), m1) = perm_confirm cp ask nodeid capability reason m in
      if err \<noteq> None \<or> \<not> granted then ((granted, err), m1, d)
      else case Grant nodeid capability m1 d of
             (Some e, m2, d2) \<Rightarrow> ((False, Some e), m2, d2)
           | (None, m2, d2) \<Rightarrow> ((True, None), m2, d2))"

text \<open>\<open>hyphae\<close> is \<open>None\<close> while the manager has no hyphae to ask for a confirmation.\<close>

type_synonym hyphae_confirm = "(string \<Rightarrow> string \<Rightarrow> bool \<times> error option) option"

definition fresh_confirmation :: "hyphae_confirm \<Rightarrow> string \<Rightarrow> string \<Rightarrow> bool \<times> error option" where
  "fresh_confirmation hyphae origin capability =
     (case hyphae of
        None \<Rightarrow> (False, Some (error_New C_Generic Mod_Permission ''Hyphae confirmation is unavailable''
                            [Pair ''capability'' capability]))
      | Some Confirm \<Rightarrow> Confirm origin capability)"

definition AuthorizeInstallation ::
  "c_parser \<Rightarrow> (string \<Rightarrow> string) \<Rightarrow> (message \<Rightarrow> ask_outcome) \<Rightarrow> hyphae_confirm \<Rightarrow>
     string \<Rightarrow> string \<Rightarrow> string \<Rightarrow> bool \<Rightarrow> Manager \<Rightarrow> (bool \<times> error option) \<times> Manager" where
  "AuthorizeInstallation cp quote ask hyphae origin nodeid capability developer m =
     (if developer then
        let ((granted, err), m1) = confirmDeveloperInstallation cp quote ask nodeid m in
        if err \<noteq> None \<or> \<not> granted then ((granted, err), m1)
        else (fresh_confirmation hyphae origin capability, m1)
      else (fresh_confirmation hyphae origin capability, m))"

section \<open>Permits\<close>

text \<open>\<open>tok\<close> is the encoding of 32 random bytes, or the error text of the random source.\<close>

definition newPermitToken :: "string + string \<Rightarrow> error + string" where
  "newPermitToken tok =
     (case tok of
        Inl e \<Rightarrow> Inl (error_New C_Generic Mod_Permission ''unable to create permission permit''
                       [Pair ''err'' e])
      | Inr t \<Rightarrow> Inr t)"

definition purge_permits :: "int \<Rightarrow> permit gomap \<Rightarrow> permit gomap" where
  "purge_permits now permits t =
     (case permits t of Some p \<Rightarrow> if now < pt_expiresAt p then Some p else None | None \<Rightarrow> None)"

text \<open>\<open>now1\<close> is the clock while expired permits are dropped, \<open>now2\<close> when the new one is made.\<close>

definition RequestPermit ::
  "c_parser \<Rightarrow> (message \<Rightarrow> ask_outcome) \<Rightarrow> string + string \<Rightarrow> int \<Rightarrow> int \<Rightarrow>
     string \<Rightarrow> string \<Rightarrow> string list \<Rightarrow> Manager \<Rightarrow> (string \<times> bool \<times> error option) \<times> Manager" where
  "RequestPermit cp ask tok now1 now2 nodeid capability reason m =
     (if capability \<in> set (pm_adminCommands m) \<or> capability \<in> set (pm_protectedCommands m) then
        (([], False, Some (error_New C_NotPermitted Mod_Permission
            ''permission permits cannot authorize this capability'' [Pair ''capability'' capability])), m)
      else
        let ((granted, err), m1) = perm_confirm cp ask nodeid capability reason m in
        if err \<noteq> None \<or> \<not> granted then (([], granted, err), m1)
        else case newPermitToken tok of
               Inl e \<Rightarrow> (([], False, Some e), m1)
             | Inr token \<Rightarrow>
                 ((token, True, None),
                  m1\<lparr>pm_permits := (purge_permits now1 (pm_permits m1))(token \<mapsto>
                      \<lparr>pt_origin = nodeid, pt_capability = capability,
                       pt_expiresAt = now2 + permissionTokenLifetime\<rparr>)\<rparr>))"

definition consumePermit :: "int \<Rightarrow> string \<Rightarrow> string \<Rightarrow> string \<Rightarrow> Manager \<Rightarrow> bool \<times> Manager" where
  "consumePermit now origin capability token m =
     (case pm_permits m token of
        None \<Rightarrow> (False, m)
      | Some p \<Rightarrow>
          if pt_origin p \<noteq> origin \<or> pt_capability p \<noteq> capability \<or> \<not> now < pt_expiresAt p
          then (False, m)
          else (True, m\<lparr>pm_permits := (pm_permits m)(token := None)\<rparr>))"

fun allows :: "string list \<Rightarrow> string \<Rightarrow> bool" where
  "allows [] capability = False"
| "allows (a # as) capability =
     (if a = capability \<or> HasSuffix capability (''.'' @ a) then True else allows as capability)"

definition standing_allowance :: "Manager \<Rightarrow> string \<Rightarrow> string \<Rightarrow> bool" where
  "standing_allowance m origin capability \<longleftrightarrow>
     origin \<in> set (pm_sysNodes m) \<or> capability \<in> set (pm_benignCommands m) \<or>
     capability \<in> set (pm_benignTopics m) \<or> allows (allowances_of m origin) capability"

definition Can ::
  "hyphae_confirm \<Rightarrow> int \<Rightarrow> message \<Rightarrow> string \<Rightarrow> Manager \<Rightarrow> (bool \<times> error option) \<times> Manager" where
  "Can hyphae now msg capability m =
     (let actor = Actor msg;
          origin = Origin msg;
          isProtected = capability \<in> set (pm_protectedCommands m);
          isAdmin = capability \<in> set (pm_adminCommands m);
          allowed = standing_allowance m origin capability
      in if isProtected then ((actor = protectedCaller, None), m)
         else if origin = permissionCaller \<and> capability = permissionConfirmationCapability
         then ((True, None), m)
         else if origin = protectedCaller \<and> capability = hyphaeConfirmationCapability
         then ((True, None), m)
         else if origin = protectedCaller \<and> capability = hyphaeBinaryHashCapability
         then ((True, None), m)
         else if capability = nodeInstallCapability \<or> capability = nodeReinstallCapability
         then ((True, None), m)
         else if allowed then
           (if \<not> isAdmin then ((True, None), m)
            else (fresh_confirmation hyphae origin capability, m))
         else if isAdmin then ((False, None), m)
         else case Arg msg ''permission.token'' of
                (token, False) \<Rightarrow> ((False, None), m)
              | (token, True) \<Rightarrow>
                  (case consumePermit now origin capability token m of
                     (ok, m1) \<Rightarrow> ((ok, None), m1)))"

section \<open>What the gate decides\<close>

text \<open>The calls \<open>Can\<close> lets through before it looks at any allowance.\<close>

definition preauthorised :: "string \<Rightarrow> string \<Rightarrow> bool" where
  "preauthorised origin capability \<longleftrightarrow>
     origin = permissionCaller \<and> capability = permissionConfirmationCapability \<or>
     origin = protectedCaller \<and>
       (capability = hyphaeConfirmationCapability \<or> capability = hyphaeBinaryHashCapability) \<or>
     capability = nodeInstallCapability \<or> capability = nodeReinstallCapability"

text \<open>A call that only a permit can authorise.\<close>

definition needs_permit :: "Manager \<Rightarrow> message \<Rightarrow> string \<Rightarrow> bool" where
  "needs_permit m msg capability \<longleftrightarrow>
     capability \<notin> set (pm_protectedCommands m) \<and> capability \<notin> set (pm_adminCommands m) \<and>
     \<not> preauthorised (Origin msg) capability \<and> \<not> standing_allowance m (Origin msg) capability"

lemma Can_protected:
  "capability \<in> set (pm_protectedCommands m) \<Longrightarrow>
     Can hyphae now msg capability m = ((Actor msg = protectedCaller, None), m)"
  by (simp add: Can_def Let_def)

lemma Can_preauthorised:
  "\<lbrakk>capability \<notin> set (pm_protectedCommands m); preauthorised (Origin msg) capability\<rbrakk> \<Longrightarrow>
     Can hyphae now msg capability m = ((True, None), m)"
  by (auto simp: Can_def Let_def preauthorised_def)

lemma Can_standing:
  "\<lbrakk>capability \<notin> set (pm_protectedCommands m); \<not> preauthorised (Origin msg) capability;
    standing_allowance m (Origin msg) capability\<rbrakk> \<Longrightarrow>
     Can hyphae now msg capability m =
       (if capability \<in> set (pm_adminCommands m)
        then fresh_confirmation hyphae (Origin msg) capability else (True, None), m)"
  by (auto simp: Can_def Let_def preauthorised_def)

lemma Can_admin_denied:
  "\<lbrakk>capability \<notin> set (pm_protectedCommands m); \<not> preauthorised (Origin msg) capability;
    \<not> standing_allowance m (Origin msg) capability; capability \<in> set (pm_adminCommands m)\<rbrakk> \<Longrightarrow>
     Can hyphae now msg capability m = ((False, None), m)"
  by (auto simp: Can_def Let_def preauthorised_def)

lemma Can_permit:
  "needs_permit m msg capability \<Longrightarrow>
     Can hyphae now msg capability m =
       (case Arg msg ''permission.token'' of
          (token, False) \<Rightarrow> ((False, None), m)
        | (token, True) \<Rightarrow> (case consumePermit now (Origin msg) capability token m of
                             (ok, m1) \<Rightarrow> ((ok, None), m1)))"
  by (auto simp: Can_def Let_def preauthorised_def needs_permit_def)

lemma consumePermit_ok:
  "consumePermit now origin capability token m = (True, m1) \<longleftrightarrow>
     (\<exists>p. pm_permits m token = Some p \<and> pt_origin p = origin \<and> pt_capability p = capability \<and>
          now < pt_expiresAt p) \<and> m1 = m\<lparr>pm_permits := (pm_permits m)(token := None)\<rparr>"
  by (auto simp: consumePermit_def split: option.splits)

lemma consumePermit_refused:
  "consumePermit now origin capability token m = (False, m1) \<Longrightarrow> m1 = m"
  by (auto simp: consumePermit_def split: option.splits if_splits)

text \<open>The ways a call gets through, in the order the gate tries them.\<close>

lemma Can_cases [consumes 1, case_names protected preauthorised standing permit]:
  assumes "Can hyphae now msg capability m = ((True, e), m1)"
  obtains
    "capability \<in> set (pm_protectedCommands m)" "Actor msg = protectedCaller" "m1 = m" "e = None"
  | "capability \<notin> set (pm_protectedCommands m)" "preauthorised (Origin msg) capability" "m1 = m"
    "e = None"
  | "capability \<notin> set (pm_protectedCommands m)" "\<not> preauthorised (Origin msg) capability"
    "standing_allowance m (Origin msg) capability" "m1 = m"
    "capability \<in> set (pm_adminCommands m) \<Longrightarrow>
       fresh_confirmation hyphae (Origin msg) capability = (True, e)"
  | token where "needs_permit m msg capability" "Arg msg ''permission.token'' = (token, True)"
    "consumePermit now (Origin msg) capability token m = (True, m1)" "e = None"
proof -
  consider (a) "capability \<in> set (pm_protectedCommands m)"
    | (b) "capability \<notin> set (pm_protectedCommands m)" "preauthorised (Origin msg) capability"
    | (c) "capability \<notin> set (pm_protectedCommands m)" "\<not> preauthorised (Origin msg) capability"
        "standing_allowance m (Origin msg) capability"
    | (d) "capability \<notin> set (pm_protectedCommands m)" "\<not> preauthorised (Origin msg) capability"
        "\<not> standing_allowance m (Origin msg) capability" "capability \<in> set (pm_adminCommands m)"
    | (e) "needs_permit m msg capability"
    by (auto simp: needs_permit_def)
  then show thesis
  proof cases
    case a
    from assms Can_protected[OF a] have "Actor msg = protectedCaller \<and> m1 = m \<and> e = None" by simp
    with a show ?thesis by (intro that(1)) auto
  next
    case b
    from assms Can_preauthorised[OF b] have "m1 = m \<and> e = None" by simp
    with b show ?thesis by (intro that(2)) auto
  next
    case c
    from assms Can_standing[OF c] have "m1 = m \<and> (capability \<in> set (pm_adminCommands m) \<longrightarrow>
        fresh_confirmation hyphae (Origin msg) capability = (True, e))" by (simp split: if_splits)
    with c show ?thesis by (intro that(3)) auto
  next
    case d
    from assms Can_admin_denied[OF d] show ?thesis by simp
  next
    case e
    from assms Can_permit[OF e] obtain token where
      "Arg msg ''permission.token'' = (token, True)"
      "consumePermit now (Origin msg) capability token m = (True, m1)" "e = None"
      by (auto split: prod.splits bool.splits)
    with e show ?thesis by (intro that(4)) auto
  qed
qed

text \<open>When the gate may let a call through, as one condition on the state before it.\<close>

definition authorised :: "hyphae_confirm \<Rightarrow> int \<Rightarrow> Manager \<Rightarrow> message \<Rightarrow> string \<Rightarrow> bool" where
  "authorised hyphae now m msg capability \<longleftrightarrow>
     (if capability \<in> set (pm_protectedCommands m) then Actor msg = protectedCaller
      else if preauthorised (Origin msg) capability then True
      else if standing_allowance m (Origin msg) capability
      then capability \<in> set (pm_adminCommands m) \<longrightarrow>
             fst (fresh_confirmation hyphae (Origin msg) capability)
      else capability \<notin> set (pm_adminCommands m) \<and>
           (case Arg msg ''permission.token'' of (token, found) \<Rightarrow> found \<and>
              (case pm_permits m token of None \<Rightarrow> False
               | Some p \<Rightarrow> pt_origin p = Origin msg \<and> pt_capability p = capability \<and>
                            now < pt_expiresAt p)))"

lemma Can_allowed_authorised:
  assumes "Can hyphae now msg capability m = ((True, e), m1)"
  shows "authorised hyphae now m msg capability"
  using assms
proof (cases rule: Can_cases)
  case standing
  then show ?thesis by (auto simp: authorised_def)
next
  case (permit token)
  then show ?thesis by (auto simp: authorised_def needs_permit_def consumePermit_ok)
qed (auto simp: authorised_def)

lemma Can_error_unchanged:
  assumes "Can hyphae now msg capability m = ((ok, Some err), m1)"
  shows "m1 = m"
proof (cases "needs_permit m msg capability")
  case True
  with assms show ?thesis by (auto simp: Can_permit split: prod.splits bool.splits)
next
  case False
  with assms Can_protected[of capability m hyphae now msg] Can_preauthorised[of capability m msg hyphae now]
    Can_standing[of capability m msg hyphae now] Can_admin_denied[of capability m msg hyphae now]
  show ?thesis by (auto simp: needs_permit_def)
qed

lemma Can_denied_unchanged:
  assumes "Can hyphae now msg capability m = ((False, e), m1)"
  shows "m1 = m"
proof -
  consider (p) "needs_permit m msg capability"
    | (q) "\<not> needs_permit m msg capability"
    by blast
  then show ?thesis
  proof cases
    case p then show ?thesis using assms
      by (auto simp: Can_permit dest: consumePermit_refused split: prod.splits bool.splits)
  next
    case q then show ?thesis using assms
      Can_protected[of capability m hyphae now msg] Can_preauthorised[of capability m msg hyphae now]
      Can_standing[of capability m msg hyphae now] Can_admin_denied[of capability m msg hyphae now]
      by (auto simp: needs_permit_def)
  qed
qed

interpretation gate: permission_gate "Can hyphae now" "authorised hyphae now" for hyphae now
  by unfold_locales (auto intro: Can_allowed_authorised Can_denied_unchanged Can_error_unchanged)

text \<open>
  C9. An administrative capability can only be exercised with both of its keys. Whatever the
  state, when the gate lets through a call of a command registered as administrative, then the
  command is also protected and the caller is the hyphae itself, or it is one of the calls let
  through by name, or the origin holds a standing allowance and the hyphae has freshly confirmed
  this origin and this capability; no permit authorises it, and none is used up.
\<close>
theorem admin_needs_allowance_and_confirmation:
  assumes "capability \<in> set (pm_adminCommands m)" "Can hyphae now msg capability m = ((True, e), m1)"
  shows "m1 = m \<and>
    (capability \<in> set (pm_protectedCommands m) \<and> Actor msg = protectedCaller \<or>
     preauthorised (Origin msg) capability \<or>
     standing_allowance m (Origin msg) capability \<and>
     (\<exists>Confirm. hyphae = Some Confirm \<and> Confirm (Origin msg) capability = (True, e)))"
  using assms(2)
proof (cases rule: Can_cases)
  case standing
  then show ?thesis using assms(1) by (auto simp: fresh_confirmation_def split: option.splits)
next
  case (permit token)
  then show ?thesis using assms(1) by (simp add: needs_permit_def)
qed auto
definition sample_request :: "string \<Rightarrow> string gomap \<Rightarrow> message" where
  "sample_request cast args =
     MRequest \<lparr>rq_raw = [], rq_id = cast, rq_command = ''open'', rq_args = args, rq_flags = [],
               rq_handle = ''h''\<rparr>"

lemma sample_request_simps [simp]:
  "Origin (sample_request ''a'' args) = ''a''"
  "Arg (sample_request c args) key = map_Arg args key"
  by (simp_all add: sample_request_def castIdentity_def CutByte_def)

text \<open>A manager that knows one administrative command and one origin with an allowance for it.\<close>

definition sample_manager :: Manager where
  "sample_manager = (perm_New FileNotExist)\<lparr>pm_adminCommands := [''x.wipe''],
     pm_allowances := [''a'' \<mapsto> [''x.wipe'']]\<rparr>"

lemmas sample_defs =
  sample_manager_def sample_request_def perm_New_def perm_load_def capability_consts
  preauthorised_def needs_permit_def standing_allowance_def allowances_of_def Let_def

theorem admin_needs_allowance_and_confirmation_witness:
  "standing_allowance sample_manager ''a'' ''x.wipe''"
  using admin_needs_allowance_and_confirmation
    [of "''x.wipe''" sample_manager "Some (\<lambda>o' c. (True, None))" 0 "sample_request ''a'' Map.empty"
        None sample_manager]
  by (simp add: sample_defs Can_def fresh_confirmation_def castIdentity_def map_Arg_def HasSuffix_def)

section \<open>Runs of the manager\<close>

text \<open>
  One step per operation of the manager, with whatever its disk, shell and hyphae answer; the label
  is the permit the step issues, if any.
\<close>

inductive perm_step :: "Manager \<Rightarrow> string list \<Rightarrow> Manager \<Rightarrow> bool" where
  can: "Can hyphae now msg capability m = (r, m') \<Longrightarrow> perm_step m [] m'"
| issue: "RequestPermit cp ask tok now1 now2 nodeid capability reason m = ((t, True, None), m') \<Longrightarrow>
     perm_step m [t] m'"
| refuse: "RequestPermit cp ask tok now1 now2 nodeid capability reason m = ((t, ge), m') \<Longrightarrow>
     ge \<noteq> (True, None) \<Longrightarrow> perm_step m [] m'"
| grant: "Grant nodeid capability m d = (e, m', d') \<Longrightarrow> perm_step m [] m'"
| revoke: "Revoke nodeid capability m d = (e, m', d') \<Longrightarrow> perm_step m [] m'"
| remove: "RemoveNode nodeid m d = (e, m', d') \<Longrightarrow> perm_step m [] m'"
| register: "perm_step m [] (RegisterNode man m)"
| request: "perm_Request cp ask nodeid capability reason m d = (r, m', d') \<Longrightarrow> perm_step m [] m'"
| install: "AuthorizeInstallation cp quote ask hyphae origin nodeid capability developer m = (r, m')
     \<Longrightarrow> perm_step m [] m'"

inductive perm_steps :: "Manager \<Rightarrow> string list \<Rightarrow> Manager \<Rightarrow> bool" where
  start: "perm_steps m [] m"
| step: "\<lbrakk>perm_steps m ts m1; perm_step m1 us m2\<rbrakk> \<Longrightarrow> perm_steps m (ts @ us) m2"

text \<open>The same operations on the manager and the file it keeps.\<close>

inductive perm_change :: "Manager \<Rightarrow> perm_disk \<Rightarrow> Manager \<Rightarrow> perm_disk \<Rightarrow> bool" where
  can: "Can hyphae now msg capability m = (r, m') \<Longrightarrow> perm_change m d m' d"
| permit: "RequestPermit cp ask tok now1 now2 nodeid capability reason m = (r, m') \<Longrightarrow> perm_change m d m' d"
| grant: "Grant nodeid capability m d = (e, m', d') \<Longrightarrow> perm_change m d m' d'"
| revoke: "Revoke nodeid capability m d = (e, m', d') \<Longrightarrow> perm_change m d m' d'"
| remove: "RemoveNode nodeid m d = (e, m', d') \<Longrightarrow> perm_change m d m' d'"
| register: "perm_change m d (RegisterNode man m) d"
| request: "perm_Request cp ask nodeid capability reason m d = (r, m', d') \<Longrightarrow> perm_change m d m' d'"
| install: "AuthorizeInstallation cp quote ask hyphae origin nodeid capability developer m = (r, m') \<Longrightarrow>
     perm_change m d m' d"

lemma perm_handle_simps: "perm_handle m = (h, m1) \<Longrightarrow> m1 = m\<lparr>pm_index := Suc (pm_index m)\<rparr>"
  by (auto simp: perm_handle_def)

lemma perm_confirm_state:
  "perm_confirm cp ask nodeid capability reason m = (r, m1) \<Longrightarrow> m1 = m\<lparr>pm_index := Suc (pm_index m)\<rparr>"
  by (auto simp: perm_confirm_def perm_handle_def split: option.splits)

lemma Grant_permits: "Grant nodeid capability m d = (e, m', d') \<Longrightarrow> pm_permits m' = pm_permits m"
  by (auto simp: Grant_def Let_def split: if_splits prod.splits)

lemma register_command_permits: "pm_permits (register_command i c m) = pm_permits m"
  by (simp add: register_command_def Let_def)

lemma register_topic_permits: "pm_permits (register_topic t m) = pm_permits m"
  by (simp add: register_topic_def)

lemma fold_permits:
  "(\<And>x m. pm_permits (f x m) = pm_permits m) \<Longrightarrow> pm_permits (fold f xs m) = pm_permits m"
  by (induction xs arbitrary: m) simp_all

lemma RegisterNode_permits: "pm_permits (RegisterNode man m) = pm_permits m"
  by (simp add: RegisterNode_def Let_def fold_permits[OF register_command_permits]
      fold_permits[OF register_topic_permits] split: option.split)

lemma Can_permits: "Can hyphae now msg capability m = (r, m') \<Longrightarrow> pm_permits m' \<subseteq>\<^sub>m pm_permits m"
proof -
  assume c: "Can hyphae now msg capability m = (r, m')"
  obtain ok e where r: "r = (ok, e)" by (cases r)
  show ?thesis
  proof (cases ok)
    case False
    with c r Can_denied_unchanged[of hyphae now msg capability m e m'] show ?thesis by (simp add: map_le_def)
  next
    case True
    with c r have "Can hyphae now msg capability m = ((True, e), m')" by simp
    then show ?thesis
      by (cases rule: Can_cases) (auto simp: consumePermit_ok map_le_def)
  qed
qed

lemma RequestPermit_permits:
  assumes "RequestPermit cp ask tok now1 now2 nodeid capability reason m = ((t, ge), m')"
  shows "if ge = (True, None)
         then \<exists>p. pm_permits m' = (purge_permits now1 (pm_permits m))(t \<mapsto> p)
         else pm_permits m' = pm_permits m"
proof -
  obtain gr er m1 where c: "perm_confirm cp ask nodeid capability reason m = ((gr, er), m1)"
    by (metis surj_pair)
  from perm_confirm_state[OF c] have "pm_permits m1 = pm_permits m" by simp
  with assms c show ?thesis
    by (auto simp: RequestPermit_def Let_def split: if_splits sum.splits)
qed

lemma perm_step_permits:
  assumes "perm_step m ts m'" "t \<notin> set ts" "pm_permits m t = None"
  shows "pm_permits m' t = None"
  using assms
proof cases
  case (can hyphae now msg capability r)
  then show ?thesis using Can_permits[OF can(2)] assms(3)
    by (metis domIff map_le_implies_dom_le subset_iff)
next
  case (issue cp ask tok now1 now2 nodeid capability reason t')
  then show ?thesis using RequestPermit_permits[OF issue(2)] assms
    by (auto simp: purge_permits_def)
next
  case (request cp ask nodeid capability reason d r d')
  then show ?thesis using assms(3)
    by (auto simp: perm_Request_def split: if_splits prod.splits option.splits
        dest!: perm_confirm_state Grant_permits)
qed (use assms in \<open>auto simp: Revoke_def RemoveNode_def RegisterNode_permits AuthorizeInstallation_def
      confirmDeveloperInstallation_def Let_def perm_handle_def
      dest: Grant_permits RequestPermit_permits split: prod.splits if_splits option.splits\<close>)

lemma perm_steps_permits:
  "\<lbrakk>perm_steps m ts m'; t \<notin> set ts; pm_permits m t = None\<rbrakk> \<Longrightarrow> pm_permits m' t = None"
  by (induction rule: perm_steps.induct) (auto dest: perm_step_permits)
text \<open>
  C10. A permit authorises one call. Once a call that nothing else authorises has got through with
  a token, no later call that needs a permit gets through with the same token, whatever the manager
  does in between, as long as it does not draw the same random token again; and the first call was
  by the origin and for the capability the permit was issued for, before it expired.
\<close>
theorem permit_is_single_use:
  assumes "needs_permit m msg capability" "Can hyphae now msg capability m = ((True, e), m1)"
    "Arg msg ''permission.token'' = (t, found)"
    "perm_steps m1 ts m2" "t \<notin> set ts"
    "needs_permit m2 msg' capability'" "fst (Arg msg' ''permission.token'') = t"
  shows "(\<exists>p. pm_permits m t = Some p \<and> pt_origin p = Origin msg \<and> pt_capability p = capability \<and>
              now < pt_expiresAt p) \<and>
         Can hyphae' now' msg' capability' m2 = ((False, None), m2)"
  using assms(2)
proof (cases rule: Can_cases)
  case (permit token)
  then have t: "token = t" using assms(3) by simp
  from permit(3) have "pm_permits m1 t = None" by (auto simp: consumePermit_ok t)
  with perm_steps_permits[OF assms(4,5)] have "pm_permits m2 t = None" .
  then have "Can hyphae' now' msg' capability' m2 = ((False, None), m2)"
    using assms(7) by (auto simp: Can_permit[OF assms(6)] consumePermit_def
        split: prod.splits bool.splits)
  with permit(3) show ?thesis by (simp add: consumePermit_ok t)
qed (use assms(1) in \<open>auto simp: needs_permit_def\<close>)

definition permit_manager :: Manager where
  "permit_manager = (perm_New FileNotExist)
     \<lparr>pm_permits := [''T'' \<mapsto> \<lparr>pt_origin = ''a'', pt_capability = ''x.open'', pt_expiresAt = 5\<rparr>]\<rparr>"

theorem permit_is_single_use_witness:
  "Can None 3 (sample_request ''a'' [''permission.token'' \<mapsto> ''T'']) ''x.open'' (perm_New FileNotExist)
     = ((False, None), perm_New FileNotExist)"
proof -
  let ?msg = "sample_request ''a'' [''permission.token'' \<mapsto> ''T'']"
  have needs: "needs_permit m ?msg ''x.open''" if "m \<in> {permit_manager, perm_New FileNotExist}" for m
    using that by (auto simp: needs_permit_def preauthorised_def capability_consts
        standing_allowance_def allowances_of_def perm_New_def perm_load_def permit_manager_def)
  have arg: "Arg ?msg ''permission.token'' = (''T'', True)" by (simp add: map_Arg_def)
  have "Can None 2 ?msg ''x.open'' permit_manager = ((True, None), perm_New FileNotExist)"
    using needs[of permit_manager] arg
    by (simp add: Can_permit consumePermit_def permit_manager_def perm_New_def perm_load_def fun_eq_iff)
  from permit_is_single_use[OF needs this arg perm_steps.start, of ?msg "''x.open''" None 3] needs arg
  show ?thesis by simp
qed

text \<open>
  C24. A permit the user grants works, once, for thirty seconds. When \<open>RequestPermit\<close> returns a
  token, the first call of the origin for the capability that carries it, made before thirty
  seconds are over and not authorised otherwise, is let through and spends it; at thirty seconds
  or later it is denied.
\<close>
theorem granted_permit_is_usable_for_its_lifetime:
  assumes "RequestPermit cp ask tok now1 now2 nodeid capability reason m = ((t, True, None), m1)"
    "Origin msg = nodeid" "Arg msg ''permission.token'' = (t, True)" "needs_permit m1 msg capability"
  shows "Can hyphae now msg capability m1 =
           (if now < now2 + permissionTokenLifetime
            then ((True, None), m1\<lparr>pm_permits := (pm_permits m1)(t := None)\<rparr>)
            else ((False, None), m1))"
proof -
  obtain gr er m0 where c: "perm_confirm cp ask nodeid capability reason m = ((gr, er), m0)"
    by (metis surj_pair)
  from assms(1) c have "pm_permits m1 t =
      Some \<lparr>pt_origin = nodeid, pt_capability = capability,
            pt_expiresAt = now2 + permissionTokenLifetime\<rparr>"
    by (auto simp: RequestPermit_def Let_def split: if_splits sum.splits)
  with assms(2-4) show ?thesis by (simp add: Can_permit consumePermit_def)
qed

text \<open>A concrete question and the shell's yes.\<close>

definition yes_answer :: "message \<Rightarrow> ask_outcome" where
  "yes_answer req = AskAnswer (MResponse \<lparr>rs_raw = [], rs_id = ''dev.sporeos.shell'',
     rs_command = ''confirm'', rs_args = Map.empty, rs_flags = [''yes''], rs_handle = Handle req\<rparr>)"

definition echo_parser :: c_parser where
  "echo_parser raw validate = Some \<lparr>c_error = None, c_type = TypeRequest,
     c_capability = Some ''dev.sporeos.shell.confirm'', c_handle = Some ''permission-1'',
     c_args = [], c_flags = []\<rparr>"

lemma RequestPermit_yes:
  "RequestPermit echo_parser yes_answer (Inr t) n1 n2 ''a'' ''x.open'' [] (perm_New FileNotExist) =
     ((t, True, None), (perm_New FileNotExist)\<lparr>pm_index := 1, pm_permits :=
        [t \<mapsto> \<lparr>pt_origin = ''a'', pt_capability = ''x.open'', pt_expiresAt = n2 + permissionTokenLifetime\<rparr>]\<rparr>)"
proof -
  have q: "TrimSpace (confirm_raw ''a'' ''x.open'' [] ''permission-1'') \<noteq> []" by code_simp
  have n: "show_nat (Suc 0) = ''1''" by code_simp
  show ?thesis
    using q n by (simp add: RequestPermit_def perm_New_def perm_load_def perm_confirm_def perm_handle_def
      message_Request_def parseRequest_def parsed_of_def Validate_def cparse_def echo_parser_def
      yes_answer_def read_confirmation_def newPermitToken_def purge_permits_def fun_eq_iff
      permissionCaller_def)
qed

theorem granted_permit_is_usable_for_its_lifetime_witness:
  "\<exists>m1 m2. RequestPermit echo_parser yes_answer (Inr ''T'') 0 0 ''a'' ''x.open'' []
             (perm_New FileNotExist) = ((''T'', True, None), m1) \<and>
     Can None 29000000000 (sample_request ''a'' [''permission.token'' \<mapsto> ''T'']) ''x.open'' m1
       = ((True, None), m2)"
proof -
  let ?msg = "sample_request ''a'' [''permission.token'' \<mapsto> ''T'']"
  let ?m1 = "(perm_New FileNotExist)\<lparr>pm_index := 1, pm_permits :=
        [''T'' \<mapsto> \<lparr>pt_origin = ''a'', pt_capability = ''x.open'', pt_expiresAt = 0 + permissionTokenLifetime\<rparr>]\<rparr>"
  have needs: "needs_permit ?m1 ?msg ''x.open''"
    by (simp add: needs_permit_def preauthorised_def capability_consts
        standing_allowance_def allowances_of_def perm_New_def perm_load_def)
  have "Can None 29000000000 ?msg ''x.open'' ?m1
      = ((True, None), ?m1\<lparr>pm_permits := (pm_permits ?m1)(''T'' := None)\<rparr>)"
    using granted_permit_is_usable_for_its_lifetime[OF RequestPermit_yes, of ?msg "''T''" 0 None 29000000000] needs
    by (simp add: map_Arg_def permissionTokenLifetime_def)
  then show ?thesis unfolding RequestPermit_yes by blast
qed
section \<open>Granting, revoking and restarting\<close>

lemma perm_save_ok: "perm_save m d = (None, d1) \<Longrightarrow> pd_file d1 = Some (pm_allowances m)"
  by (auto simp: perm_save_def split: option.splits)

lemma perm_save_failed: "perm_save m d = (Some e, d1) \<Longrightarrow> d1 = d"
  by (auto simp: perm_save_def split: option.splits)

definition add_allowance :: "string \<Rightarrow> string \<Rightarrow> Manager \<Rightarrow> Manager" where
  "add_allowance nodeid command m =
     m\<lparr>pm_allowances := (pm_allowances m)(nodeid \<mapsto> allowances_of m nodeid @ [command])\<rparr>"

lemma allowances_of_add:
  "allowances_of (add_allowance nodeid command m) n =
     (if n = nodeid then allowances_of m n @ [command] else allowances_of m n)"
  by (simp add: allowances_of_def add_allowance_def)

lemma Grant_new:
  "command \<notin> set (allowances_of m nodeid) \<Longrightarrow>
     Grant nodeid command m d =
       (fst (perm_save (add_allowance nodeid command m) d), add_allowance nodeid command m,
        snd (perm_save (add_allowance nodeid command m) d))"
  by (simp add: Grant_def add_allowance_def Let_def split: prod.split)

lemma Grant_held: "command \<in> set (allowances_of m nodeid) \<Longrightarrow> Grant nodeid command m d = (None, m, d)"
  by (simp add: Grant_def)

text \<open>
  A granted capability survives a restart. When \<open>Grant\<close> reports success for a capability the
  node did not have, the file holds exactly the allowances in memory, and the manager started from
  that file lets the node call the capability, as long as it is neither protected nor
  administrative there.
\<close>
lemma grant_survives_restart:
  assumes "Grant nodeid capability m d = (None, m1, d1)" "capability \<notin> set (allowances_of m nodeid)"
  shows "pd_file d1 = Some (pm_allowances m1) \<and>
         capability \<in> set (allowances_of m1 nodeid) \<and>
         (\<forall>hyphae now msg. Origin msg = nodeid \<longrightarrow>
            Can hyphae now msg capability (perm_New (FileAllowances (the (pd_file d1))))
              = ((True, None), perm_New (FileAllowances (the (pd_file d1)))))"
proof -
  have saved: "pd_file d1 = Some (pm_allowances m1)" and
    mem: "capability \<in> set (allowances_of m1 nodeid)"
    using assms(1) perm_save_ok[of "add_allowance nodeid capability m" d d1]
    by (auto simp: Grant_new[OF assms(2)] allowances_of_add prod_eq_iff)
  have allows_mem: "allows xs c" if "c \<in> set xs" for xs c
    using that by (induction xs) auto
  let ?n = "perm_New (FileAllowances (pm_allowances m1))"
  have n: "pm_protectedCommands ?n = []" "pm_adminCommands ?n = []"
    "allowances_of ?n = allowances_of m1"
    by (auto simp: perm_New_def perm_load_def allowances_of_def)
  have "Can hyphae now msg capability ?n = ((True, None), ?n)" if "Origin msg = nodeid" for hyphae now msg
  proof (cases "preauthorised (Origin msg) capability")
    case True
    then show ?thesis using n by (simp add: Can_preauthorised)
  next
    case False
    have "standing_allowance ?n (Origin msg) capability"
      using that mem n(3) by (simp add: standing_allowance_def allows_mem)
    with False n show ?thesis by (simp add: Can_standing)
  qed
  with saved mem show ?thesis by simp
qed

definition working_disk :: perm_disk where
  "working_disk = \<lparr>pd_marshal_err = None, pd_mkdir_err = None, pd_write_err = None, pd_file = None\<rparr>"

lemma grant_survives_restart_witness:
  "\<exists>m1 d1. Grant ''a'' ''x.open'' (perm_New FileNotExist) working_disk = (None, m1, d1) \<and>
     pd_file d1 = Some (pm_allowances m1)"
proof -
  have "fst (Grant ''a'' ''x.open'' (perm_New FileNotExist) working_disk) = None"
    by (simp add: Grant_def Let_def perm_save_def working_disk_def split: prod.split)
  then obtain m1 d1 where g: "Grant ''a'' ''x.open'' (perm_New FileNotExist) working_disk = (None, m1, d1)"
    by (metis eq_fst_iff prod.exhaust_sel)
  from grant_survives_restart[OF g] show ?thesis
    using g by (simp add: allowances_of_def perm_New_def perm_load_def)
qed

text \<open>
  A grant that was not saved is reported as saved on the second try. When writing the file
  fails, \<open>Grant\<close> returns the error but keeps the allowance in memory; asked again, it finds the
  allowance, returns success and writes nothing, on any disk.
\<close>
lemma failed_grant_succeeds_on_retry_without_saving:
  assumes "Grant nodeid capability m d = (Some e, m1, d1)"
  shows "pd_file d1 = pd_file d \<and> Grant nodeid capability m1 d' = (None, m1, d')"
proof (cases "capability \<in> set (allowances_of m nodeid)")
  case True
  with assms show ?thesis by (simp add: Grant_held)
next
  case False
  with assms perm_save_failed[of "add_allowance nodeid capability m" d e d1]
  show ?thesis by (auto simp: Grant_new Grant_held allowances_of_add prod_eq_iff)
qed

lemma failed_grant_succeeds_on_retry_without_saving_witness:
  "\<exists>e m1. Grant ''a'' ''x.open'' (perm_New FileNotExist) (working_disk\<lparr>pd_write_err := Some ''full''\<rparr>)
       = (Some e, m1, working_disk\<lparr>pd_write_err := Some ''full''\<rparr>) \<and>
     Grant ''a'' ''x.open'' m1 working_disk = (None, m1, working_disk)"
proof -
  let ?d = "working_disk\<lparr>pd_write_err := Some ''full''\<rparr>"
  obtain e m1 where g: "Grant ''a'' ''x.open'' (perm_New FileNotExist) ?d = (Some e, m1, ?d)"
    by (simp add: Grant_def Let_def perm_save_def working_disk_def perm_New_def perm_load_def
        allowances_of_def)
  from failed_grant_succeeds_on_retry_without_saving[OF g, of working_disk] g show ?thesis by blast
qed
lemma allows_iff:
  "allows as capability \<longleftrightarrow> (\<exists>a \<in> set as. a = capability \<or> HasSuffix capability (''.'' @ a))"
  by (induction as) auto

text \<open>Every list of allowances is free of duplicates; every step of a run keeps it so.\<close>

definition distinct_allowances :: "Manager \<Rightarrow> bool" where
  "distinct_allowances m \<longleftrightarrow> (\<forall>n cs. pm_allowances m n = Some cs \<longrightarrow> distinct cs)"

lemma distinct_allowances_cong:
  "pm_allowances m' = pm_allowances m \<Longrightarrow> distinct_allowances m' = distinct_allowances m"
  by (simp add: distinct_allowances_def)

lemma Grant_distinct:
  "\<lbrakk>Grant nodeid capability m d = (e, m', d'); distinct_allowances m\<rbrakk> \<Longrightarrow> distinct_allowances m'"
  by (auto simp: Grant_def Let_def distinct_allowances_def allowances_of_def
      split: if_splits prod.splits option.splits)

lemma Revoke_distinct:
  "\<lbrakk>Revoke nodeid capability m d = (e, m', d'); distinct_allowances m\<rbrakk> \<Longrightarrow> distinct_allowances m'"
  by (auto simp: Revoke_def Let_def distinct_allowances_def allowances_of_def
      split: if_splits prod.splits option.splits)

lemma fold_allowances:
  "(\<And>x m. pm_allowances (f x m) = pm_allowances m) \<Longrightarrow> pm_allowances (fold f xs m) = pm_allowances m"
  by (induction xs arbitrary: m) simp_all

lemma RegisterNode_allowances: "pm_allowances (RegisterNode man m) = pm_allowances m"
proof -
  have "pm_allowances (register_command i c m) = pm_allowances m" for i c m
    by (simp add: register_command_def Let_def)
  moreover have "pm_allowances (register_topic t m) = pm_allowances m" for t m
    by (simp add: register_topic_def)
  ultimately show ?thesis
    by (simp add: RegisterNode_def Let_def fold_allowances split: option.split)
qed

lemma Can_allowances: "Can hyphae now msg capability m = (r, m') \<Longrightarrow> pm_allowances m' = pm_allowances m"
proof -
  assume c: "Can hyphae now msg capability m = (r, m')"
  obtain ok e where r: "r = (ok, e)" by (cases r)
  show ?thesis
  proof (cases ok)
    case False
    with c r Can_denied_unchanged[of hyphae now msg capability m e m'] show ?thesis by simp
  next
    case True
    with c r have "Can hyphae now msg capability m = ((True, e), m')" by simp
    then show ?thesis by (cases rule: Can_cases) (auto simp: consumePermit_ok)
  qed
qed

lemma RequestPermit_allowances:
  assumes "RequestPermit cp ask tok now1 now2 nodeid capability reason m = (r, m')"
  shows "pm_allowances m' = pm_allowances m"
proof -
  obtain gr er m1 where c: "perm_confirm cp ask nodeid capability reason m = ((gr, er), m1)"
    by (metis surj_pair)
  from perm_confirm_state[OF c] have "pm_allowances m1 = pm_allowances m" by simp
  with assms c show ?thesis
    by (auto simp: RequestPermit_def Let_def split: if_splits sum.splits)
qed

lemma perm_step_distinct: "\<lbrakk>perm_step m ts m'; distinct_allowances m\<rbrakk> \<Longrightarrow> distinct_allowances m'"
proof (induction rule: perm_step.induct)
  case (request cp ask nodeid capability reason m d r m' d')
  obtain gr er m1 where c: "perm_confirm cp ask nodeid capability reason m = ((gr, er), m1)"
    by (metis surj_pair)
  have m1: "distinct_allowances m1"
    using request(2) perm_confirm_state[OF c] distinct_allowances_cong[of m1 m] by simp
  show ?case
  proof (cases "er \<noteq> None \<or> \<not> gr")
    case True
    with request(1) c m1 show ?thesis by (simp add: perm_Request_def)
  next
    case False
    obtain e2 m2 d2 where g: "Grant nodeid capability m1 d = (e2, m2, d2)" by (metis surj_pair)
    have "m' = m2" using request(1) c False g by (cases e2) (simp_all add: perm_Request_def)
    with Grant_distinct[OF g m1] show ?thesis by simp
  qed
next
  case (remove nodeid m d e m' d')
  then show ?case by (auto simp: RemoveNode_def Let_def distinct_allowances_def split: prod.splits if_splits)
next
  case (install cp quote ask hyphae origin nodeid capability developer m r m')
  then have "pm_allowances m' = pm_allowances m"
    by (auto simp: AuthorizeInstallation_def confirmDeveloperInstallation_def Let_def perm_handle_def
        split: prod.splits if_splits option.splits)
  with install show ?case using distinct_allowances_cong by blast
qed (auto dest: Grant_distinct Revoke_distinct Can_allowances RequestPermit_allowances
      intro: RegisterNode_allowances simp: distinct_allowances_def RegisterNode_allowances)

lemma perm_steps_distinct: "\<lbrakk>perm_steps m ts m'; distinct_allowances m\<rbrakk> \<Longrightarrow> distinct_allowances m'"
  by (induction rule: perm_steps.induct) (auto dest: perm_step_distinct)
lemma Revoke_allowances:
  assumes "Revoke nodeid capability m d = (e, m1, d1)"
  shows "allowances_of m1 n =
           (if n = nodeid then remove1 capability (allowances_of m n) else allowances_of m n)"
  using assms
  by (auto simp: Revoke_def Let_def allowances_of_def remove1_idem split: if_splits prod.splits)

lemma Revoke_registrations:
  "Revoke nodeid capability m d = (e, m1, d1) \<Longrightarrow>
     pm_sysNodes m1 = pm_sysNodes m \<and> pm_benignCommands m1 = pm_benignCommands m \<and>
     pm_benignTopics m1 = pm_benignTopics m"
  by (auto simp: Revoke_def Let_def split: if_splits prod.splits)

text \<open>
  C23. Revoking takes the capability away and nothing else. In every state a run can reach from a
  manager whose lists have no duplicates, a revoked capability is gone from the node's list even
  when saving fails, every other allowance of every node stays, and the node keeps a standing
  allowance for it only as a system node, for a benign name, or through another allowance whose
  name is a dotted suffix of it.
\<close>
theorem revoke_is_effective:
  assumes "perm_steps m0 ts m" "distinct_allowances m0" "Revoke nodeid capability m d = (e, m1, d1)"
  shows "(\<forall>n c. c \<in> set (allowances_of m1 n) \<longleftrightarrow>
              c \<in> set (allowances_of m n) \<and> \<not> (n = nodeid \<and> c = capability)) \<and>
         (standing_allowance m1 nodeid capability \<longleftrightarrow>
              nodeid \<in> set (pm_sysNodes m) \<or> capability \<in> set (pm_benignCommands m) \<or>
              capability \<in> set (pm_benignTopics m) \<or>
              (\<exists>a \<in> set (allowances_of m nodeid). HasSuffix capability (''.'' @ a)))"
proof -
  have dist: "distinct (allowances_of m n)" for n
    using perm_steps_distinct[OF assms(1,2)]
    by (auto simp: distinct_allowances_def allowances_of_def split: option.split)
  have mem: "c \<in> set (allowances_of m1 n) \<longleftrightarrow>
      c \<in> set (allowances_of m n) \<and> \<not> (n = nodeid \<and> c = capability)" for n c
    using dist[of n] by (auto simp: Revoke_allowances[OF assms(3)])
  have "\<not> HasSuffix capability (''.'' @ capability)"
    by (auto simp: HasSuffix_def dest!: suffix_length_le)
  with mem Revoke_registrations[OF assms(3)] show ?thesis
    by (auto simp: standing_allowance_def allows_iff)
qed

theorem revoke_is_effective_witness:
  "allowances_of (fst (snd (Revoke ''a'' ''x.wipe'' sample_manager working_disk))) ''a'' = [] \<and>
   \<not> standing_allowance (fst (snd (Revoke ''a'' ''x.wipe'' sample_manager working_disk))) ''a'' ''x.wipe''"
proof -
  have d: "distinct_allowances sample_manager"
    by (simp add: distinct_allowances_def sample_manager_def)
  obtain e m1 d1 where r: "Revoke ''a'' ''x.wipe'' sample_manager working_disk = (e, m1, d1)"
    by (metis surj_pair)
  have "allowances_of sample_manager ''a'' = [''x.wipe'']" "pm_sysNodes sample_manager = []"
    "pm_benignCommands sample_manager = []" "pm_benignTopics sample_manager = []"
    by (simp_all add: sample_manager_def allowances_of_def perm_New_def perm_load_def)
  note facts = revoke_is_effective[OF perm_steps.start d r] this
  have none: "c \<notin> set (allowances_of m1 ''a'')" for c
    using facts(1)[THEN conjunct1, rule_format, of c "''a''"] facts(2) by simp
  have "allowances_of m1 ''a'' = []" using none by (cases "allowances_of m1 ''a''") auto
  moreover have "\<not> standing_allowance m1 ''a'' ''x.wipe''"
    using facts by (auto simp: HasSuffix_def suffix_def)
  ultimately show ?thesis using r by simp
qed

lemma register_topic_benign:
  "set (pm_benignTopics (fold register_topic ts m)) =
     set (pm_benignTopics m) \<union> tp_Name ` {t \<in> set ts. tp_Risk t = R_Benign}"
  by (induction ts arbitrary: m) (auto simp: register_topic_def)

text \<open>
  Benign topics are remembered under their bare names, so a manifest can open a command it does
  not own: when any node registers a benign topic whose name is spelled like a capability, every
  origin has a standing allowance for that capability, and the gate lets every call of it through
  if it is neither protected nor administrative.
\<close>
lemma benign_topic_opens_a_command:
  assumes "t \<in> set (m_Topics man)" "tp_Risk t = R_Benign" "tp_Name t = capability"
  shows "standing_allowance (RegisterNode (Some man) m) origin capability \<and>
         (capability \<notin> set (pm_protectedCommands (RegisterNode (Some man) m)) \<longrightarrow>
          capability \<notin> set (pm_adminCommands (RegisterNode (Some man) m)) \<longrightarrow>
          (\<forall>hyphae now msg. Can hyphae now msg capability (RegisterNode (Some man) m)
             = ((True, None), RegisterNode (Some man) m)))"
proof -
  let ?m = "RegisterNode (Some man) m"
  have s: "standing_allowance ?m o' capability" for o'
    using assms by (auto simp: standing_allowance_def RegisterNode_def Let_def register_topic_benign)
  have "Can hyphae now msg capability ?m = ((True, None), ?m)"
    if "capability \<notin> set (pm_protectedCommands ?m)" "capability \<notin> set (pm_adminCommands ?m)"
    for hyphae now msg
    using that Can_standing[OF that(1) _ s] Can_preauthorised[OF that(1)]
    by (cases "preauthorised (Origin msg) capability") auto
  with s show ?thesis by blast
qed

lemma benign_topic_opens_a_command_witness:
  "fst (Can None 0 (sample_request ''a'' Map.empty) ''victim.wipe'' (RegisterNode
     (Some (empty_manifest\<lparr>m_ID := ''evil'', m_Topics :=
        [\<lparr>tp_Name = ''victim.wipe'', tp_Description = [], tp_Risk = R_Benign, tp_Usage = [],
           tp_Outputs = None, tp_Notes = None\<rparr>]\<rparr>))
     (perm_New FileNotExist))) = (True, None)"
  (is "fst (Can _ _ _ _ (RegisterNode (Some ?man) ?m)) = _")
proof -
  have "pm_protectedCommands (RegisterNode (Some ?man) ?m) = []"
    "pm_adminCommands (RegisterNode (Some ?man) ?m) = []"
    by (simp_all add: RegisterNode_def Let_def register_topic_def perm_New_def perm_load_def
        empty_manifest_def)
  with benign_topic_opens_a_command[of "hd (m_Topics ?man)" ?man "''victim.wipe''" ?m] show ?thesis
    by simp
qed
lemma RegisterNode_sysNodes:
  "pm_sysNodes (RegisterNode (Some man) m) =
     pm_sysNodes m @ (if m_Trust man = T_System then [m_ID man] else [])"
proof -
  have "pm_sysNodes (fold (register_command i) cs m') = pm_sysNodes m'" for i cs m'
    by (induction cs arbitrary: m') (simp_all add: register_command_def Let_def)
  moreover have "pm_sysNodes (fold register_topic ts m') = pm_sysNodes m'" for ts m'
    by (induction ts arbitrary: m') (simp_all add: register_topic_def)
  ultimately show ?thesis by (simp add: RegisterNode_def)
qed

text \<open>
  Uninstalling a system node does not end its trust: the manager forgets the allowances of the
  node but keeps its id among the system nodes, so every call of that id that is neither protected
  nor administrative is still let through, whatever is installed under that id later.
\<close>
lemma removed_system_node_stays_trusted:
  assumes "m_Trust man = T_System" "RemoveNode (m_ID man) (RegisterNode (Some man) m) d = (e, m1, d1)"
    "Origin msg = m_ID man"
    "capability \<notin> set (pm_protectedCommands m1)" "capability \<notin> set (pm_adminCommands m1)"
  shows "pm_allowances m1 (m_ID man) = None \<and>
         Can hyphae now msg capability m1 = ((True, None), m1)"
proof -
  have "m_ID man \<in> set (pm_sysNodes m1)" "pm_allowances m1 (m_ID man) = None"
    using assms(1,2) by (auto simp: RemoveNode_def Let_def RegisterNode_sysNodes split: prod.splits)
  then have "standing_allowance m1 (Origin msg) capability" using assms(3) by (simp add: standing_allowance_def)
  with \<open>pm_allowances m1 (m_ID man) = None\<close> assms(5) Can_standing[OF assms(4)] Can_preauthorised[OF assms(4)]
  show ?thesis by (cases "preauthorised (Origin msg) capability") auto
qed

lemma removed_system_node_stays_trusted_witness:
  "\<exists>m1. fst (snd (RemoveNode ''a'' (RegisterNode (Some (empty_manifest\<lparr>m_ID := ''a'', m_Trust := T_System\<rparr>))
       (perm_New FileNotExist)) working_disk)) = m1 \<and>
     Can None 0 (sample_request ''a'' Map.empty) ''victim.wipe'' m1 = ((True, None), m1)"
proof -
  let ?man = "empty_manifest\<lparr>m_ID := ''a'', m_Trust := T_System\<rparr>"
  obtain e m1 d1 where r: "RemoveNode (m_ID ?man) (RegisterNode (Some ?man) (perm_New FileNotExist)) working_disk
      = (e, m1, d1)" by (metis surj_pair)
  then have "pm_protectedCommands m1 = []" "pm_adminCommands m1 = []"
    by (auto simp: RemoveNode_def RegisterNode_def Let_def empty_manifest_def perm_New_def perm_load_def
        split: prod.splits)
  with removed_system_node_stays_trusted[OF _ r, of "sample_request ''a'' Map.empty" "''victim.wipe''" None 0] r
  show ?thesis by simp
qed
end
