(* ===== verification/Bus_Broadcast.thy ===== *)
theory Bus_Broadcast
  imports Bus_Types Abbrev
begin

text \<open>
  The topic side of the bus (spored/internal/bus/broadcast.go): the topics the nodes announce, who
  subscribed to which, and the fan-out of a broadcast.
\<close>

record broadcaster =
  b_nodes :: "inode gomap"
  b_topics :: abbreviationIndex
  b_subscriptions :: "string list gomap" \<comment> \<open>topic fqname to subscriber node ids\<close>

definition newBroadcast :: broadcaster where
  "newBroadcast =
     \<lparr>b_nodes = (\<lambda>_. None), b_topics = newAbbreviationIndex, b_subscriptions = (\<lambda>_. None)\<rparr>"

definition broadcast_register :: "inode \<Rightarrow> broadcaster \<Rightarrow> broadcaster" where
  "broadcast_register n b =
     b\<lparr>b_nodes := (b_nodes b)(n_id n \<mapsto> n), b_topics := fold idx_add (node_topics n) (b_topics b)\<rparr>"

definition broadcast_unregister :: "inode \<Rightarrow> broadcaster \<Rightarrow> broadcaster" where
  "broadcast_unregister n b =
     b\<lparr>b_nodes := (b_nodes b)(n_id n := None),
       b_topics := fold idx_remove (node_topics n) (b_topics b)\<rparr>"

definition resolveTopic :: "string \<Rightarrow> broadcaster \<Rightarrow> error + string" where
  "resolveTopic topic b =
     (case idx_resolve (b_topics b) topic of
        (fqname, candidates, ok) \<Rightarrow>
          if ok then Inr fqname
          else if length candidates > 0
          then Inl (error_New C_Collision Mod_Bus ''ambiguous topic, use a more qualified name''
                 [Pair ''topic'' topic, Pair ''candidates'' (Join candidates '', '')])
          else Inl (error_New C_Missing Mod_Bus ''topic not found'' [Pair ''topic'' topic]))"

definition subscribers_of :: "string \<Rightarrow> broadcaster \<Rightarrow> string list" where
  "subscribers_of fqname b = (case b_subscriptions b fqname of Some xs \<Rightarrow> xs | None \<Rightarrow> [])"

definition broadcast_subscribe :: "string \<Rightarrow> string \<Rightarrow> broadcaster \<Rightarrow> error option \<times> broadcaster" where
  "broadcast_subscribe cast topic b =
     (case resolveTopic topic b of
        Inl err \<Rightarrow> (Some err, b)
      | Inr fqname \<Rightarrow>
          (None, b\<lparr>b_subscriptions := (b_subscriptions b)(fqname \<mapsto> subscribers_of fqname b @ [cast])\<rparr>))"

text \<open>Only the first subscription of the node is dropped; without one the map is left as it is.\<close>

definition broadcast_unsubscribe :: "string \<Rightarrow> string \<Rightarrow> broadcaster \<Rightarrow> error option \<times> broadcaster" where
  "broadcast_unsubscribe cast topic b =
     (case resolveTopic topic b of
        Inl err \<Rightarrow> (Some err, b)
      | Inr fqname \<Rightarrow>
          (None,
           if cast \<in> set (subscribers_of fqname b)
           then b\<lparr>b_subscriptions := (b_subscriptions b)(fqname \<mapsto> remove1 cast (subscribers_of fqname b))\<rparr>
           else b))"

text \<open>
  The error for the publisher, the nodes whose \<open>Receive\<close> is called, in order, and the errors sent
  to the witnesses.
\<close>

definition broadcast_broadcast ::
  "receive \<Rightarrow> message \<Rightarrow> broadcaster \<Rightarrow> error option \<times> inode list \<times> error list" where
  "broadcast_broadcast Receive msg b =
     (let topic = Capability msg in
      case idx_resolve (b_topics b) topic of
        (fqname, candidates, ok) \<Rightarrow>
          if \<not> ok then
            (if length candidates > 0
             then (Some (WithMessage (error_New C_Collision Mod_Bus
                      ''ambiguous topic, use a more qualified name''
                      [Pair ''topic'' topic, Pair ''candidates'' (Join candidates '', '')]) msg), [], [])
             else (None, [], []))
          else
            (case b_subscriptions b fqname of
               None \<Rightarrow> (None, [], [])
             | Some subscribers \<Rightarrow>
                 (let targets = collect_some (b_nodes b) subscribers
                  in (None, targets, collect_some (\<lambda>node. Receive node msg) targets))))"

section \<open>Lemmas\<close>

lemma subscribers_of_update:
  "subscribers_of f (b\<lparr>b_subscriptions := (b_subscriptions b)(g \<mapsto> xs)\<rparr>) =
     (if f = g then xs else subscribers_of f b)"
  by (simp add: subscribers_of_def)

lemma broadcast_targets:
  "idx_resolve (b_topics b) (Capability msg) = (f, cs, True) \<Longrightarrow>
     broadcast_broadcast Receive msg b =
       (None, collect_some (b_nodes b) (subscribers_of f b),
        collect_some (\<lambda>node. Receive node msg) (collect_some (b_nodes b) (subscribers_of f b)))"
  by (simp add: broadcast_broadcast_def subscribers_of_def Let_def
      split: option.split)

lemma count_map_filter:
  assumes "\<forall>i n. m i = Some n \<longrightarrow> n_id n = i" "m (n_id n) = Some n"
  shows "count_list (collect_some m xs) n = count_list xs (n_id n)"
proof (induction xs)
  case (Cons x xs)
  show ?case
  proof (cases "m x")
    case None
    then have "x \<noteq> n_id n" using assms(2) by auto
    with None Cons show ?thesis by simp
  next
    case (Some y)
    then have "y = n \<longleftrightarrow> x = n_id n" using assms by (metis option.inject)
    with Some Cons show ?thesis by simp
  qed
qed simp

text \<open>Registered nodes are stored under their own id.\<close>

definition nodes_by_id :: "inode gomap \<Rightarrow> bool" where
  "nodes_by_id m \<longleftrightarrow> (\<forall>i n. m i = Some n \<longrightarrow> n_id n = i)"

lemma nodes_by_id_register: "nodes_by_id (b_nodes b) \<Longrightarrow> nodes_by_id (b_nodes (broadcast_register n b))"
  by (simp add: nodes_by_id_def broadcast_register_def)

lemma nodes_by_id_unregister: "nodes_by_id (b_nodes b) \<Longrightarrow> nodes_by_id (b_nodes (broadcast_unregister n b))"
  by (simp add: nodes_by_id_def broadcast_unregister_def)

text \<open>Every sequence of operations of the component.\<close>

inductive broadcast_reach :: "broadcaster \<Rightarrow> bool" where
  new: "broadcast_reach newBroadcast"
| register: "broadcast_reach b \<Longrightarrow> broadcast_reach (broadcast_register n b)"
| unregister: "broadcast_reach b \<Longrightarrow> broadcast_reach (broadcast_unregister n b)"
| subscribe: "broadcast_reach b \<Longrightarrow> broadcast_reach (snd (broadcast_subscribe cast topic b))"
| unsubscribe: "broadcast_reach b \<Longrightarrow> broadcast_reach (snd (broadcast_unsubscribe cast topic b))"

lemma broadcast_reach_by_id: "broadcast_reach b \<Longrightarrow> nodes_by_id (b_nodes b)"
proof (induction rule: broadcast_reach.induct)
  case new
  show ?case by (simp add: newBroadcast_def nodes_by_id_def)
next
  case (subscribe b cast topic)
  then show ?case by (auto simp: broadcast_subscribe_def split: sum.split)
next
  case (unsubscribe b cast topic)
  then show ?case by (auto simp: broadcast_unsubscribe_def split: sum.split)
qed (auto intro: nodes_by_id_register nodes_by_id_unregister)

text \<open>
  C34. A broadcast reaches a node once for each of its subscriptions. In every reachable state, when
  the published topic and the topic of a subscription resolve to one name, then subscribing a
  registered node makes the broadcast call it exactly once more, unsubscribing it exactly once less
  (or not at all if it was not subscribed), and no other node is affected; the publisher gets no
  error, whatever the subscribers answer.
\<close>
theorem broadcast_follows_subscriptions:
  assumes "broadcast_reach b" "b_nodes b (n_id n) = Some n"
    "idx_resolve (b_topics b) topic = (f, [], True)"
    "idx_resolve (b_topics b) (Capability msg) = (f, [], True)"
  shows "(let times = (\<lambda>b. count_list (fst (snd (broadcast_broadcast Receive msg b))));
              b1 = snd (broadcast_subscribe cast topic b);
              b2 = snd (broadcast_unsubscribe cast topic b)
          in times b1 n = times b n + (if cast = n_id n then 1 else 0) \<and>
             times b2 n = times b n - (if cast = n_id n then 1 else 0) \<and>
             fst (broadcast_broadcast Receive msg b) = None)"
proof -
  note by_id = broadcast_reach_by_id[OF assms(1), unfolded nodes_by_id_def]
  have times: "count_list (fst (snd (broadcast_broadcast Receive msg b'))) n =
      count_list (subscribers_of f b') (n_id n)"
    if "b_nodes b' = b_nodes b" "b_topics b' = b_topics b" for b'
  proof -
    have "count_list (collect_some (b_nodes b) xs) n = count_list xs (n_id n)" for xs
      by (rule count_map_filter[OF by_id assms(2)])
    with that broadcast_targets[of b' msg f "[]" Receive] assms(4) show ?thesis by simp
  qed
  have absent: "count_list (subscribers_of f b) (n_id n) = 0" if "n_id n \<notin> set (subscribers_of f b)"
    using that by (simp add: count_list_0_iff)
  have sub: "snd (broadcast_subscribe cast topic b) = b\<lparr>b_subscriptions :=
      (b_subscriptions b)(f \<mapsto> subscribers_of f b @ [cast])\<rparr>"
    using assms(3) by (simp add: broadcast_subscribe_def resolveTopic_def)
  have unsub: "snd (broadcast_unsubscribe cast topic b) =
      (if cast \<in> set (subscribers_of f b)
       then b\<lparr>b_subscriptions := (b_subscriptions b)(f \<mapsto> remove1 cast (subscribers_of f b))\<rparr> else b)"
    using assms(3) by (simp add: broadcast_unsubscribe_def resolveTopic_def)
  show ?thesis
    unfolding Let_def sub unsub
    using broadcast_targets[OF assms(4), of Receive, THEN arg_cong[where f = fst]] absent
    by (cases "cast = n_id n") (simp_all add: times subscribers_of_update count_list_remove1)
qed

definition topic_node :: inode where
  "topic_node = \<lparr>n_ptr = 0, n_id = ''a'', n_manifest = Some (empty_manifest\<lparr>m_Topics :=
     [\<lparr>tp_Name = ''t'', tp_Description = [], tp_Risk = [], tp_Usage = [], tp_Outputs = None,
       tp_Notes = None\<rparr>]\<rparr>), n_isWitness = False, n_connected = True\<rparr>"

theorem broadcast_follows_subscriptions_witness:
  "count_list (fst (snd (broadcast_broadcast (\<lambda>n m. None)
      (MBroadcast \<lparr>bc_raw = [], bc_id = ''a'', bc_topic = ''a.t'', bc_args = (\<lambda>_. None),
                   bc_flags = [], bc_incomingSent = False\<rparr>)
      (snd (broadcast_subscribe ''a'' ''t'' (broadcast_register topic_node newBroadcast)))))) topic_node = 1"
proof -
  let ?b = "broadcast_register topic_node newBroadcast"
  let ?m = "MBroadcast \<lparr>bc_raw = [], bc_id = ''a'', bc_topic = ''a.t'', bc_args = (\<lambda>_. None),
                   bc_flags = [], bc_incomingSent = False\<rparr>"
  have r: "broadcast_reach ?b" by (intro broadcast_reach.intros)
  have n: "b_nodes ?b (n_id topic_node) = Some topic_node" by (simp add: broadcast_register_def)
  have t: "idx_resolve (b_topics ?b) ''t'' = (''a.t'', [], True)"
    "idx_resolve (b_topics ?b) (Capability ?m) = (''a.t'', [], True)"
    by code_simp+
  have none: "count_list (fst (snd (broadcast_broadcast (\<lambda>n m. None) ?m ?b))) topic_node = 0"
    using broadcast_targets[OF t(2), of "\<lambda>n m. None"]
    by (simp add: subscribers_of_def broadcast_register_def newBroadcast_def)
  from broadcast_follows_subscriptions[OF r n t, of "\<lambda>n m. None" "''a''"] none show ?thesis
    by (simp add: Let_def topic_node_def)
qed

end
