(* ===== verification/Bus_Responses.thy ===== *)
theory Bus_Responses
  imports Bus_Types
begin

text \<open>
  The response side of the bus (spored/internal/bus/responses.go): which node waits for the response
  with a handle. The mutex is part of the state, because one path returns without releasing it: an
  operation on a locked table is \<open>None\<close>, a goroutine that never gets further. Times are
  nanoseconds.
\<close>

definition responseHandleTimeout :: int where "responseHandleTimeout = 10 * 1000000000"

record route =
  rt_nodeid :: string
  rt_expiresAt :: int

record responses =
  rp_locked :: bool
  rp_responses :: "route gomap"
  rp_nodes :: "inode gomap"

definition newResponses :: responses where
  "newResponses = \<lparr>rp_locked = False, rp_responses = (\<lambda>_. None), rp_nodes = (\<lambda>_. None)\<rparr>"

definition responses_register :: "inode \<Rightarrow> responses \<Rightarrow> responses option" where
  "responses_register n r =
     (if rp_locked r then None else Some (r\<lparr>rp_nodes := (rp_nodes r)(n_id n \<mapsto> n)\<rparr>))"

definition responses_unregister :: "inode \<Rightarrow> responses \<Rightarrow> responses option" where
  "responses_unregister n r =
     (if rp_locked r then None else Some (r\<lparr>rp_nodes := (rp_nodes r)(n_id n := None)\<rparr>))"

text \<open>\<open>now1\<close> is the clock of the expiry test, \<open>now2\<close> that of the new entry.\<close>

definition responses_request ::
  "int \<Rightarrow> int \<Rightarrow> message \<Rightarrow> responses \<Rightarrow> (error option \<times> responses) option" where
  "responses_request now1 now2 msg r =
     (if rp_locked r then None
      else
        let handle = Handle msg;
            nodeid = Actor msg;
            taken = (case rp_responses r handle of Some res \<Rightarrow> now1 < rt_expiresAt res | None \<Rightarrow> False)
        in if taken
           then Some (Some (WithMessage (error_New C_HandleInUse Mod_Bus ''request handle already in use''
                        [Pair ''handle'' handle]) msg), r)
           else Some (None, r\<lparr>rp_responses := (rp_responses r)(handle \<mapsto>
                        \<lparr>rt_nodeid = nodeid, rt_expiresAt = now2 + responseHandleTimeout\<rparr>)\<rparr>))"

definition responses_cancel :: "string \<Rightarrow> responses \<Rightarrow> responses option" where
  "responses_cancel handle r =
     (if rp_locked r then None
      else Some (r\<lparr>rp_responses := (rp_responses r)(handle := None)\<rparr>))"

text \<open>
  The error, the node whose \<open>Receive\<close> is called once the mutex is released (its result is
  ignored), and the table. The branch for a missing handle returns with the mutex held.
\<close>

definition responses_response ::
  "message \<Rightarrow> responses \<Rightarrow> (error option \<times> inode option \<times> responses) option" where
  "responses_response msg r =
     (if rp_locked r then None
      else
        let handle = Handle msg in
        if handle = ''n/a''
        then Some (Some (error_New C_Missing Mod_Bus ''missing handle'' []), None, r\<lparr>rp_locked := True\<rparr>)
        else case rp_responses r handle of
               None \<Rightarrow> Some (Some (WithMessage (error_New C_Missing Mod_Bus ''handle not mapped''
                         [Pair ''handle'' handle]) msg), None, r)
             | Some res \<Rightarrow>
                 (let r1 = r\<lparr>rp_responses := (rp_responses r)(handle := None)\<rparr>;
                      nodeid = rt_nodeid res in
                  case rp_nodes r1 nodeid of
                    None \<Rightarrow> Some (Some (WithMessage (error_New C_Missing Mod_Bus ''node not found''
                              [Pair ''handle'' handle, Pair ''nodeid'' nodeid]) msg), None, r1)
                  | Some node \<Rightarrow> Some (None, Some node, r1)))"

section \<open>Runs of the table\<close>

text \<open>
  The operations of any number of goroutines, each one atomic under the mutex. A run that meets a
  held mutex has no result; the log lists the handles of the requests taken and the handles and
  nodes of the responses delivered.
\<close>

datatype resp_op =
    RReg inode
  | RUnreg inode
  | RReq int int message
  | RCancel string
  | RResp message

datatype resp_event = EvTaken string | EvDelivered string inode

fun resp_step :: "resp_op \<Rightarrow> responses \<Rightarrow> (resp_event list \<times> responses) option" where
  "resp_step (RReg n) r = map_option (\<lambda>r'. ([], r')) (responses_register n r)"
| "resp_step (RUnreg n) r = map_option (\<lambda>r'. ([], r')) (responses_unregister n r)"
| "resp_step (RReq now1 now2 msg) r =
     map_option (\<lambda>(e, r'). (if e = None then [EvTaken (Handle msg)] else [], r'))
       (responses_request now1 now2 msg r)"
| "resp_step (RCancel h) r = map_option (\<lambda>r'. ([], r')) (responses_cancel h r)"
| "resp_step (RResp msg) r =
     map_option (\<lambda>(e, n, r'). (case n of Some node \<Rightarrow> [EvDelivered (Handle msg) node] | None \<Rightarrow> [], r'))
       (responses_response msg r)"

fun resp_run :: "resp_op list \<Rightarrow> responses \<Rightarrow> (resp_event list \<times> responses) option" where
  "resp_run [] r = Some ([], r)"
| "resp_run (op # ops) r =
     (case resp_step op r of
        None \<Rightarrow> None
      | Some (evs, r1) \<Rightarrow> map_option (\<lambda>(evs', r2). (evs @ evs', r2)) (resp_run ops r1))"

definition taken_count :: "string \<Rightarrow> resp_event list \<Rightarrow> nat" where
  "taken_count h evs = length (filter (\<lambda>ev. ev = EvTaken h) evs)"

definition delivered_count :: "string \<Rightarrow> resp_event list \<Rightarrow> nat" where
  "delivered_count h evs = length (filter (\<lambda>ev. \<exists>n. ev = EvDelivered h n) evs)"

definition open_routes :: "string \<Rightarrow> responses \<Rightarrow> nat" where
  "open_routes h r = (if rp_responses r h = None then 0 else 1)"

lemmas resp_defs =
  responses_register_def responses_unregister_def responses_request_def responses_cancel_def
  responses_response_def Let_def

lemma resp_step_counts:
  "resp_step op r = Some (evs, r') \<Longrightarrow>
     delivered_count h evs + open_routes h r' \<le> taken_count h evs + open_routes h r"
  by (cases op)
    (auto simp: resp_defs delivered_count_def taken_count_def open_routes_def
      split: if_splits option.splits)

lemma resp_run_counts:
  "resp_run ops r = Some (evs, r') \<Longrightarrow>
     delivered_count h evs + open_routes h r' \<le> taken_count h evs + open_routes h r"
proof (induction ops arbitrary: r evs)
  case (Cons op ops)
  then obtain evs1 r1 evs2 where s: "resp_step op r = Some (evs1, r1)"
    "resp_run ops r1 = Some (evs2, r')" "evs = evs1 @ evs2"
    by (auto split: option.splits)
  from resp_step_counts[OF s(1), of h] Cons.IH[OF s(2)] s(3) show ?case
    by (simp add: delivered_count_def taken_count_def)
qed (simp add: delivered_count_def taken_count_def)

text \<open>
  C20. Every delivered response answers a request: in every run from the empty table, the responses
  delivered for a handle are never more than the requests that were accepted with it, whatever
  registrations, cancellations, duplicate responses and expired handles come in between.
\<close>
theorem no_response_without_a_request:
  assumes "resp_run ops newResponses = Some (evs, r)"
  shows "delivered_count h evs \<le> taken_count h evs"
  using resp_run_counts[OF assms, of h] by (simp add: open_routes_def newResponses_def)

definition sample_req :: "string \<Rightarrow> string \<Rightarrow> message" where
  "sample_req cast h = MRequest \<lparr>rq_raw = [], rq_id = cast, rq_command = ''x.open'',
     rq_args = (\<lambda>_. None), rq_flags = [], rq_handle = h\<rparr>"

definition sample_resp :: "string \<Rightarrow> message" where
  "sample_resp h = MResponse \<lparr>rs_raw = [], rs_id = ''x'', rs_command = ''open'',
     rs_args = (\<lambda>_. None), rs_flags = [''ok''], rs_handle = h\<rparr>"

definition sample_node :: "string \<Rightarrow> inode" where
  "sample_node i = \<lparr>n_ptr = 0, n_id = i, n_manifest = None, n_isWitness = False, n_connected = True\<rparr>"

lemma sample_msg_simps [simp]:
  "Handle (sample_req c h) = h" "Handle (sample_resp h) = h" "Actor (sample_req ''a'' h) = ''a''"
  "Actor (sample_req ''b'' h) = ''b''"
  by (simp_all add: sample_req_def sample_resp_def castIdentity_def CutByte_def)

theorem no_response_without_a_request_witness:
  "delivered_count ''h'' [EvTaken ''h'', EvDelivered ''h'' (sample_node ''a'')] \<le> 1"
proof -
  have "resp_run [RReg (sample_node ''a''), RReq 0 0 (sample_req ''a'' ''h''), RResp (sample_resp ''h''),
      RResp (sample_resp ''h'')] newResponses
    = Some ([EvTaken ''h'', EvDelivered ''h'' (sample_node ''a'')],
            newResponses\<lparr>rp_nodes := [''a'' \<mapsto> sample_node ''a'']\<rparr>)"
    by (simp add: resp_defs newResponses_def sample_node_def fun_eq_iff)
  from no_response_without_a_request[OF this, of "''h''"] show ?thesis by (simp add: taken_count_def)
qed

text \<open>
  An operation that leaves the route of a handle alone until time \<open>t\<close>: it neither cancels nor
  answers that handle, and a request that asks for it does so before the route expires.
\<close>

fun spares :: "string \<Rightarrow> int \<Rightarrow> resp_op \<Rightarrow> bool" where
  "spares h t (RReg n) = True"
| "spares h t (RUnreg n) = True"
| "spares h t (RReq now1 now2 msg) = (Handle msg = h \<longrightarrow> now1 < t)"
| "spares h t (RCancel h') = (h' \<noteq> h)"
| "spares h t (RResp msg) = (Handle msg \<noteq> h)"

lemma resp_step_keeps_route:
  "\<lbrakk>resp_step op r = Some (evs, r'); spares h (rt_expiresAt res) op; rp_responses r h = Some res\<rbrakk>
     \<Longrightarrow> rp_responses r' h = Some res \<and> EvTaken h \<notin> set evs"
  by (cases op) (auto simp: resp_defs split: if_splits option.splits)

lemma resp_run_keeps_route:
  "\<lbrakk>resp_run ops r = Some (evs, r'); \<forall>op \<in> set ops. spares h (rt_expiresAt res) op;
    rp_responses r h = Some res\<rbrakk>
     \<Longrightarrow> rp_responses r' h = Some res \<and> EvTaken h \<notin> set evs"
proof (induction ops arbitrary: r evs)
  case (Cons op ops)
  then obtain evs1 r1 evs2 where s: "resp_step op r = Some (evs1, r1)"
    "resp_run ops r1 = Some (evs2, r')" "evs = evs1 @ evs2"
    by (auto split: option.splits)
  with resp_step_keeps_route[OF s(1)] Cons.prems Cons.IH[OF s(2)] show ?case by auto
qed simp

text \<open>
  For ten seconds a handle belongs to its first user. Once a request has been accepted, no other
  request with its handle is accepted before ten seconds are over, and the response with that
  handle goes to the node registered under the id of the component that sent the request, provided
  the route was neither cancelled nor answered in between.
\<close>
lemma response_reaches_the_requester:
  assumes "responses_request now1 now2 msg r = Some (None, r1)" "Handle msg = h" "h \<noteq> ''n/a''"
    "resp_run ops r1 = Some (evs, r2)"
    "\<forall>op \<in> set ops. spares h (now2 + responseHandleTimeout) op"
    "Handle resp = h" "\<not> rp_locked r2"
  shows "EvTaken h \<notin> set evs \<and>
         (case responses_response resp r2 of
            Some (e, target, r3) \<Rightarrow> target = rp_nodes r2 (Actor msg) \<and> (e = None \<longleftrightarrow> target \<noteq> None) \<and>
                                     rp_responses r3 h = None
          | None \<Rightarrow> False)"
proof -
  let ?res = "\<lparr>rt_nodeid = Actor msg, rt_expiresAt = now2 + responseHandleTimeout\<rparr>"
  have "rp_responses r1 h = Some ?res"
    using assms(1,2) by (auto simp: resp_defs split: if_splits)
  from resp_run_keeps_route[OF assms(4), of h ?res] assms(5) this
  have "rp_responses r2 h = Some ?res \<and> EvTaken h \<notin> set evs" by simp
  with assms(3,6,7) show ?thesis by (auto simp: responses_response_def Let_def split: option.split)
qed

lemma response_reaches_the_requester_witness:
  "responses_response (sample_resp ''h'')
     (newResponses\<lparr>rp_nodes := [''a'' \<mapsto> sample_node ''a''],
        rp_responses := [''h'' \<mapsto> \<lparr>rt_nodeid = ''a'', rt_expiresAt = 10000000000\<rparr>]\<rparr>) \<noteq> None"
proof -
  let ?r = "newResponses\<lparr>rp_nodes := [''a'' \<mapsto> sample_node ''a'']\<rparr>"
  let ?r1 = "newResponses\<lparr>rp_nodes := [''a'' \<mapsto> sample_node ''a''],
        rp_responses := [''h'' \<mapsto> \<lparr>rt_nodeid = ''a'', rt_expiresAt = 10000000000\<rparr>]\<rparr>"
  have taken: "responses_request 0 0 (sample_req ''a'' ''h'') ?r = Some (None, ?r1)"
    by (simp add: resp_defs newResponses_def responseHandleTimeout_def)
  have refused: "resp_run [RReq 9000000000 9000000000 (sample_req ''b'' ''h'')] ?r1 = Some ([], ?r1)"
    by (simp add: resp_defs newResponses_def)
  from response_reaches_the_requester[OF taken _ _ refused, of "''h''" "sample_resp ''h''"]
  show ?thesis
    by (cases "responses_response (sample_resp ''h'') ?r1")
      (simp_all add: responseHandleTimeout_def newResponses_def)
qed

text \<open>
  C40. One response without a handle stops the bus for good. A response whose handle reads n/a is
  refused with an error, but its call returns while it holds the mutex: from then on no request,
  response, cancellation, registration or removal of any node ever completes.
\<close>
theorem missing_handle_wedges_the_bus:
  assumes "\<not> rp_locked r" "Handle msg = ''n/a''"
  shows "\<exists>e r'. responses_response msg r = Some (Some e, None, r') \<and> ewhat e = ''missing handle'' \<and>
           (\<forall>op. resp_step op r' = None)"
proof -
  let ?e = "error_New C_Missing Mod_Bus ''missing handle'' []"
  let ?r = "r\<lparr>rp_locked := True\<rparr>"
  have "resp_step op ?r = None" for op
    by (cases op) (simp_all add: resp_defs)
  moreover have "responses_response msg r = Some (Some ?e, None, ?r)"
    using assms by (simp add: responses_response_def)
  moreover have "ewhat ?e = ''missing handle''" by (simp add: error_New_def)
  ultimately show ?thesis by blast
qed

theorem missing_handle_wedges_the_bus_witness:
  "\<exists>r'. resp_step (RResp (sample_resp ''n/a'')) newResponses = Some ([], r') \<and>
     resp_step (RReq 0 0 (sample_req ''a'' ''h'')) r' = None"
proof -
  obtain e r' where r: "responses_response (sample_resp ''n/a'') newResponses = Some (Some e, None, r')"
    "\<forall>op. resp_step op r' = None"
    using missing_handle_wedges_the_bus[of newResponses "sample_resp ''n/a''"]
    by (auto simp: newResponses_def)
  from r(1) have "resp_step (RResp (sample_resp ''n/a'')) newResponses = Some ([], r')" by simp
  with r(2) show ?thesis by blast
qed

end
