(* ===== verification/Bus_Witness.thy ===== *)
theory Bus_Witness
  imports Bus_Types "HOL-Library.Multiset"
begin

text \<open>
  The witness side of the bus (spored/internal/bus/witness.go): the list of witness nodes and the
  fan-out of witness messages. Nodes are compared by identity, as Go compares interface values.
\<close>

definition newWitness :: "inode list" where "newWitness = []"

definition holds_node :: "inode \<Rightarrow> inode list \<Rightarrow> bool" where
  "holds_node n w \<longleftrightarrow> n_ptr n \<in> n_ptr ` set w"

definition witness_register :: "inode \<Rightarrow> inode list \<Rightarrow> inode list" where
  "witness_register n w =
     (if \<not> n_isWitness n then w else if holds_node n w then w else w @ [n])"

text \<open>\<open>swap_remove\<close> overwrites the first occurrence with the last element and drops the last slot.\<close>

fun index_of :: "nat \<Rightarrow> inode list \<Rightarrow> nat" where
  "index_of p [] = 0"
| "index_of p (el # w) = (if n_ptr el = p then 0 else Suc (index_of p w))"

definition swap_remove :: "nat \<Rightarrow> inode list \<Rightarrow> inode list" where
  "swap_remove i w = butlast (w[i := last w])"

definition witness_unregister :: "inode \<Rightarrow> inode list \<Rightarrow> inode list" where
  "witness_unregister n w =
     (if \<not> n_isWitness n then w
      else if \<not> holds_node n w then w
      else swap_remove (index_of (n_ptr n) w) w)"

text \<open>\<open>connected\<close> answers \<open>IsConnected\<close> when the message is sent; the result is the nodes called.\<close>

definition witness_witness :: "(inode \<Rightarrow> bool) \<Rightarrow> inode list \<Rightarrow> inode list" where
  "witness_witness connected w = filter connected w"

section \<open>The list is the set of registered witnesses\<close>

lemma index_of_less: "p \<in> n_ptr ` set w \<Longrightarrow> index_of p w < length w \<and> n_ptr (w ! index_of p w) = p"
  by (induction w) auto

lemma mset_swap_remove:
  "i < length w \<Longrightarrow> mset (swap_remove i w) = mset w - {#w ! i#}"
proof -
  assume i: "i < length w"
  let ?w = "w[i := last w]"
  have ne: "w \<noteq> []" "?w \<noteq> []" using i by auto
  then have "last ?w = last w"
    by (cases "i = length w - 1") (simp_all add: last_conv_nth)
  then have "mset ?w = mset (butlast ?w) + {#last w#}"
    using arg_cong[OF append_butlast_last_id[OF ne(2)], of mset] by simp
  moreover have "mset ?w = add_mset (last w) (mset w - {#w ! i#})"
    using i by (rule mset_update)
  ultimately show ?thesis by (simp add: swap_remove_def)
qed

datatype witness_op = WReg inode | WUnreg inode

fun witness_apply :: "witness_op \<Rightarrow> inode list \<Rightarrow> inode list" where
  "witness_apply (WReg n) w = witness_register n w"
| "witness_apply (WUnreg n) w = witness_unregister n w"

text \<open>The identities that should be on the list.\<close>

fun witness_spec :: "witness_op \<Rightarrow> nat set \<Rightarrow> nat set" where
  "witness_spec (WReg n) S = (if n_isWitness n then insert (n_ptr n) S else S)"
| "witness_spec (WUnreg n) S = (if n_isWitness n then S - {n_ptr n} else S)"

definition witness_rel :: "inode list \<Rightarrow> nat set \<Rightarrow> bool" where
  "witness_rel w S \<longleftrightarrow> mset (map n_ptr w) = mset_set S \<and> finite S"

lemma witness_rel_facts:
  "witness_rel w S \<Longrightarrow> n_ptr ` set w = S \<and> distinct (map n_ptr w)"
proof -
  assume a: "witness_rel w S"
  then have "set_mset (mset (map n_ptr w)) = S" by (simp add: witness_rel_def)
  moreover have "distinct (map n_ptr w)"
    using a unfolding witness_rel_def
    by (metis calculation a distinct_count_atmost_1 count_mset_set finite_set_mset witness_rel_def set_mset_mset)
  ultimately show ?thesis by simp
qed

lemma witness_rel_step: "witness_rel w S \<Longrightarrow> witness_rel (witness_apply op w) (witness_spec op S)"
proof (cases op)
  case (WReg n)
  assume a: "witness_rel w S"
  with WReg witness_rel_facts[OF a] show ?thesis
    by (auto simp: witness_register_def holds_node_def witness_rel_def insert_absorb)
next
  case (WUnreg n)
  assume a: "witness_rel w S"
  show ?thesis
  proof (cases "n_isWitness n \<and> holds_node n w")
    case False
    with WUnreg a witness_rel_facts[OF a] show ?thesis
      by (auto simp: witness_unregister_def holds_node_def)
  next
    case True
    let ?i = "index_of (n_ptr n) w"
    have i: "?i < length w" "n_ptr (w ! ?i) = n_ptr n"
      using True index_of_less by (auto simp: holds_node_def)
    have "mset (map n_ptr (swap_remove ?i w)) = image_mset n_ptr (mset w - {#w ! ?i#})"
      using mset_swap_remove[OF i(1)] by simp
    also have "\<dots> = mset (map n_ptr w) - {#n_ptr n#}"
      using i by (simp add: image_mset_Diff)
    also have "\<dots> = mset_set (S - {n_ptr n})"
      using a by (cases "n_ptr n \<in> S") (simp_all add: witness_rel_def mset_set_Diff)
    finally show ?thesis using True WUnreg a by (simp add: witness_unregister_def witness_rel_def)
  qed
qed

text \<open>
  The witness list is the set of registered witnesses: after any history of registrations and
  removals, in any order and with repetitions, every witness node that was registered and not removed
  since is on the list exactly once and nothing else is, so a message is shown to each of them that
  is connected exactly once.
\<close>
lemma witness_list_is_a_set:
  "n_ptr ` set (fold witness_apply ops newWitness) = fold witness_spec ops {} \<and>
   distinct (map n_ptr (witness_witness connected (fold witness_apply ops newWitness)))"
proof -
  have "witness_rel (fold witness_apply ops w) (fold witness_spec ops S)" if "witness_rel w S" for w S
    using that by (induction ops arbitrary: w S) (auto intro: witness_rel_step)
  from this[of newWitness "{}"]
  have "witness_rel (fold witness_apply ops newWitness) (fold witness_spec ops {})"
    by (simp add: witness_rel_def newWitness_def)
  from witness_rel_facts[OF this] show ?thesis
    by (auto simp: witness_witness_def distinct_map_filter)
qed

end
