(* ===== verification/Bus.thy ===== *)
theory Bus
  imports Bus_Api Bus_Broadcast Bus_Responses Bus_Witness Permissions
begin

text \<open>
  The bus (spored/internal/bus/bus.go): registration with the four parts, requests, responses and
  broadcasts. An operation that meets the held mutex of the response table is \<open>None\<close>.
\<close>

record bus =
  bus_api :: api
  bus_broadcast :: broadcaster
  bus_responses :: responses
  bus_witness :: "inode list"

definition pipe_inode :: inode where
  "pipe_inode = \<lparr>n_ptr = 0, n_id = ''SPORE.pipe'', n_manifest = None, n_isWitness = False,
                 n_connected = True\<rparr>"

definition bus_New :: bus where
  "bus_New = \<lparr>bus_api = newApi, bus_broadcast = newBroadcast,
     bus_responses = newResponses\<lparr>rp_nodes := [n_id pipe_inode \<mapsto> pipe_inode]\<rparr>,
     bus_witness = newWitness\<rparr>"

definition bus_Register :: "inode \<Rightarrow> bus \<Rightarrow> bus option" where
  "bus_Register n b =
     map_option
       (\<lambda>r. \<lparr>bus_api = api_register n (bus_api b),
             bus_broadcast = broadcast_register n (bus_broadcast b),
             bus_responses = r,
             bus_witness = witness_register n (bus_witness b)\<rparr>)
       (responses_register n (bus_responses b))"

definition bus_Unregister :: "inode \<Rightarrow> bus \<Rightarrow> bus option" where
  "bus_Unregister n b =
     map_option
       (\<lambda>r. \<lparr>bus_api = api_unregister n (bus_api b),
             bus_broadcast = broadcast_unregister n (bus_broadcast b),
             bus_responses = r,
             bus_witness = witness_unregister n (bus_witness b)\<rparr>)
       (responses_unregister n (bus_responses b))"

definition bus_Broadcast :: "receive \<Rightarrow> message \<Rightarrow> bus \<Rightarrow> error option \<times> inode list \<times> error list" where
  "bus_Broadcast Receive msg b = broadcast_broadcast Receive msg (bus_broadcast b)"

definition bus_Subscribe :: "string \<Rightarrow> string \<Rightarrow> bus \<Rightarrow> error option \<times> bus" where
  "bus_Subscribe cast topic b =
     (case broadcast_subscribe cast topic (bus_broadcast b) of (e, x) \<Rightarrow> (e, b\<lparr>bus_broadcast := x\<rparr>))"

definition bus_Unsubscribe :: "string \<Rightarrow> string \<Rightarrow> bus \<Rightarrow> error option \<times> bus" where
  "bus_Unsubscribe cast topic b =
     (case broadcast_unsubscribe cast topic (bus_broadcast b) of (e, x) \<Rightarrow> (e, b\<lparr>bus_broadcast := x\<rparr>))"

definition bus_FullyQualifiedRequest :: "string \<Rightarrow> bus \<Rightarrow> string" where
  "bus_FullyQualifiedRequest command b = fullyQualifiedRequest command (bus_api b)"

text \<open>
  \<open>receive\<close> is what the target's \<open>Receive\<close> does before it returns: its error, and the response
  table after the responses it sent itself (the Spore node answers some commands at once), or
  \<open>None\<close> when it never returns. The result is the error, the node that was called, the bus and the
  gate.
\<close>

type_synonym receive_with = "inode \<Rightarrow> message \<Rightarrow> responses \<Rightarrow> (error option \<times> responses) option"

definition bus_Request ::
  "'p can option \<Rightarrow> receive_with \<Rightarrow> int \<Rightarrow> int \<Rightarrow> message \<Rightarrow> bus \<Rightarrow> 'p \<Rightarrow>
     ((error option \<times> inode option) \<times> bus \<times> 'p) option" where
  "bus_Request permissions receive now1 now2 msg b p =
     (case responses_request now1 now2 msg (bus_responses b) of
        None \<Rightarrow> None
      | Some (Some err, r) \<Rightarrow> Some ((Some err, None), b\<lparr>bus_responses := r\<rparr>, p)
      | Some (None, r) \<Rightarrow>
          (case api_request permissions
                  (\<lambda>n m. case receive n m r of Some (e, r1) \<Rightarrow> e | None \<Rightarrow> None) msg (bus_api b) p of
             (e, target, p1) \<Rightarrow>
               (case (case target of None \<Rightarrow> Some r | Some n \<Rightarrow> map_option snd (receive n msg r)) of
                  None \<Rightarrow> None
                | Some r1 \<Rightarrow>
                    (case e of
                       None \<Rightarrow> Some ((None, target), b\<lparr>bus_responses := r1\<rparr>, p1)
                     | Some err \<Rightarrow>
                         map_option (\<lambda>r2. ((Some err, target), b\<lparr>bus_responses := r2\<rparr>, p1))
                           (responses_cancel (Handle msg) r1)))))"

definition bus_Response :: "message \<Rightarrow> bus \<Rightarrow> ((error option \<times> inode option) \<times> bus) option" where
  "bus_Response msg b =
     map_option (\<lambda>(e, target, r). ((e, target), b\<lparr>bus_responses := r\<rparr>))
       (responses_response msg (bus_responses b))"

section \<open>Reachable buses\<close>

inductive bus_reach :: "bus \<Rightarrow> bool" where
  new: "bus_reach bus_New"
| register: "\<lbrakk>bus_reach b; bus_Register n b = Some b'\<rbrakk> \<Longrightarrow> bus_reach b'"
| unregister: "\<lbrakk>bus_reach b; bus_Unregister n b = Some b'\<rbrakk> \<Longrightarrow> bus_reach b'"
| subscribe: "bus_reach b \<Longrightarrow> bus_reach (snd (bus_Subscribe cast topic b))"
| unsubscribe: "bus_reach b \<Longrightarrow> bus_reach (snd (bus_Unsubscribe cast topic b))"
| request: "\<lbrakk>bus_reach b; bus_Request permissions receive now1 now2 msg b (p :: Manager) = Some (r, b', p')\<rbrakk>
     \<Longrightarrow> bus_reach b'"
| response: "\<lbrakk>bus_reach b; bus_Response msg b = Some (r, b')\<rbrakk> \<Longrightarrow> bus_reach b'"

lemma bus_Request_parts:
  "bus_Request permissions receive now1 now2 msg b p = Some (r, b', p') \<Longrightarrow> \<exists>rs. b' = b\<lparr>bus_responses := rs\<rparr>"
  by (auto simp: bus_Request_def split: option.splits prod.splits)

lemma bus_reach_api: "bus_reach b \<Longrightarrow> api_inv (bus_api b)"
proof (induction rule: bus_reach.induct)
  case (request b permissions receive now1 now2 msg p r b' p')
  with bus_Request_parts[OF request(2)] show ?case by auto
qed (auto simp: bus_New_def api_inv_new bus_Register_def bus_Unregister_def bus_Subscribe_def
      bus_Unsubscribe_def bus_Response_def api_inv_register api_inv_unregister split: prod.splits)

lemma bus_Request_cases:
  assumes "bus_Request permissions receive now1 now2 msg b p = Some ((e, target), b', p')"
  obtains
    (refused) err where "responses_request now1 now2 msg (bus_responses b) = Some (Some err, bus_responses b')"
      "e = Some err" "target = None" "p' = p"
  | (routed) r r1 where "responses_request now1 now2 msg (bus_responses b) = Some (None, r)"
      "api_request permissions (\<lambda>n m. case receive n m r of Some (e, r1) \<Rightarrow> e | None \<Rightarrow> None)
         msg (bus_api b) p = (e, target, p')"
      "(case target of None \<Rightarrow> Some r | Some n \<Rightarrow> map_option snd (receive n msg r)) = Some r1"
      "if e = None then bus_responses b' = r1
       else responses_cancel (Handle msg) r1 = Some (bus_responses b')"
proof -
  obtain e0 r where rq: "responses_request now1 now2 msg (bus_responses b) = Some (e0, r)"
    using assms by (auto simp: bus_Request_def split: option.splits)
  show thesis
  proof (cases e0)
    case (Some err)
    with assms rq refused show ?thesis by (auto simp: bus_Request_def)
  next
    case None
    obtain e1 t1 p1 where ap: "api_request permissions
        (\<lambda>n m. case receive n m r of Some (e, r1) \<Rightarrow> e | None \<Rightarrow> None) msg (bus_api b) p = (e1, t1, p1)"
      by (metis surj_pair)
    obtain r1 where r1: "(case t1 of None \<Rightarrow> Some r | Some n \<Rightarrow> map_option snd (receive n msg r)) = Some r1"
      using assms rq None ap by (auto simp: bus_Request_def split: option.splits)
    have all: "e1 = e \<and> t1 = target \<and> p1 = p' \<and> (if e = None then bus_responses b' = r1
       else responses_cancel (Handle msg) r1 = Some (bus_responses b'))"
    proof (cases e1)
      case None
      with assms rq \<open>e0 = None\<close> ap r1 show ?thesis by (simp add: bus_Request_def) force
    next
      case (Some err)
      with assms rq None ap r1 show ?thesis by (simp add: bus_Request_def) force
    qed
    then have "e1 = e" "t1 = target" "p1 = p'" "if e = None then bus_responses b' = r1
       else responses_cancel (Handle msg) r1 = Some (bus_responses b')" by simp_all
    with rq None ap r1 routed show ?thesis by simp
  qed
qed

lemma responses_request_lock:
  "responses_request now1 now2 msg r = Some (e, r') \<Longrightarrow> \<not> rp_locked r'"
  by (auto simp: responses_request_def Let_def split: if_splits)

lemma handed_request_is_recorded:
  assumes "bus_Request permissions receive now1 now2 r b p = Some ((None, Some node), b1, p1)"
    "\<And>x. receive node r x = Some (None, x)"
  shows "responses_request now1 now2 r (bus_responses b) = Some (None, bus_responses b1)"
  using assms(1)
proof (cases rule: bus_Request_cases)
  case (routed r0 r1)
  then have "r1 = r0" "bus_responses b1 = r1" using assms(2) by simp_all
  with routed(1) show ?thesis by simp
qed simp

lemma bus_Request_delivered:
  assumes "bus_reach b"
    "bus_Request (Some (Can hyphae now)) receive now1 now2 msg b m = Some ((e, Some node), b', m')"
  shows "\<exists>f i. {g \<in> dom (a_commands (bus_api b)). dot_suffix (Capability msg) g} = {f} \<and>
           a_commands (bus_api b) f = Some i \<and> a_nodes (bus_api b) i = Some node \<and>
           authorised hyphae now m msg f"
  using assms(2)
proof (cases rule: bus_Request_cases)
  case (routed r r1)
  from gate.delivered_is_authorised[OF routed(2) bus_reach_api[OF assms(1)]] show ?thesis by blast
qed simp

lemma bus_Request_undelivered:
  assumes "bus_Request (Some (Can hyphae now)) receive now1 now2 msg b m = Some ((e, None), b', m')"
  shows "e \<noteq> None \<and> m' = m"
  using assms
proof (cases rule: bus_Request_cases)
  case (routed r r1)
  from gate.undelivered_keeps_gate[OF routed(2)] show ?thesis by simp
qed simp

text \<open>
  C8. Nothing reaches a node past the permission gate. On every reachable bus, when a request is
  handed to a node, then exactly one registered command has the requested name as its dot-suffix,
  the node is registered under the id that owns the command, and the permission manager's
  conditions for this sender and this fully qualified command held at that moment; a request that
  is not handed to a node comes back as an error and leaves the manager, and so every permit, as
  it was.
\<close>
theorem delivered_request_was_authorised:
  assumes "bus_reach b"
    "bus_Request (Some (Can hyphae now)) receive now1 now2 msg b m = Some ((e, target), b', m')"
  shows "case target of
      Some node \<Rightarrow> \<exists>f i. {g \<in> dom (a_commands (bus_api b)). dot_suffix (Capability msg) g} = {f} \<and>
           a_commands (bus_api b) f = Some i \<and> a_nodes (bus_api b) i = Some node \<and>
           authorised hyphae now m msg f
    | None \<Rightarrow> e \<noteq> None \<and> m' = m"
proof (cases target)
  case None
  with bus_Request_undelivered assms(2) show ?thesis by simp
next
  case (Some node)
  with bus_Request_delivered[OF assms(1)] assms(2) show ?thesis by simp
qed

text \<open>
  C29. A refused request holds nothing. When the bus returns an error for a request, the response
  table is as before if the handle was in use, and otherwise the handle is free again, so the same
  handle can be used at once for the next request.
\<close>
theorem failed_request_frees_its_handle:
  assumes "bus_Request permissions receive now1 now2 msg b p = Some ((Some err, target), b', p')"
  shows "(\<exists>res. bus_responses b' = bus_responses b \<and> ecode err = C_HandleInUse \<and>
                rp_responses (bus_responses b) (Handle msg) = Some res \<and> now1 < rt_expiresAt res) \<or>
         rp_responses (bus_responses b') (Handle msg) = None"
  using assms
proof (cases rule: bus_Request_cases)
  case (refused err')
  then show ?thesis
    by (auto simp: responses_request_def Let_def error_New_def split: if_splits option.splits)
next
  case (routed r r1)
  then have "responses_cancel (Handle msg) r1 = Some (bus_responses b')" by simp
  then have "bus_responses b' = r1\<lparr>rp_responses := (rp_responses r1)(Handle msg := None)\<rparr>"
    unfolding responses_cancel_def by (auto split: if_splits)
  then show ?thesis by simp
qed

section \<open>A concrete bus\<close>

definition command_node :: "nat \<Rightarrow> string \<Rightarrow> string \<Rightarrow> inode" where
  "command_node ptr i command =
     \<lparr>n_ptr = ptr, n_id = i, n_manifest = Some (empty_manifest\<lparr>m_Api :=
        [\<lparr>cm_Name = command, cm_Description = [], cm_Risk = [], cm_Usage = [], cm_Inputs = None,
          cm_Outputs = None, cm_Notes = None\<rparr>]\<rparr>), n_isWitness = False, n_connected = True\<rparr>"

definition busy_bus :: bus where
  "busy_bus = the (bus_Register (command_node 1 ''x'' ''open'') bus_New)"

definition answering :: receive_with where
  "answering n msg r = Some (None, r)"

definition open_request :: "string \<Rightarrow> string \<Rightarrow> message" where
  "open_request command h = MRequest \<lparr>rq_raw = [], rq_id = ''a'', rq_command = command,
     rq_args = (\<lambda>_. None), rq_flags = [], rq_handle = h\<rparr>"

lemma busy_bus_reach: "bus_reach busy_bus"
proof -
  have "bus_Register (command_node 1 ''x'' ''open'') bus_New = Some busy_bus"
    by (simp add: busy_bus_def bus_Register_def bus_New_def responses_register_def newResponses_def)
  with bus_reach.register[OF bus_reach.new] show ?thesis .
qed

lemma busy_bus_responses:
  "\<not> rp_locked (bus_responses busy_bus)" "rp_responses (bus_responses busy_bus) h = None"
  by (simp_all add: busy_bus_def bus_Register_def bus_New_def responses_register_def newResponses_def)

lemma busy_bus_lookup:
  assumes "Capability msg = ''open''"
  shows "api_lookup msg (bus_api busy_bus) = Inr (''x.open'', command_node 1 ''x'' ''open'')"
proof -
  have "bus_api busy_bus = api_register (command_node 1 ''x'' ''open'') newApi"
    by (simp add: busy_bus_def bus_Register_def bus_New_def responses_register_def newResponses_def)
  moreover have "idx_resolve (a_abbrevs (api_register (command_node 1 ''x'' ''open'') newApi)) ''open''
      = (''x.open'', [], True)"
    by code_simp
  ultimately show ?thesis
    by (simp add: api_lookup_def Let_def assms api_register_tables node_commands_def command_node_def)
qed

lemma open_request_simps:
  "Capability (open_request c h) = c" "Origin (open_request c h) = ''a''" "Handle (open_request c h) = h"
  by (simp_all add: open_request_def castIdentity_def CutByte_def)

definition open_manager :: Manager where
  "open_manager = (perm_New FileNotExist)\<lparr>pm_allowances := [''a'' \<mapsto> [''x.open'']]\<rparr>"

lemma open_manager_allows:
  assumes "Origin msg = ''a''"
  shows "Can None 0 msg ''x.open'' open_manager = ((True, None), open_manager)"
proof -
  have "standing_allowance open_manager ''a'' ''x.open''"
    by (simp add: open_manager_def standing_allowance_def allowances_of_def)
  with assms Can_standing[of "''x.open''" open_manager msg None 0] show ?thesis
    by (simp add: open_manager_def perm_New_def perm_load_def preauthorised_def capability_consts)
qed

text \<open>A request of node a for the one command of the busy bus.\<close>

lemma busy_bus_Request:
  assumes "Capability msg = ''open''" "Origin msg = ''a''"
  shows "\<exists>b'. bus_Request (Some (Can None 0)) answering 0 0 msg busy_bus open_manager
     = Some ((None, Some (command_node 1 ''x'' ''open'')), b', open_manager)"
  by (simp add: bus_Request_def api_request_def busy_bus_lookup[OF assms(1)] open_manager_allows[OF assms(2)]
      answering_def responses_request_def Let_def busy_bus_responses)

theorem delivered_request_was_authorised_witness:
  "authorised None 0 open_manager (open_request ''open'' ''h'') ''x.open''"
proof -
  let ?n = "command_node 1 ''x'' ''open''"
  obtain b' where r: "bus_Request (Some (Can None 0)) answering 0 0 (open_request ''open'' ''h'') busy_bus
      open_manager = Some ((None, Some ?n), b', open_manager)"
    using busy_bus_Request[of "open_request ''open'' ''h''"] by (auto simp: open_request_simps)
  from delivered_request_was_authorised[OF busy_bus_reach r] obtain f i where
    "a_commands (bus_api busy_bus) f = Some i" "authorised None 0 open_manager (open_request ''open'' ''h'') f"
    by auto
  moreover have "a_commands (bus_api busy_bus) f = (if f = ''x.open'' then Some ''x'' else None)" for f
    by (simp add: busy_bus_def bus_Register_def bus_New_def responses_register_def newResponses_def
        api_register_tables node_commands_def command_node_def newApi_def)
  ultimately show ?thesis by (simp split: if_splits)
qed

theorem failed_request_frees_its_handle_witness:
  "\<exists>err b'. bus_Request (Some (Can None 0)) answering 0 0 (open_request ''open'' ''h'') busy_bus
       (perm_New FileNotExist) = Some ((Some err, None), b', perm_New FileNotExist) \<and>
     rp_responses (bus_responses b') ''h'' = None"
proof -
  let ?m = "perm_New FileNotExist"
  have "Can None 0 (open_request ''open'' ''h'') ''x.open'' ?m = ((False, None), ?m)"
    by (simp add: Can_def Let_def standing_allowance_def allowances_of_def perm_New_def perm_load_def
        capability_consts open_request_def map_Arg_def)
  then obtain err b' where r: "bus_Request (Some (Can None 0)) answering 0 0 (open_request ''open'' ''h'')
      busy_bus ?m = Some ((Some err, None), b', ?m)"
    by (simp add: bus_Request_def api_request_def busy_bus_lookup[OF open_request_simps(1)] answering_def responses_cancel_def
        responses_request_def Let_def busy_bus_responses)
  have "rp_responses (bus_responses busy_bus) ''h'' = None" "Handle (open_request ''open'' ''h'') = ''h''"
    by (simp_all add: busy_bus_responses open_request_def)
  with failed_request_frees_its_handle[OF r] r show ?thesis by auto
qed

text \<open>
  A command belongs to whoever registered its spelling last. Ids and command names are joined
  with a dot and not kept apart, so a node whose id is the first part of another node's id can
  announce a command that spells the other node's: on every reachable bus, registering it moves the
  command to the new node, under the same capability for the permission manager, and requests for
  it no longer reach the node they were meant for; removing the new node then removes the command
  of the old one.
\<close>
lemma registration_takes_a_command_over:
  assumes "bus_reach b" "bus_Register n b = Some b1" "f \<in> set (node_commands n)"
    "a_commands (bus_api b) f = Some owner" "owner \<noteq> n_id n"
    "api_lookup msg (bus_api b1) = Inr (f, node)" "bus_Unregister n b1 = Some b2"
  shows "node = n \<and> a_commands (bus_api b2) f = None"
proof -
  have b1: "bus_api b1 = api_register n (bus_api b)"
    using assms(2) by (auto simp: bus_Register_def)
  have "api_inv (bus_api b1)"
    using b1 bus_reach_api[OF assms(1)] by (simp add: api_inv_register)
  from api_lookup_Inr[OF assms(6) this] assms(3) b1 have "node = n"
    by (auto simp: api_register_tables)
  moreover have "a_commands (bus_api b2) f = None"
    using assms(3,7) by (auto simp: bus_Unregister_def api_unregister_tables)
  ultimately show ?thesis ..
qed

lemma registration_takes_a_command_over_witness:
  "\<exists>b b1. bus_Register (command_node 1 ''x.y'' ''run'') bus_New = Some b \<and>
     bus_Register (command_node 2 ''x'' ''y.run'') b = Some b1 \<and>
     api_lookup (open_request ''run'' ''h'') (bus_api b1) = Inr (''x.y.run'', command_node 2 ''x'' ''y.run'')"
proof -
  let ?o = "command_node 1 ''x.y'' ''run''" and ?n = "command_node 2 ''x'' ''y.run''"
  obtain b where b: "bus_Register ?o bus_New = Some b" "bus_api b = api_register ?o newApi"
    "\<not> rp_locked (bus_responses b)"
    by (simp add: bus_Register_def bus_New_def responses_register_def newResponses_def)
  then obtain b1 where b1: "bus_Register ?n b = Some b1" "bus_api b1 = api_register ?n (bus_api b)"
    "\<not> rp_locked (bus_responses b1)"
    by (auto simp: bus_Register_def responses_register_def)
  obtain b2 where b2: "bus_Unregister ?n b1 = Some b2"
    using b1(3) by (auto simp: bus_Unregister_def responses_unregister_def)
  have r: "idx_resolve (a_abbrevs (api_register ?n (api_register ?o newApi))) ''run'' = (''x.y.run'', [], True)"
    by code_simp
  have cmds: "node_commands ?n = [''x.y.run'']" "node_commands ?o = [''x.y.run'']" "n_id ?n = ''x''"
    "n_id ?o = ''x.y''"
    by (simp_all add: node_commands_def command_node_def)
  have "api_lookup (open_request ''run'' ''h'') (bus_api b1) = Inr (''x.y.run'', ?n)"
    unfolding b1(2) b(2) api_lookup_def Let_def
    by (simp add: open_request_def r[simplified] api_register_tables cmds)
  with registration_takes_a_command_over[OF bus_reach.register[OF bus_reach.new b(1)] b1(1), of "''x.y.run''"
      "''x.y''" "open_request ''run'' ''h''" ?n b2] b b1 b2 cmds
  show ?thesis by (auto simp: api_register_tables)
qed

end
