(* ===== verification/Bus_Pipe.thy ===== *)
theory Bus_Pipe
  imports Bus Pipe_Split "HOL-Library.Word"
begin

text \<open>
  The pipe runner (spored/internal/bus/pipe.go): it runs the stages of a pipe message one after the
  other, feeds the arguments and flags of each response into the next stage, and lets the last
  stage answer the caller directly. What the runner does to the rest of the daemon is the list of
  its effects, in order; what comes back from the bus and from waiting is the environment, which
  may answer differently at every stage. \<open>pipeHandleIndex\<close> is 64 bits wide in the code and a
  natural number here.
\<close>

section \<open>Timeouts and handles\<close>

text \<open>\<open>time.Duration(seconds) * time.Second\<close>, a signed 64-bit product that wraps.\<close>

definition seconds_duration :: "int \<Rightarrow> int" where
  "seconds_duration seconds = sint ((word_of_int seconds :: 64 word) * 1000000000)"

text \<open>
  \<open>handleTimeout\<close>: the override, \<open>None\<close> for the default of the table, and the message without its
  timeout argument; or \<open>None\<close> when the argument is not a number of seconds.
\<close>

definition handleTimeout :: "ParsedMessage \<Rightarrow> (int option \<times> ParsedMessage) option" where
  "handleTimeout pm =
     (case pmArgs pm ''timeout'' of
        None \<Rightarrow> Some (None, pm)
      | Some raw \<Rightarrow>
          (let pm1 = pm\<lparr>pmArgs := (pmArgs pm)(''timeout'' := None)\<rparr> in
           if raw = ''false'' then Some (Some 0, pm1)
           else case Atoi raw of
                  None \<Rightarrow> None
                | Some seconds \<Rightarrow>
                    if seconds < 0 then None else Some (Some (seconds_duration seconds), pm1)))"

definition pipeHandle :: "nat \<Rightarrow> string \<times> nat" where
  "pipeHandle i = (''spore_pipe_'' @ show_nat (Suc i), Suc i)"

section \<open>One stage\<close>

datatype pipe_effect =
    PNodeReceive error
  | PWitness message
  | PBroadcast message
  | PAwait string
  | PRequest message
  | PWait string "int option"

text \<open>
  What the daemon answers: the bus's error for a broadcast or a request, the outcome of waiting, and
  the order in which the runtime iterates an argument map.
\<close>

record pipe_env =
  pe_broadcast :: "nat \<Rightarrow> message \<Rightarrow> error option"
  pe_request :: "nat \<Rightarrow> message \<Rightarrow> error option"
  pe_wait :: "nat \<Rightarrow> string \<Rightarrow> int option \<Rightarrow> error + message"
  pe_order :: "string gomap \<Rightarrow> string list"

record pipe_data =
  pi_args :: "string gomap"
  pi_flags :: "string list"
  pi_handles :: nat \<comment> \<open>pipeHandleIndex\<close>

text \<open>The arguments and flags collected so far, written into a stage's message.\<close>

definition add_flags :: "string list \<Rightarrow> string list \<Rightarrow> string list" where
  "add_flags news olds = fold (\<lambda>flag acc. if flag \<in> set acc then acc else acc @ [flag]) news olds"

definition feed_stage :: "pipe_data \<Rightarrow> ParsedMessage \<Rightarrow> ParsedMessage" where
  "feed_stage d pm = pm\<lparr>pmArgs := pmArgs pm ++ pi_args d, pmFlags := add_flags (pi_flags d) (pmFlags pm)\<rparr>"

definition pipe_error :: "code \<Rightarrow> string \<Rightarrow> out list \<Rightarrow> nat \<Rightarrow> string \<Rightarrow> string \<Rightarrow> pipe_effect" where
  "pipe_error c what first index raw complete =
     PNodeReceive (error_New c Mod_Pipe what
       (first @ [Pair ''index'' (show_nat index), Pair ''raw'' raw, Pair ''complete'' complete]))"

text \<open>
  The three kinds of stage. Each returns its effects and the data for the next stage, or \<open>None\<close> when
  the runner returns.
\<close>

definition witness_stage ::
  "pipe_env \<Rightarrow> string \<Rightarrow> ParsedMessage \<Rightarrow> pipe_data \<Rightarrow> pipe_effect list \<times> pipe_data option" where
  "witness_stage env cast pm d =
     (let body = (case pmArgs pm ''body'' of Some v \<Rightarrow> v | None \<Rightarrow> [])
      in ([PWitness (message_Node body cast)], Some d))"

definition publish_stage ::
  "c_parser \<Rightarrow> pipe_env \<Rightarrow> inode \<Rightarrow> string \<Rightarrow> nat \<Rightarrow> ParsedMessage \<Rightarrow> pipe_data \<Rightarrow>
     pipe_effect list \<times> pipe_data option" where
  "publish_stage cp env node complete index pm d =
     (let raw = Stringify pm (pe_order env (pmArgs pm));
          cast = n_id node;
          seen = PWitness (message_Incoming raw cast) in
      case message_Broadcast cp raw cast of
        None \<Rightarrow> ([seen, pipe_error C_Malformed ''failed to publish'' [Pair ''node'' cast] index raw complete], None)
      | Some broadcast \<Rightarrow>
          (let topic = Capability broadcast in
           if topic \<notin> set (case n_manifest node of Some man \<Rightarrow> TopicIds man | None \<Rightarrow> [])
           then ([seen, pipe_error C_NotPermitted ''topic not announced in the manifest''
                    [Pair ''topic'' topic, Pair ''node'' cast] index raw complete], None)
           else case pe_broadcast env index broadcast of
                  Some err \<Rightarrow> ([seen, PBroadcast broadcast, PNodeReceive err], None)
                | None \<Rightarrow> ([seen, PBroadcast broadcast], Some d)))"

text \<open>
  The response of a stage that is not the last: only a parsed response carries arguments and flags.
\<close>

definition take_response ::
  "nat \<Rightarrow> string \<Rightarrow> string \<Rightarrow> message \<Rightarrow> pipe_data \<Rightarrow> pipe_effect list \<times> pipe_data option" where
  "take_response index raw complete response d =
     (if FlagOf response ''error''
      then ([pipe_error C_Generic (ArgIf response ''what'' ''pipe response failure'') [] index raw complete], None)
      else case response of
             MResponse r \<Rightarrow>
               ([], Some (d\<lparr>pi_args := pi_args d ++ rs_args r, pi_flags := add_flags (rs_flags r) (pi_flags d)\<rparr>))
           | _ \<Rightarrow> ([pipe_error C_Generic ''pipe response does not provide arguments and flags'' []
                    index raw complete], None))"

definition await_stage ::
  "pipe_env \<Rightarrow> string \<Rightarrow> nat \<Rightarrow> string \<Rightarrow> int option \<Rightarrow> message \<Rightarrow> pipe_data \<Rightarrow>
     pipe_effect list \<times> pipe_data option" where
  "await_stage env complete index raw timeout request d =
     (let asked = [PAwait (Handle request), PRequest request] in
      case pe_request env index request of
        Some err \<Rightarrow> (asked @ [PNodeReceive err], None)
      | None \<Rightarrow>
          (let waited = asked @ [PWait (Handle request) timeout] in
           case pe_wait env index (Handle request) timeout of
             Inl err \<Rightarrow> (waited @ [PNodeReceive err], None)
           | Inr response \<Rightarrow>
               (case take_response index raw complete response d of
                  (effs, next) \<Rightarrow> (waited @ effs, next))))"

definition send_stage ::
  "c_parser \<Rightarrow> pipe_env \<Rightarrow> string \<Rightarrow> string \<Rightarrow> bool \<Rightarrow> nat \<Rightarrow> string \<Rightarrow> int option \<Rightarrow> pipe_data \<Rightarrow>
     pipe_effect list \<times> pipe_data option" where
  "send_stage cp env stageCast complete isLast index raw timeout d =
     (case message_Request cp raw stageCast of
        None \<Rightarrow> ([PWitness (message_Incoming raw stageCast),
                  pipe_error C_Malformed ''failed to parse request message'' [] index raw complete], None)
      | Some request \<Rightarrow>
          (case (if isLast
                 then (PRequest request #
                         (case pe_request env index request of Some err \<Rightarrow> [PNodeReceive err] | None \<Rightarrow> []), None)
                 else await_stage env complete index raw timeout request d) of
             (effs, next) \<Rightarrow> (PWitness (message_Incoming raw stageCast) # effs, next)))"

definition request_stage ::
  "c_parser \<Rightarrow> pipe_env \<Rightarrow> string \<Rightarrow> string \<Rightarrow> string \<Rightarrow> bool \<Rightarrow> nat \<Rightarrow> string \<Rightarrow> ParsedMessage \<Rightarrow> pipe_data \<Rightarrow>
     pipe_effect list \<times> pipe_data option" where
  "request_stage cp env cast origin complete isLast index raw0 pm d =
     (case handleTimeout pm of
        None \<Rightarrow> ([pipe_error C_Malformed ''invalid timeout argument'' [] index raw0 complete], None)
      | Some (timeout, pm1) \<Rightarrow>
          (case (if pmHandle pm1 = [] then pipeHandle (pi_handles d) else (pmHandle pm1, pi_handles d)) of
             (h, i) \<Rightarrow>
               (let pm2 = pm1\<lparr>pmHandle := h\<rparr>;
                    stageCast = (if isLast then cast else DelegatedCast (n_id pipe_inode) origin)
                in send_stage cp env stageCast complete isLast index
                     (Stringify pm2 (pe_order env (pmArgs pm2))) timeout (d\<lparr>pi_handles := i\<rparr>))))"

definition pipe_stage ::
  "c_parser \<Rightarrow> pipe_env \<Rightarrow> inode \<Rightarrow> string \<Rightarrow> string \<Rightarrow> bool \<Rightarrow> nat \<Rightarrow> string \<Rightarrow> pipe_data \<Rightarrow>
     pipe_effect list \<times> pipe_data option" where
  "pipe_stage cp env node origin complete isLast index raw0 d =
     (let raw = TrimSpace raw0; fail = (\<lambda>c what. ([pipe_error c what [] index raw complete], None)) in
      if raw = [] then fail C_Empty ''empty pipe segment''
      else if IsPipe raw then fail C_Malformed ''nested pipe parsing failure''
      else if HasPrefix raw ''~'' then fail C_Malformed ''unexpected response in pipe''
      else case Parse cp raw of
             ParseFail e \<Rightarrow>
               ((case e of Some err \<Rightarrow> [PWitness (MError err)] | None \<Rightarrow> []) @
                  [pipe_error C_Malformed ''failed to parse witness message'' [] index raw complete], None)
           | ParseOk pm0 \<Rightarrow>
               (let pm = feed_stage d pm0 in
                if HasPrefix raw ''witness'' then witness_stage env (n_id node) pm d
                else if HasPrefix raw ''publish'' then publish_stage cp env node complete index pm d
                else request_stage cp env (n_id node) origin complete isLast index raw pm d))"

text \<open>
  The loop over the stages, by the index of the next one. A pipe message answers an index it does not
  have with the reason, and the loop ends.
\<close>

lemma pipe_Arg_index:
  "pipe_Arg p (show_nat index) = (raw, True) \<Longrightarrow> index < length (pm_parts p)"
proof -
  assume a: "pipe_Arg p (show_nat index) = (raw, True)"
  have "show_nat index \<noteq> ''raw''" "show_nat index \<noteq> ''cast''"
    using hd_show_nat_digit[of index] by (auto simp: is_digit_def)
  with a show ?thesis
    by (auto simp: pipe_Arg_def split: option.splits if_splits dest!: Atoi_show_natD)
qed

function pipe_loop ::
  "c_parser \<Rightarrow> pipe_env \<Rightarrow> inode \<Rightarrow> pipe_msg \<Rightarrow> nat \<Rightarrow> pipe_data \<Rightarrow> pipe_effect list" where
  "pipe_loop cp env node p index d =
     (case pipe_Arg p (show_nat index) of
        (reason, False) \<Rightarrow>
          if reason = ''bad-key'' then [PNodeReceive (error_New C_Malformed Mod_Pipe ''bad key in pipe'' [])]
          else if reason = ''low-index''
          then [PNodeReceive (error_New C_Malformed Mod_Pipe ''low index in pipe'' [])]
          else []
      | (raw, True) \<Rightarrow>
          (case pipe_stage cp env node (Origin (MPipe p)) (fst (pipe_Arg p ''raw''))
                  (\<not> snd (pipe_Arg p (show_nat (Suc index)))) (Suc index) raw d of
             (effs, None) \<Rightarrow> effs
           | (effs, Some d1) \<Rightarrow> effs @ pipe_loop cp env node p (Suc index) d1))"
  by pat_completeness auto
termination
  by (relation "measure (\<lambda>(cp, env, node, p, index, d). length (pm_parts p) - index)")
    (auto dest!: pipe_Arg_index[OF sym] intro: diff_less_mono2)

declare pipe_loop.simps [simp del]

definition pipe_run :: "c_parser \<Rightarrow> pipe_env \<Rightarrow> inode \<Rightarrow> nat \<Rightarrow> pipe_msg \<Rightarrow> pipe_effect list" where
  "pipe_run cp env node handles p =
     pipe_loop cp env node p 0 \<lparr>pi_args = (\<lambda>_. None), pi_flags = [], pi_handles = handles\<rparr>"

section \<open>Lemmas\<close>

text \<open>What every stage does: it reports an error only as its last effect, and then it stops.\<close>

definition is_report :: "pipe_effect \<Rightarrow> bool" where
  "is_report e \<longleftrightarrow> (\<exists>err. e = PNodeReceive err)"

definition reports_last :: "pipe_effect list \<Rightarrow> bool" where
  "reports_last effs \<longleftrightarrow> (\<forall>e \<in> set (butlast effs). \<not> is_report e)"

definition silent :: "pipe_effect list \<Rightarrow> bool" where
  "silent effs \<longleftrightarrow> (\<forall>e \<in> set effs. \<not> is_report e)"

definition stage_ok :: "pipe_effect list \<times> pipe_data option \<Rightarrow> bool" where
  "stage_ok r \<longleftrightarrow> (case r of (effs, None) \<Rightarrow> reports_last effs | (effs, Some _) \<Rightarrow> silent effs)"

lemmas report_defs = stage_ok_def reports_last_def silent_def is_report_def

lemma reports_last_append: "\<lbrakk>silent xs; reports_last ys\<rbrakk> \<Longrightarrow> reports_last (xs @ ys)"
  by (auto simp: report_defs butlast_append dest: in_set_butlastD)

lemma stage_ok_append: "\<lbrakk>silent xs; stage_ok (effs, next)\<rbrakk> \<Longrightarrow> stage_ok (xs @ effs, next)"
  by (cases "next") (auto simp: stage_ok_def silent_def reports_last_append)

lemma witness_stage_ok: "stage_ok (witness_stage env cast pm d)"
  by (simp add: report_defs witness_stage_def)

lemma publish_stage_ok: "stage_ok (publish_stage cp env node complete index pm d)"
  by (auto simp: report_defs publish_stage_def Let_def split: option.splits)

lemma take_response_ok: "stage_ok (take_response index raw complete response d)"
  by (auto simp: report_defs take_response_def split: message.splits)

lemma stage_ok_Cons: "\<lbrakk>\<not> is_report e; stage_ok (effs, next)\<rbrakk> \<Longrightarrow> stage_ok (e # effs, next)"
  using stage_ok_append[of "[e]" effs "next"] by (simp add: silent_def)

lemma await_stage_ok: "stage_ok (await_stage env complete index raw timeout request d)"
proof (cases "pe_request env index request")
  case (Some err)
  then show ?thesis by (simp add: await_stage_def report_defs)
next
  case None
  show ?thesis
  proof (cases "pe_wait env index (Handle request) timeout")
    case (Inl err)
    with None show ?thesis by (simp add: await_stage_def Let_def report_defs)
  next
    case (Inr response)
    obtain effs nx where t: "take_response index raw complete response d = (effs, nx)"
      by (metis surj_pair)
    have "stage_ok (effs, nx)" using take_response_ok t by metis
    with None Inr t show ?thesis
      by (simp add: await_stage_def Let_def stage_ok_Cons is_report_def)
  qed
qed

lemma send_stage_ok: "stage_ok (send_stage cp env stageCast complete isLast index raw timeout d)"
proof (cases "message_Request cp raw stageCast")
  case None
  then show ?thesis by (simp add: send_stage_def report_defs pipe_error_def)
next
  case (Some request)
  obtain effs nx where a: "await_stage env complete index raw timeout request d = (effs, nx)"
    by (metis surj_pair)
  have "stage_ok (effs, nx)" using await_stage_ok a by metis
  with Some a show ?thesis
    by (cases isLast; cases "pe_request env index request")
      (simp_all add: send_stage_def stage_ok_Cons is_report_def, simp_all add: report_defs)
qed

lemma request_stage_ok: "stage_ok (request_stage cp env cast origin complete isLast index raw pm d)"
  by (auto simp: request_stage_def Let_def send_stage_ok split: option.split prod.split)
    (simp add: report_defs pipe_error_def)

lemma pipe_stage_ok: "stage_ok (pipe_stage cp env node origin complete isLast index raw d)"
proof -
  have "stage_ok ([PWitness e, pipe_error c w f i r co], None)" "stage_ok ([pipe_error c w f i r co], None)"
    for e c w f i r co
    by (simp_all add: report_defs)
  then show ?thesis
    by (auto simp: pipe_stage_def Let_def witness_stage_ok publish_stage_ok request_stage_ok
        split: parse_result.split option.split)
qed

lemma pipe_loop_reports_last: "reports_last (pipe_loop cp env node p index d)"
proof (induction cp env node p index d rule: pipe_loop.induct)
  case (1 cp env node p index d)
  obtain raw ok where arg: "pipe_Arg p (show_nat index) = (raw, ok)" by (metis surj_pair)
  show ?case
  proof (cases ok)
    case False
    with arg show ?thesis by (subst pipe_loop.simps) (simp add: report_defs)
  next
    case True
    obtain effs nx where st: "pipe_stage cp env node (Origin (MPipe p)) (fst (pipe_Arg p ''raw''))
        (\<not> snd (pipe_Arg p (show_nat (Suc index)))) (Suc index) raw d = (effs, nx)"
      by (metis surj_pair)
    have ok: "stage_ok (effs, nx)" using pipe_stage_ok st by metis
    show ?thesis
    proof (cases nx)
      case None
      with arg True st ok show ?thesis by (subst pipe_loop.simps) (simp add: stage_ok_def)
    next
      case (Some d1)
      with arg True st have "reports_last (pipe_loop cp env node p (Suc index) d1)"
        by (intro "1.IH"[OF arg[symmetric] _ st[symmetric]]) simp_all
      with arg True st ok Some show ?thesis
        by (subst pipe_loop.simps) (simp add: stage_ok_def reports_last_append)
    qed
  qed
qed

section \<open>Who a pipe acts for\<close>

definition asks_as :: "string \<Rightarrow> pipe_effect list \<Rightarrow> bool" where
  "asks_as cast effs \<longleftrightarrow> (\<forall>r. PRequest r \<in> set effs \<longrightarrow> (\<exists>q. r = MRequest q \<and> rq_id q = cast))"

lemma message_Request_id: "message_Request cp raw cast = Some r \<Longrightarrow> \<exists>q. r = MRequest q \<and> rq_id q = cast"
  by (auto simp: message_build_defs split: parse_result.splits if_splits)

lemma take_response_asks: "asks_as cast (fst (take_response index raw complete response d))"
  by (simp add: take_response_def asks_as_def pipe_error_def split: message.split)

lemma send_stage_asks: "asks_as cast (fst (send_stage cp env cast complete isLast index raw timeout d))"
proof (cases "message_Request cp raw cast")
  case None
  then show ?thesis by (simp add: send_stage_def asks_as_def pipe_error_def)
next
  case (Some request)
  have t: "PRequest r \<notin> set (fst (take_response index raw complete response d))" for r response
    by (simp add: take_response_def pipe_error_def split: message.split)
  have "PRequest r \<in> set (fst (await_stage env complete index raw timeout request d)) \<Longrightarrow> r = request" for r
    using t by (auto simp: await_stage_def Let_def split: option.splits sum.splits prod.splits)
      (metis fst_conv)
  then have "asks_as cast (fst (await_stage env complete index raw timeout request d))"
    using message_Request_id[OF Some] unfolding asks_as_def by blast
  moreover have "asks_as cast (PRequest request # (case e of Some err \<Rightarrow> [PNodeReceive err] | None \<Rightarrow> []))" for e
    using message_Request_id[OF Some] by (auto simp: asks_as_def split: option.split)
  ultimately show ?thesis
    using Some by (auto simp: send_stage_def asks_as_def split: prod.splits)
qed

lemma pipe_stage_asks:
  "asks_as (if isLast then n_id node else DelegatedCast (n_id pipe_inode) origin)
     (fst (pipe_stage cp env node origin complete isLast index raw d))"
proof -
  have r: "asks_as (if isLast then cast else DelegatedCast (n_id pipe_inode) origin)
      (fst (request_stage cp env cast origin complete isLast index raw pm d))" for cast raw pm
    by (auto simp: request_stage_def Let_def send_stage_asks split: option.split prod.split)
      (simp_all add: asks_as_def pipe_error_def)
  have "asks_as c (fst (witness_stage env cast pm d))" for c cast pm
    by (simp add: asks_as_def witness_stage_def)
  moreover have "asks_as c (fst (publish_stage cp env node complete index pm d))" for c pm
    by (auto simp: asks_as_def publish_stage_def Let_def pipe_error_def split: option.split)
  moreover have "asks_as c (PWitness e # [pipe_error co w f i ra cm])" "asks_as c [pipe_error co w f i ra cm]"
    for c e co w f i ra cm
    by (simp_all add: asks_as_def pipe_error_def)
  ultimately show ?thesis
    using r by (auto simp: pipe_stage_def Let_def split: parse_result.split option.split)
qed

lemma pipe_loop_asks:
  "PRequest r \<in> set (pipe_loop cp env node p index d) \<Longrightarrow>
     \<exists>q. r = MRequest q \<and> rq_id q \<in> {n_id node, DelegatedCast (n_id pipe_inode) (Origin (MPipe p))}"
proof (induction cp env node p index d rule: pipe_loop.induct)
  case (1 cp env node p index d)
  obtain raw ok where arg: "pipe_Arg p (show_nat index) = (raw, ok)" by (metis surj_pair)
  let ?last = "\<not> snd (pipe_Arg p (show_nat (Suc index)))"
  have ok: ok
    using "1.prems" arg by (cases ok) (simp_all add: pipe_loop.simps[of cp env node p index] split: if_splits)
  obtain effs nx where st: "pipe_stage cp env node (Origin (MPipe p)) (fst (pipe_Arg p ''raw''))
      ?last (Suc index) raw d = (effs, nx)" by (metis surj_pair)
  have "asks_as (if ?last then n_id node else DelegatedCast (n_id pipe_inode) (Origin (MPipe p))) effs"
    using pipe_stage_asks[of ?last node "Origin (MPipe p)" cp env "fst (pipe_Arg p ''raw'')" "Suc index" raw d] st
    by simp
  then have here: ?case if "PRequest r \<in> set effs"
    using that by (auto simp: asks_as_def split: if_splits)
  show ?case
  proof (cases nx)
    case None
    with arg ok st "1.prems" have "PRequest r \<in> set effs" by (subst (asm) pipe_loop.simps) simp
    then show ?thesis by (rule here)
  next
    case (Some d1)
    with arg ok st "1.prems" consider "PRequest r \<in> set effs"
      | "PRequest r \<in> set (pipe_loop cp env node p (Suc index) d1)"
      by (subst (asm) pipe_loop.simps) auto
    then show ?thesis
    proof cases
      case 2
      with arg ok st Some show ?thesis by (intro "1.IH"[OF arg[symmetric] _ st[symmetric]]) simp_all
    qed (rule here)
  qed
qed


text \<open>
  C30. A pipe reports at most one failure to its caller, and stops there: after an error has been
  handed to the node, the runner sends nothing more to anyone, whichever stage failed and why.
\<close>
theorem pipe_stops_at_the_first_failure:
  assumes "pipe_run cp env node handles p = xs @ PNodeReceive err # ys"
  shows "ys = []"
proof (rule ccontr)
  assume "ys \<noteq> []"
  then have "PNodeReceive err \<in> set (butlast (pipe_run cp env node handles p))"
    by (simp add: assms butlast_append)
  with pipe_loop_reports_last[of cp env node p 0] show False
    by (auto simp: pipe_run_def reports_last_def is_report_def)
qed

text \<open>
  A timeout argument in seconds is exact up to 9223372036 and wrong beyond: the duration is a
  signed 64-bit count of nanoseconds and the product wraps. At 9223372037 seconds it is negative,
  which the waiting table takes for no limit at all, so the stage can wait for ever.
\<close>
lemma timeout_argument_wraps:
  assumes "pmArgs pm ''timeout'' = Some (show_nat n)" "int n < 2 ^ 63"
  shows "(\<exists>pm1. handleTimeout pm = Some (Some (seconds_duration (int n)), pm1) \<and>
                pmArgs pm1 ''timeout'' = None) \<and>
         (seconds_duration (int n) = int n * 1000000000 \<longleftrightarrow> n \<le> 9223372036) \<and>
         effective_timeout tbl (Some (seconds_duration 9223372037)) < 0"
proof -
  have "show_nat n \<noteq> ''false''"
    using hd_show_nat_digit[of n] by (auto simp: is_digit_def)
  then have h: "\<exists>pm1. handleTimeout pm = Some (Some (seconds_duration (int n)), pm1) \<and>
                pmArgs pm1 ''timeout'' = None"
    using assms by (simp add: handleTimeout_def Atoi_show_nat Let_def)
  have "(word_of_int s :: 64 word) * 1000000000 = word_of_int (s * 1000000000)" for s
    by simp
  then have sd: "seconds_duration s = signed_take_bit 63 (s * 1000000000)" for s
    unfolding seconds_duration_def by (simp only: sint_sbintrunc') simp
  have "seconds_duration (int n) = int n * 1000000000 \<longleftrightarrow> n \<le> 9223372036"
    unfolding sd by (auto simp: signed_take_bit_int_eq_self_iff)
  with h show ?thesis by (simp add: effective_timeout_def sd signed_take_bit_def)
qed

section \<open>Concrete runs\<close>

definition quiet_env :: pipe_env where
  "quiet_env = \<lparr>pe_broadcast = (\<lambda>_ _. None), pe_request = (\<lambda>_ _. None),
     pe_wait = (\<lambda>_ h _. Inr (MResponse \<lparr>rs_raw = [], rs_id = ''x'', rs_command = ''open'',
        rs_args = [''k'' \<mapsto> ''v''], rs_flags = [''ok''], rs_handle = h\<rparr>)),
     pe_order = (\<lambda>_. [''k''])\<rparr>"

definition open_parser :: c_parser where
  "open_parser raw validate = Some \<lparr>c_error = None, c_type = TypeRequest, c_capability = Some ''open'',
     c_handle = Some ''h'', c_args = [], c_flags = []\<rparr>"

definition two_stages :: pipe_msg where
  "two_stages = \<lparr>pm_id = ''a'', pm_raw = ''x | y'', pm_parts = [''x'', ''y'']\<rparr>"

definition two_stage_run :: "pipe_effect list" where
  "two_stage_run = pipe_run open_parser quiet_env (command_node 1 ''a'' ''c'') 0 two_stages"

lemma two_stage_run_requests:
  "list_ex (\<lambda>e. case e of PRequest r \<Rightarrow> Actor r = ''SPORE.pipe'' \<and> Origin r = ''a'' | _ \<Rightarrow> False) two_stage_run"
  by code_simp


lemma empty_stage_run:
  "\<exists>err. pipe_run open_parser quiet_env (command_node 1 ''a'' ''c'') 0
     (two_stages\<lparr>pm_parts := ['' '', ''y'']\<rparr>) = [PNodeReceive err]"
proof -
  let ?p = "two_stages\<lparr>pm_parts := ['' '', ''y'']\<rparr>"
  have a: "pipe_Arg ?p (show_nat 0) = ('' '', True)" by code_simp
  have t: "TrimSpace '' '' = []" by code_simp
  show ?thesis
    unfolding pipe_run_def
    by (subst pipe_loop.simps) (simp only: a prod.case bool.case,
        simp add: pipe_stage_def t Let_def pipe_error_def)
qed

theorem pipe_stops_at_the_first_failure_witness:
  "\<exists>err ys. pipe_run open_parser quiet_env (command_node 1 ''a'' ''c'') 0
     (two_stages\<lparr>pm_parts := ['' '', ''y'']\<rparr>) = [] @ PNodeReceive err # ys \<and> ys = []"
proof -
  obtain err ys where r: "pipe_run open_parser quiet_env (command_node 1 ''a'' ''c'') 0
     (two_stages\<lparr>pm_parts := ['' '', ''y'']\<rparr>) = [] @ PNodeReceive err # ys"
    using empty_stage_run by auto
  from pipe_stops_at_the_first_failure[OF r] r show ?thesis by blast
qed

lemma timeout_argument_wraps_witness:
  "\<exists>pm1. handleTimeout \<lparr>pmType = TypeRequest, pmCommand = ''open'', pmHandle = ''h'',
       pmArgs = [''timeout'' \<mapsto> show_nat 9223372037], pmFlags = []\<rparr> =
     Some (Some (seconds_duration 9223372037), pm1) \<and> seconds_duration 9223372037 < 0"
  using timeout_argument_wraps[of "\<lparr>pmType = TypeRequest, pmCommand = ''open'', pmHandle = ''h'',
       pmArgs = [''timeout'' \<mapsto> show_nat 9223372037], pmFlags = []\<rparr>" 9223372037]
  by (auto simp: effective_timeout_def)

end
