(* ===== verification/Node_IO.thy ===== *)
theory Node_IO
  imports Outs
begin

text \<open>
  The framing of messages on a node's connection (spored/internal/nodes: \<open>readMessage\<close> of node.go,
  writer.go). What the reader hands up is a list of raw reads: a line with its newline, the end of
  the connection, or another failure (whether it ends the connection for good, whether it can be
  retried, and its text). \<open>None\<close> is a read that is still waiting for input.
\<close>

datatype raw_read = RawLine string | RawClosed | RawFailure bool bool string

datatype readStatus = readOK | readClosed | readFailure bool bool string

definition read_line :: "string \<Rightarrow> string" where
  "read_line raw = TrimSuffix (TrimSuffix raw [NL]) [CR]"

definition closes_block :: "string \<Rightarrow> bool" where
  "closes_block currentLine \<longleftrightarrow> currentLine = ''>>'' \<or> HasPrefix currentLine ''>> ''"

text \<open>\<open>line\<close> is the text collected so far; it survives an empty message but is overwritten then.\<close>

fun readLoop :: "bool \<Rightarrow> string \<Rightarrow> raw_read list \<Rightarrow> (readStatus \<times> string \<times> raw_read list) option" where
  "readLoop multiline line [] = None"
| "readLoop multiline line (RawClosed # rs) = Some (readClosed, [], rs)"
| "readLoop multiline line (RawFailure terminal retryable e # rs) =
     Some (readFailure terminal retryable e, [], rs)"
| "readLoop multiline line (RawLine raw # rs) =
     (let currentLine = read_line raw in
      if \<not> multiline \<and> Contains currentLine ''<<'' then readLoop True (currentLine @ [NL]) rs
      else if multiline \<and> \<not> closes_block currentLine then readLoop True (line @ currentLine @ [NL]) rs
      else if multiline \<and> Contains currentLine ''<<'' then readLoop True (line @ currentLine) rs
      else
        let line1 = TrimSpace (if multiline then line @ currentLine else currentLine) in
        if line1 = [] then readLoop False [] rs else Some (readOK, line1, rs))"

definition readMessage :: "raw_read list \<Rightarrow> (readStatus \<times> string \<times> raw_read list) option" where
  "readMessage rs = readLoop False [] rs"

lemma readLoop_consumes: "readLoop multiline line rs = Some (st, raw, rs') \<Longrightarrow> length rs' < length rs"
proof (induction multiline line rs rule: readLoop.induct)
  case (4 multiline line raw' rs)
  then show ?case by (fastforce simp: Let_def split: if_splits)
qed auto

lemma readMessage_consumes: "readMessage rs = Some (st, raw, rs') \<Longrightarrow> length rs' < length rs"
  unfolding readMessage_def by (rule readLoop_consumes)

text \<open>What the writer puts on the connection for one message, and the lines a reader sees of it.\<close>

definition write_frame :: "string \<Rightarrow> string" where
  "write_frame s = s @ [NL]"

definition frame_reads :: "string \<Rightarrow> raw_read list" where
  "frame_reads s = map (\<lambda>l. RawLine (l @ [NL])) (SplitByte s NL)"

lemma frame_reads_text:
  "concat (map (\<lambda>r. case r of RawLine l \<Rightarrow> l | _ \<Rightarrow> []) (frame_reads s)) = write_frame s"
proof -
  have "concat (map (\<lambda>l. l @ [NL]) ls) = Join ls [NL] @ [NL]" if "ls \<noteq> []" for ls
    using that by (induction ls rule: induct_list012) auto
  from this[of "SplitByte s NL"] show ?thesis
    by (simp add: frame_reads_def write_frame_def comp_def)
qed

section \<open>Which texts survive framing\<close>

text \<open>
  One line without an opening mark, or a block: the first line opens it, the lines inside do not
  close it, and the last one closes it and opens no other.
\<close>

definition one_line :: "string list \<Rightarrow> bool" where
  "one_line ls \<longleftrightarrow> (\<exists>l. ls = [l] \<and> \<not> Contains l ''<<'')"

definition one_block :: "string list \<Rightarrow> bool" where
  "one_block ls \<longleftrightarrow> (\<exists>l mid c. ls = l # mid @ [c] \<and> Contains l ''<<'' \<and>
     (\<forall>x \<in> set mid. \<not> closes_block x) \<and> closes_block c \<and> \<not> Contains c ''<<'')"

definition framed :: "string \<Rightarrow> bool" where
  "framed s \<longleftrightarrow> (one_line (SplitByte s NL) \<or> one_block (SplitByte s NL)) \<and> TrimSpace s \<noteq> [] \<and>
     (\<forall>l \<in> set (SplitByte s NL). \<not> HasSuffix l [CR])"

lemma read_line_written: "\<not> HasSuffix l [CR] \<Longrightarrow> read_line (l @ [NL]) = l"
  by (simp add: read_line_def TrimSuffix_def HasSuffix_def)

lemma readLoop_inside:
  "\<forall>x \<in> set mid. \<not> closes_block x \<and> \<not> HasSuffix x [CR] \<Longrightarrow>
     readLoop True line (map (\<lambda>l. RawLine (l @ [NL])) mid @ rs) =
       readLoop True (line @ concat (map (\<lambda>x. x @ [NL]) mid)) rs"
  by (induction mid arbitrary: line) (simp_all add: read_line_written Let_def)

lemma Join_lines:
  "Join (l # mid @ [c]) [NL] = l @ [NL] @ concat (map (\<lambda>x. x @ [NL]) mid) @ c"
  by (induction mid arbitrary: l) (simp_all add: Join_Cons)

text \<open>
  C28. What is written is what is read: when a text that fits the framing is written, the next
  message a reader gets is that text without the white space around it, and the rest of the stream
  is left for the next message. One-line texts fit unless they contain the opening mark; a text
  with one block value fits when no line of the value looks like the closing mark.
\<close>
theorem written_message_is_read_back:
  assumes "framed s"
  shows "readMessage (frame_reads s @ rest) = Some (readOK, TrimSpace s, rest)"
proof -
  let ?ls = "SplitByte s NL"
  have s: "s = Join ?ls [NL]" by simp
  have cr: "\<forall>l \<in> set ?ls. \<not> HasSuffix l [CR]" and ne: "TrimSpace s \<noteq> []"
    using assms by (auto simp: framed_def)
  from assms consider (one) "one_line ?ls" | (block) "one_block ?ls" by (auto simp: framed_def)
  then show ?thesis
  proof cases
    case one
    then obtain l where l: "?ls = [l]" "\<not> Contains l ''<<''" by (auto simp: one_line_def)
    with s cr have "s = l" "\<not> HasSuffix l [CR]" by simp_all
    with l ne show ?thesis
      by (simp add: readMessage_def frame_reads_def read_line_written Let_def)
  next
    case block
    then obtain l mid c where b: "?ls = l # mid @ [c]" "Contains l ''<<''"
      "\<forall>x \<in> set mid. \<not> closes_block x" "closes_block c" "\<not> Contains c ''<<''"
      by (auto simp: one_block_def)
    have reads: "frame_reads s @ rest = RawLine (l @ [NL]) #
        (map (\<lambda>l. RawLine (l @ [NL])) mid @ RawLine (c @ [NL]) # rest)"
      by (simp add: frame_reads_def b(1))
    have whole: "s = l @ [NL] @ concat (map (\<lambda>x. x @ [NL]) mid) @ c"
      using s unfolding b(1) Join_lines by simp
    have cr': "\<not> HasSuffix l [CR]" "\<not> HasSuffix c [CR]" "\<forall>x \<in> set mid. \<not> closes_block x \<and> \<not> HasSuffix x [CR]"
      using cr b(1,3) by auto
    show ?thesis
      unfolding readMessage_def reads
      using b(2,4,5) cr' ne
      by (simp add: read_line_written Let_def readLoop_inside[OF cr'(3)] whole)
  qed
qed

theorem written_message_is_read_back_witness:
  "(\<exists>s. framed s \<and> Contains s ''<<'' \<and>
     readMessage (frame_reads s @ [RawClosed]) = Some (readOK, TrimSpace s, [RawClosed]))"
proof -
  let ?s = "''~h:c '' @ out_String (Pair ''out'' (''a'' @ [NL] @ ''b'')) @ '' ok''"
  have "SplitByte ?s NL = [''~h:c out=<<'', ''a'', ''b'', ''>> ok'']" by code_simp
  moreover have "TrimSpace ?s \<noteq> []" by code_simp
  moreover have "Contains ''~h:c out=<<'' ''<<''" "\<not> Contains ''>> ok'' ''<<''" by code_simp+
  ultimately have "framed ?s"
    by (auto simp: framed_def one_block_def closes_block_def HasPrefix_def HasSuffix_def suffix_def
        append_eq_Cons_conv)
  moreover have "Contains ?s ''<<''" by code_simp
  ultimately show ?thesis using written_message_is_read_back[of ?s "[RawClosed]"] by blast
qed

text \<open>
  Two block values in one message do not survive. A line that closes one block and opens the
  next is joined to the following line without its newline, so the message the daemon itself would
  render for two values of several lines comes back as a different text.
\<close>
lemma second_block_loses_its_newline:
  "\<exists>s t. s = ''~h:c '' @ out_String (Pair ''a'' (''1'' @ [NL] @ ''2'')) @ '' '' @
               out_String (Pair ''b'' (''3'' @ [NL] @ ''4'')) @ '' ok''
     \<and> readMessage (frame_reads s) = Some (readOK, t, []) \<and> t \<noteq> TrimSpace s
     \<and> ReplaceByte NL [] t = ReplaceByte NL [] (TrimSpace s)"
proof -
  let ?s = "''~h:c '' @ out_String (Pair ''a'' (''1'' @ [NL] @ ''2'')) @ '' '' @
               out_String (Pair ''b'' (''3'' @ [NL] @ ''4'')) @ '' ok''"
  let ?t = "''~h:c a=<<'' @ [NL] @ ''1'' @ [NL] @ ''2'' @ [NL] @ ''>> b=<<3'' @ [NL] @ ''4'' @ [NL] @ ''>> ok''"
  have "readMessage (frame_reads ?s) = Some (readOK, ?t, [])" by code_simp
  moreover have "?t \<noteq> TrimSpace ?s" by code_simp
  moreover have "ReplaceByte NL [] ?t = ReplaceByte NL [] (TrimSpace ?s)" by code_simp
  ultimately show ?thesis by blast
qed

end
