(* ===== verification/Node_Listen.thy ===== *)
theory Node_Listen
  imports Node_IO Bus_Pipe
begin

text \<open>
  The read loop of a connected node (spored/internal/nodes/node.go, \<open>listen\<close>): every message the
  node sends is held back until the binary is verified, except two kinds, and then handed to the
  bus by its first characters. What the loop does is the list of its effects; what the bus and the
  node itself answer is the environment.
\<close>

fun first_field :: "string \<Rightarrow> string" where
  "first_field [] = []"
| "first_field (c # s) = (if lead_space (c # s) \<noteq> None then [] else c # first_field s)"

text \<open>What passes before the verification is done: \<open>strings.Fields(raw)[0]\<close> decides.\<close>

definition passes_unverified :: "string \<Rightarrow> bool" where
  "passes_unverified raw \<longleftrightarrow> HasPrefix raw ''~'' \<or> Contains (first_field raw) ''.binary.hash''"

datatype listen_effect =
    LWitness message
  | LPipe message
  | LBroadcast message
  | LResponse message
  | LRequest message
  | LReceive error
  | LClose

text \<open>
  \<open>le_verified\<close> is what waiting for the verification returns; the others are the results of the
  bus operations and of the node's own \<open>Receive\<close>.
\<close>

record listen_env =
  le_verified :: bool
  le_broadcast :: "message \<Rightarrow> error option"
  le_response :: "message \<Rightarrow> error option"
  le_request :: "message \<Rightarrow> error option"
  le_receive :: "error \<Rightarrow> error option"

definition listen_failed :: "string \<Rightarrow> string \<Rightarrow> string \<Rightarrow> listen_effect" where
  "listen_failed what i raw =
     LWitness (MError (error_New C_Malformed Mod_Node what [Pair ''node'' i, Pair ''raw'' raw]))"

text \<open>An error goes back to the node; when that fails too it goes to the witnesses.\<close>

definition report_back :: "listen_env \<Rightarrow> error option \<Rightarrow> listen_effect list" where
  "report_back env err =
     (case err of
        None \<Rightarrow> []
      | Some e \<Rightarrow> LReceive e # (case le_receive env e of Some e' \<Rightarrow> [LWitness (MError e')] | None \<Rightarrow> []))"

definition listen_publish :: "c_parser \<Rightarrow> listen_env \<Rightarrow> Manifest \<Rightarrow> string \<Rightarrow> string \<Rightarrow> listen_effect list" where
  "listen_publish cp env man i raw =
     (case message_Broadcast cp raw i of
        None \<Rightarrow> [listen_failed ''failed to publish'' i raw]
      | Some broadcast \<Rightarrow>
          (let topic = Capability broadcast in
           if topic \<notin> set (TopicIds man)
           then [LReceive (WithMessage (error_New C_NotPermitted Mod_Node ''topic not announced in the manifest''
                   [Pair ''node'' i, Pair ''topic'' topic]) broadcast)]
           else LBroadcast broadcast #
                (case le_broadcast env broadcast of Some e \<Rightarrow> [LReceive e] | None \<Rightarrow> [])))"

definition listen_dispatch :: "c_parser \<Rightarrow> listen_env \<Rightarrow> Manifest \<Rightarrow> string \<Rightarrow> string \<Rightarrow> listen_effect list" where
  "listen_dispatch cp env man i raw =
     (let incoming = LWitness (message_Incoming raw i) in
      if IsPipe raw then
        (case message_Pipe raw i of
           None \<Rightarrow> [incoming, listen_failed ''failed to parse pipe'' i raw]
         | Some pipeMsg \<Rightarrow> [incoming, LPipe pipeMsg])
      else if HasPrefix raw ''witness'' then
        (case Validate cp raw of
           ParseOk pm \<Rightarrow>
             [LWitness (message_Node (case pmArgs pm ''body'' of Some v \<Rightarrow> v | None \<Rightarrow> []) i)]
         | ParseFail e \<Rightarrow>
             (case e of Some err \<Rightarrow> [LWitness (MError err)] | None \<Rightarrow> []) @
             [LWitness (message_Node (TrimPrefix raw ''witness '') i)])
      else if HasPrefix raw ''publish'' then incoming # listen_publish cp env man i raw
      else if HasPrefix raw ''~'' then
        incoming #
        (case message_Response cp raw i of
           None \<Rightarrow> [listen_failed ''failed to respond'' i raw]
         | Some response \<Rightarrow> LResponse response # report_back env (le_response env response))
      else
        incoming #
        (case message_Request cp raw i of
           None \<Rightarrow> [listen_failed ''failed to request'' i raw]
         | Some request \<Rightarrow> LRequest request # report_back env (le_request env request)))"

definition listen_message :: "c_parser \<Rightarrow> listen_env \<Rightarrow> Manifest \<Rightarrow> string \<Rightarrow> string \<Rightarrow> listen_effect list" where
  "listen_message cp env man i raw =
     (if \<not> passes_unverified raw \<and> \<not> le_verified env then []
      else listen_dispatch cp env man i raw)"

text \<open>
  The surroundings change while the loop runs: \<open>env rs\<close> is what they answer to the message that leaves
  the reads \<open>rs\<close> behind it. \<open>None\<close> at the end: the loop is waiting for more input.
\<close>

function listen_loop ::
  "c_parser \<Rightarrow> (raw_read list \<Rightarrow> listen_env) \<Rightarrow> Manifest \<Rightarrow> string \<Rightarrow> raw_read list \<Rightarrow> listen_effect list" where
  "listen_loop cp env man i rs =
     (case readMessage rs of
        None \<Rightarrow> []
      | Some (readClosed, raw, rs') \<Rightarrow>
          [LWitness (message_Witness ''node disconnecting'' [Pair ''node'' i]), LClose]
      | Some (readFailure terminal retryable e, raw, rs') \<Rightarrow>
          if terminal then [LClose]
          else LReceive (error_New C_InitializationFailure Mod_Node ''read failure''
                 [Pair ''node'' i, Pair ''error'' e]) #
               (if retryable then listen_loop cp env man i rs' else [LClose])
      | Some (readOK, raw, rs') \<Rightarrow> listen_message cp (env rs') man i raw @ listen_loop cp env man i rs')"
  by pat_completeness auto
termination
  by (relation "measure (\<lambda>(cp, env, man, i, rs). length rs)")
    (auto dest: readMessage_consumes)

declare listen_loop.simps [simp del]

section \<open>Who a node can speak for\<close>

definition speaks_as :: "string \<Rightarrow> Manifest \<Rightarrow> listen_effect \<Rightarrow> bool" where
  "speaks_as i man e \<longleftrightarrow>
     (case e of
        LPipe m \<Rightarrow> Cast m = i
      | LRequest m \<Rightarrow> Cast m = i
      | LBroadcast m \<Rightarrow> Cast m = i \<and> Capability m \<in> set (TopicIds man)
      | LResponse m \<Rightarrow> Capture m = i
      | _ \<Rightarrow> True)"

lemma report_back_speaks: "e \<in> set (report_back env err) \<Longrightarrow> speaks_as i man e"
  by (auto simp: report_back_def speaks_as_def split: option.splits)

lemma publish_speaks: "e \<in> set (listen_publish cp env man i raw) \<Longrightarrow> speaks_as i man e"
  by (auto simp: listen_publish_def Let_def listen_failed_def speaks_as_def
      dest: message_Broadcast_identity split: option.splits if_splits)

lemma message_Pipe_identity: "message_Pipe raw i = Some m \<Longrightarrow> Cast m = i"
  by (auto simp: message_Pipe_def Let_def split: if_splits)

lemma dispatch_speaks: "e \<in> set (listen_dispatch cp env man i raw) \<Longrightarrow> speaks_as i man e"
proof -
  have plain: "speaks_as i man (LWitness m)" "speaks_as i man (listen_failed what j raw)" for m what j raw
    by (simp_all add: speaks_as_def listen_failed_def)
  have sent: "message_Pipe raw i = Some m \<Longrightarrow> speaks_as i man (LPipe m)"
    "message_Request cp raw i = Some m \<Longrightarrow> speaks_as i man (LRequest m)"
    "message_Response cp raw i = Some m \<Longrightarrow> speaks_as i man (LResponse m)" for m
    by (auto simp: speaks_as_def message_Pipe_identity
        dest: message_Request_identity message_Response_identity)
  assume "e \<in> set (listen_dispatch cp env man i raw)"
  then show ?thesis
    by (auto simp: listen_dispatch_def Let_def plain sent report_back_speaks publish_speaks
        split: if_splits option.splits parse_result.splits)
qed

text \<open>What holds of every effect of one message, and of the three effects of the loop itself, holds of the loop.\<close>

lemma listen_loop_all:
  assumes "\<And>env raw e. e \<in> set (listen_message cp env man i raw) \<Longrightarrow> P e"
    "\<And>m. P (LWitness m)" "P LClose" "\<And>err. P (LReceive err)"
  shows "\<forall>e \<in> set (listen_loop cp env man i rs). P e"
  using assms(1)
proof (induction cp env man i rs rule: listen_loop.induct)
  case (1 cp env man i rs)
  note plain = assms(2-4)
  show ?case
  proof (cases "readMessage rs")
    case None
    then show ?thesis by (subst listen_loop.simps) simp
  next
    case (Some x)
    obtain st raw rs' where x: "x = (st, raw, rs')" by (cases x)
    show ?thesis
    proof (cases st)
      case readOK
      with Some x have "\<forall>e \<in> set (listen_loop cp env man i rs'). P e"
        by (intro "1.IH"(1)) (simp_all add: "1.prems")
      with Some x readOK "1.prems" show ?thesis by (subst listen_loop.simps) auto
    next
      case readClosed
      with Some x plain show ?thesis by (subst listen_loop.simps) auto
    next
      case (readFailure terminal retryable e)
      have "\<forall>e \<in> set (listen_loop cp env man i rs'). P e" if "\<not> terminal" "retryable"
        using Some x readFailure that by (intro "1.IH"(2)) (simp_all add: "1.prems")
      with Some x readFailure plain show ?thesis
        by (subst listen_loop.simps) (cases terminal; cases retryable; auto)
    qed
  qed
qed

text \<open>Every request of a connection is one the parser made for its node.\<close>

lemma listen_loop_request:
  assumes "LRequest r \<in> set (listen_loop cp env man i rs)"
  shows "\<exists>raw. message_Request cp raw i = Some r"
proof -
  have report: "LRequest r \<notin> set (report_back env err)" for env err r
    by (auto simp: report_back_def split: option.splits)
  have publish: "LRequest r \<notin> set (listen_publish cp env man i raw)" for env raw r
    by (auto simp: listen_publish_def Let_def listen_failed_def split: option.splits if_splits)
  let ?P = "\<lambda>e. \<forall>r. e = LRequest r \<longrightarrow> (\<exists>raw. message_Request cp raw i = Some r)"
  have "?P e" if "e \<in> set (listen_message cp env man i raw)" for env raw e
    using that
    by (auto simp: listen_message_def listen_dispatch_def Let_def listen_failed_def report publish
        split: if_splits option.splits parse_result.splits)
  then have "\<forall>e \<in> set (listen_loop cp env man i rs). ?P e"
    by (rule listen_loop_all[where P = ?P]) simp_all
  with assms show ?thesis by blast
qed

text \<open>
  A node speaks only for itself. Whatever a connection delivers, in any number of messages and
  failures, every request, pipe and broadcast it causes carries the id of the node the connection
  belongs to, every response is marked as that node's, and it publishes only topics its manifest
  announces.
\<close>
lemma connection_speaks_as_its_node:
  "case e of
     LRequest m \<Rightarrow> e \<in> set (listen_loop cp env man i rs) \<longrightarrow> Cast m = i
   | LPipe m \<Rightarrow> e \<in> set (listen_loop cp env man i rs) \<longrightarrow> Cast m = i
   | LBroadcast m \<Rightarrow> e \<in> set (listen_loop cp env man i rs) \<longrightarrow> Cast m = i \<and> Capability m \<in> set (TopicIds man)
   | LResponse m \<Rightarrow> e \<in> set (listen_loop cp env man i rs) \<longrightarrow> Capture m = i
   | _ \<Rightarrow> True"
proof -
  have "speaks_as i man e" if "e \<in> set (listen_message cp env man i raw)" for env raw e
    using that dispatch_speaks by (auto simp: listen_message_def split: if_splits)
  then have "\<forall>e \<in> set (listen_loop cp env man i rs). speaks_as i man e"
    by (rule listen_loop_all) (simp_all add: speaks_as_def)
  then show ?thesis by (auto simp: speaks_as_def split: listen_effect.split)
qed

definition calm_env :: "bool \<Rightarrow> listen_env" where
  "calm_env verified = \<lparr>le_verified = verified, le_broadcast = (\<lambda>_. None), le_response = (\<lambda>_. None),
     le_request = (\<lambda>_. None), le_receive = (\<lambda>_. None)\<rparr>"

lemma one_request_loop:
  "\<exists>r. LRequest r \<in> set (listen_loop open_parser (\<lambda>_. calm_env True) empty_manifest ''a''
     (frame_reads ''open x=1 ~h''))"
proof -
  let ?raw = "''open x=1 ~h''"
  have r: "readMessage (frame_reads ?raw) = Some (readOK, ?raw, [])" by code_simp
  have p: "\<not> IsPipe ?raw" "\<not> HasPrefix ?raw ''witness''" "\<not> HasPrefix ?raw ''publish''"
    "\<not> HasPrefix ?raw ''~''" "TrimSpace ?raw \<noteq> []" by code_simp+
  show ?thesis
    using p
    by (subst listen_loop.simps, simp add: r listen_message_def calm_env_def listen_dispatch_def
        message_Request_def parseRequest_def parsed_of_def Validate_def cparse_def open_parser_def, blast)
qed

lemma connection_speaks_as_its_node_witness:
  "\<exists>r. LRequest r \<in> set (listen_loop open_parser (\<lambda>_. calm_env True) empty_manifest ''a''
     (frame_reads ''open x=1 ~h'')) \<and> Cast r = ''a''"
proof -
  obtain r where r: "LRequest r \<in> set (listen_loop open_parser (\<lambda>_. calm_env True) empty_manifest ''a''
     (frame_reads ''open x=1 ~h''))" using one_request_loop by blast
  from connection_speaks_as_its_node[of "LRequest r" open_parser "\<lambda>_. calm_env True" empty_manifest "''a''"
      "frame_reads ''open x=1 ~h''"] r
  show ?thesis by auto
qed

section \<open>Before the binary is verified\<close>

text \<open>A parser that takes the first word of a text for its command.\<close>

definition word_parser :: c_parser where
  "word_parser raw validate = Some \<lparr>c_error = None, c_type = TypeRequest,
     c_capability = Some (first_field raw), c_handle = Some ''h'', c_args = [], c_flags = []\<rparr>"

definition smuggled_text :: string where
  "smuggled_text = ''witness.binary.hash | victim.wipe''"

definition smuggled_pipe :: "string \<Rightarrow> pipe_msg" where
  "smuggled_pipe i =
     \<lparr>pm_id = i, pm_raw = smuggled_text, pm_parts = [''witness.binary.hash'', ''victim.wipe'']\<rparr>"

lemma smuggled_run:
  "list_ex (\<lambda>e. case e of PRequest r \<Rightarrow> Capability r = ''victim.wipe'' \<and> Cast r = ''a'' | _ \<Rightarrow> False)
     (pipe_run word_parser quiet_env (command_node 1 ''a'' ''c'') 0 (smuggled_pipe ''a''))"
  by code_simp

text \<open>
  The verification of a binary can be walked around with a pipe. While a connection is
  provisional, only responses and the request for a binary's hash are meant to pass; but the test
  looks at the first word of the whole text, so a pipe whose first word contains that name passes
  with all its stages, and the runner sends the request of a later stage in the node's name.
\<close>
lemma unverified_node_can_send_any_request:
  "LPipe (MPipe (smuggled_pipe i)) \<in>
          set (listen_message cp (env\<lparr>le_verified := False\<rparr>) man i smuggled_text) \<and>
   (\<exists>r. PRequest r \<in> set (pipe_run word_parser quiet_env (command_node 1 ''a'' ''c'') 0 (smuggled_pipe ''a'')) \<and>
        Capability r = ''victim.wipe'' \<and> Cast r = ''a'')"
proof -
  have "passes_unverified smuggled_text" "IsPipe smuggled_text"
    "splitPipe smuggled_text = [''witness.binary.hash'', ''victim.wipe'']"
    by code_simp+
  then have "LPipe (MPipe (smuggled_pipe i)) \<in>
      set (listen_message cp (env\<lparr>le_verified := False\<rparr>) man i smuggled_text)"
    by (simp add: listen_message_def listen_dispatch_def message_Pipe_def smuggled_pipe_def)
  moreover obtain e where e: "e \<in> set (pipe_run word_parser quiet_env (command_node 1 ''a'' ''c'') 0 (smuggled_pipe ''a''))"
    "case e of PRequest r \<Rightarrow> Capability r = ''victim.wipe'' \<and> Cast r = ''a'' | _ \<Rightarrow> False"
    using smuggled_run unfolding list_ex_iff by blast
  moreover from e(2) obtain r where "e = PRequest r" "Capability r = ''victim.wipe''" "Cast r = ''a''"
    by - (cases e; simp)
  ultimately show ?thesis by blast
qed

end
