(* ===== verification/Registry_Model.thy ===== *)
theory Registry_Model
  imports Manifest_Model Msg
begin

text \<open>
  The registry of installed nodes (spored/internal/registry): a list of elements and the file they
  are kept in. The YAML encoder and the disk are a record of what they answer; the file holds the
  list last written.
\<close>

record Element =
  el_ID :: string
  el_Name :: string
  el_Manifest :: string
  el_Checksum :: string
  el_Binary :: string
  el_BinaryChecksum :: string

definition ElementFromManifest :: "filesys \<Rightarrow> string \<Rightarrow> Manifest \<Rightarrow> Element option" where
  "ElementFromManifest fs goos man =
     (let el = \<lparr>el_ID = m_ID man, el_Name = m_Name man, el_Manifest = m_Path man,
                el_Checksum = m_ExpectedChecksum man, el_Binary = GetBinaryPath goos man,
                el_BinaryChecksum = []\<rparr> in
      if m_Trust man = ''developer''
      then Some (el\<lparr>el_Checksum := ''developer'', el_BinaryChecksum := ''developer''\<rparr>)
      else map_option (\<lambda>checksum. el\<lparr>el_BinaryChecksum := checksum\<rparr>)
             (CalculateChecksum fs (el_Binary el)))"

record reg_disk =
  rd_marshal_err :: "string option"
  rd_write_err :: "string option"
  rd_file :: "Element list"

definition reg_save :: "Element list \<Rightarrow> reg_disk \<Rightarrow> error option \<times> reg_disk" where
  "reg_save els d =
     (case rd_marshal_err d of
        Some e \<Rightarrow> (Some (error_New C_Malformed Mod_Registry ''unable to serialize registry''
                        [Pair ''err'' e]), d)
      | None \<Rightarrow>
          (case rd_write_err d of
             Some e \<Rightarrow> (Some (error_New C_Generic Mod_Registry ''unable to write registry''
                             [Pair ''err'' e]), d)
           | None \<Rightarrow> (None, d\<lparr>rd_file := els\<rparr>)))"

definition reg_Add :: "Element \<Rightarrow> Element list \<Rightarrow> reg_disk \<Rightarrow> error option \<times> Element list \<times> reg_disk" where
  "reg_Add el els d =
     (let els1 = els @ [el]; (e, d1) = reg_save els1 d in (e, els1, d1))"

text \<open>Only the first element with the id goes.\<close>

fun remove_id :: "string \<Rightarrow> Element list \<Rightarrow> Element list option" where
  "remove_id i [] = None"
| "remove_id i (el # els) = (if i \<noteq> el_ID el then map_option ((#) el) (remove_id i els) else Some els)"

definition reg_Remove :: "string \<Rightarrow> Element list \<Rightarrow> reg_disk \<Rightarrow> error option \<times> Element list \<times> reg_disk" where
  "reg_Remove i els d =
     (case remove_id i els of
        Some els1 \<Rightarrow> (let (e, d1) = reg_save els1 d in (e, els1, d1))
      | None \<Rightarrow> (Some (error_New C_Missing Mod_Registry ''unable to remove element'' [Pair ''node'' i]),
                 els, d))"

text \<open>What reading and decoding the registry file gives.\<close>

datatype reg_read = RegUnreadable string | RegUndecodable string | RegElements "Element list"

definition reg_load :: "string \<Rightarrow> reg_read \<Rightarrow> Element list \<Rightarrow> error option \<times> Element list" where
  "reg_load goos r els =
     (case r of
        RegUnreadable e \<Rightarrow>
          (Some (error_New C_Missing Mod_Registry ''unable to read registry'' [Pair ''err'' e]), els)
      | RegUndecodable e \<Rightarrow>
          (Some (error_New C_Malformed Mod_Registry ''unable to parse registry'' [Pair ''err'' e]), els)
      | RegElements xs \<Rightarrow>
          (None, map (\<lambda>el. el\<lparr>el_Binary := executablePathFor goos (el_Binary el)\<rparr>) xs))"

text \<open>A registry that cannot be loaded ends the daemon with the exit code on the left.\<close>

definition registry_New :: "string \<Rightarrow> reg_read \<Rightarrow> int + Element list" where
  "registry_New goos r = (case reg_load goos r [] of (Some err, els) \<Rightarrow> Inl 1 | (None, els) \<Rightarrow> Inr els)"

section \<open>Lemmas\<close>

lemma reg_save_result: "reg_save els d = (e, d1) \<Longrightarrow> (e = None \<and> rd_file d1 = els) \<or> (e \<noteq> None \<and> d1 = d)"
  by (auto simp: reg_save_def split: option.splits)

lemma remove_id_Some:
  "remove_id i els = Some els' \<Longrightarrow>
     \<exists>pre el post. els = pre @ el # post \<and> els' = pre @ post \<and> el_ID el = i \<and> (\<forall>x \<in> set pre. el_ID x \<noteq> i)"
proof (induction els arbitrary: els')
  case (Cons a els)
  show ?case
  proof (cases "i = el_ID a")
    case True
    with Cons.prems show ?thesis by (intro exI[of _ "[]"]) auto
  next
    case False
    with Cons.prems obtain xs where xs: "remove_id i els = Some xs" "els' = a # xs" by auto
    from Cons.IH[OF xs(1)] obtain pre el post where
      "els = pre @ el # post" "xs = pre @ post" "el_ID el = i" "\<forall>x \<in> set pre. el_ID x \<noteq> i" by blast
    with xs(2) False show ?thesis by (intro exI[of _ "a # pre"]) auto
  qed
qed simp

lemma remove_id_None: "remove_id i els = None \<longleftrightarrow> (\<forall>el \<in> set els. el_ID el \<noteq> i)"
  by (induction els) auto

end
