(* ===== verification/Handshake.thy ===== *)
theory Handshake
  imports Registry_Model
begin

text \<open>
  The handshake of a connecting node (spored/internal/nodes: \<open>handleConnection\<close> of node.go,
  binary.go). The file system is read three times, for the checksum of the manifest, for its
  content and for the binary, and may differ each time. What the handshake does to the rest of the
  daemon is the list of its effects, in order. \<open>HFinish\<close> is a call of \<open>finishVerification\<close>: the first
  one after an activation counts, later ones find nothing to do.
\<close>

section \<open>The binary\<close>

record bin =
  bn_status :: Estatus
  bn_path :: string
  bn_expectedChecksum :: string

definition newBinary :: "filesys \<Rightarrow> Element \<Rightarrow> bin" where
  "newBinary fs reg =
     \<lparr>bn_status = (if \<not> fs_exists fs (el_Binary reg) then StMissing else Unverified),
      bn_path = el_Binary reg, bn_expectedChecksum = el_BinaryChecksum reg\<rparr>"

definition newDeveloperBinary :: "filesys \<Rightarrow> Element \<Rightarrow> bin" where
  "newDeveloperBinary fs reg =
     \<lparr>bn_status = (if \<not> fs_exists fs (el_Binary reg) then StMissing else Verified),
      bn_path = el_Binary reg, bn_expectedChecksum = T_Developer\<rparr>"

text \<open>
  \<open>processPath\<close> is the path of the peer's executable, or whether looking it up was denied;
  \<open>same\<close> is the platform's comparison of executable paths.
\<close>

text \<open>The error of asking for the peer's path: whether the system denied access.\<close>

definition setPeerPathFailureStatus :: "bool \<Rightarrow> bin \<Rightarrow> bin" where
  "setPeerPathFailureStatus accessDenied b =
     b\<lparr>bn_status := (if accessDenied then RequiresUserSpace else FailedChecksum)\<rparr>"

definition binary_verify ::
  "filesys \<Rightarrow> bool + string \<Rightarrow> (string \<Rightarrow> string \<Rightarrow> bool) \<Rightarrow> bin \<Rightarrow> bin" where
  "binary_verify fs processPath same b =
     (if bn_status b = Verified then b
      else if \<not> IsReadable fs (bn_path b) then b\<lparr>bn_status := RequiresUserSpace\<rparr>
      else case processPath of
             Inl accessDenied \<Rightarrow> setPeerPathFailureStatus accessDenied b
           | Inr path \<Rightarrow>
               if \<not> same (bn_path b) path then b\<lparr>bn_status := FailedChecksum\<rparr>
               else case CalculateChecksum fs path of
                      None \<Rightarrow> b\<lparr>bn_status := FailedChecksum\<rparr>
                    | Some checksum \<Rightarrow>
                        if checksum \<noteq> with_sha_prefix (bn_expectedChecksum b)
                        then b\<lparr>bn_status := FailedChecksum\<rparr> else b\<lparr>bn_status := Verified\<rparr>)"

section \<open>The handshake\<close>

record hs_env =
  he_fs_verify :: filesys
  he_fs_load :: filesys
  he_fs_binary :: filesys
  he_yaml :: yaml_decoder
  he_hash_file :: "string \<Rightarrow> error + string" \<comment> \<open>the hyphae's hash of a file\<close>
  he_process_path :: "bool + string"
  he_same :: "string \<Rightarrow> string \<Rightarrow> bool"
  he_pid :: "string + int"
  he_hash_binary :: "int \<Rightarrow> error + string" \<comment> \<open>the hyphae's hash of a process\<close>
  he_resolve :: "error option"

datatype hs_effect =
    HBusRegister Manifest
  | HWriteOK
  | HActivate bool \<comment> \<open>whether the connection is provisional\<close>
  | HFinish bool \<comment> \<open>finishVerification\<close>
  | HPermRegister Manifest
  | HWitness message
  | HResolve

definition checkManifestForFailure :: "Element \<Rightarrow> Manifest \<Rightarrow> error option" where
  "checkManifestForFailure reg man =
     (case m_Status man of
        StMissing \<Rightarrow> Some (error_New C_HandshakeDenial Mod_Spore ''missing manifest'' [Pair ''node'' (el_ID reg)])
      | FailedChecksum \<Rightarrow> Some (error_New C_HandshakeDenial Mod_Spore ''invalid manifest''
          [Pair ''node'' (el_ID reg), Pair ''expected_checksum'' (m_ExpectedChecksum man)])
      | StMalformed \<Rightarrow> Some (error_New C_HandshakeDenial Mod_Spore ''malformed manifest''
          [Pair ''node'' (el_ID reg)])
      | _ \<Rightarrow> None)"

definition checkBinaryForFailure :: "Element \<Rightarrow> bin \<Rightarrow> error option" where
  "checkBinaryForFailure reg b =
     (case bn_status b of
        StMissing \<Rightarrow> Some (error_New C_HandshakeDenial Mod_Spore ''missing binary''
          [Pair ''node'' (el_ID reg), Pair ''path'' (bn_path b)])
      | FailedChecksum \<Rightarrow> Some (error_New C_HandshakeDenial Mod_Spore ''failed checksum''
          [Pair ''node'' (el_ID reg), Pair ''expected_checksum'' (bn_expectedChecksum b)])
      | StMalformed \<Rightarrow> Some (error_New C_HandshakeDenial Mod_Spore ''malformed (canary)''
          [Pair ''node'' (el_ID reg)])
      | _ \<Rightarrow> None)"

text \<open>From \<open>Verify\<close> to the checksum the hyphae computes: the error, and the manifest with its status.\<close>

definition verify_manifest :: "hs_env \<Rightarrow> Element \<Rightarrow> Manifest \<Rightarrow> error option \<times> Manifest" where
  "verify_manifest env reg man0 =
     (let man = manifest_Verify (he_fs_verify env) man0 in
      case m_Status man of
        RequiresDeveloper \<Rightarrow>
          if el_Checksum reg = T_Developer then (None, man\<lparr>m_Status := Verified\<rparr>)
          else (Some (error_New C_HandshakeDenial Mod_Node
                  ''failed manifest verification: developer checksum mismatch''
                  [Pair ''expected'' T_Developer]), man\<lparr>m_Status := FailedChecksum\<rparr>)
      | RequiresUserSpace \<Rightarrow>
          (case he_hash_file env (m_Path man) of
             Inl err \<Rightarrow> (Some err, man)
           | Inr checksum \<Rightarrow>
               if checksum = m_ExpectedChecksum man then (None, man\<lparr>m_Status := Verified\<rparr>)
               else (Some (error_New C_HandshakeDenial Mod_Node ''failed manifest verification''
                       [Pair ''checksum'' checksum, Pair ''expected'' (m_ExpectedChecksum man)]),
                     man\<lparr>m_Status := FailedChecksum\<rparr>))
      | _ \<Rightarrow> (None, man))"

text \<open>
  The part after the manifest: the binary. A binary the daemon cannot read is verified by the hyphae
  over a provisional connection, which is closed as failed on every early return.
\<close>

definition finish_handshake :: "hs_env \<Rightarrow> Element \<Rightarrow> Manifest \<Rightarrow> bool \<Rightarrow> error option \<times> hs_effect list" where
  "finish_handshake env reg man activated =
     (he_resolve env,
      (if activated then [] else [HWriteOK, HActivate False]) @ [HPermRegister man] @
      (if activated then [HFinish True] else []) @
      [HWitness (message_Witness ''handshake successful'' [Pair ''node'' (el_ID reg)]), HResolve])"

definition settle_binary :: "hs_env \<Rightarrow> Element \<Rightarrow> Manifest \<Rightarrow> bool \<Rightarrow> bin \<Rightarrow> error option \<times> hs_effect list" where
  "settle_binary env reg man activated b =
     (case checkBinaryForFailure reg b of
        Some err \<Rightarrow> (Some err, [])
      | None \<Rightarrow>
          if bn_status b \<noteq> Verified
          then (Some (error_New C_HandshakeDenial Mod_Spore ''unknown binary verification failure''
                  [Pair ''node'' (el_ID reg), Pair ''binary_status'' (status_String (bn_status b))]), [])
          else finish_handshake env reg man activated)"

definition provisional_binary :: "hs_env \<Rightarrow> Element \<Rightarrow> Manifest \<Rightarrow> bin \<Rightarrow> error option \<times> hs_effect list" where
  "provisional_binary env reg man b =
     (let (e, effs) =
            (case he_pid env of
               Inl erro \<Rightarrow> (Some (error_New C_HandshakeDenial Mod_Node ''failed to identify connecting process''
                                 [Pair ''error'' erro]), [])
             | Inr pid \<Rightarrow>
                 (case he_hash_binary env pid of
                    Inl err \<Rightarrow> (Some err, [])
                  | Inr checksum \<Rightarrow>
                      if checksum = el_BinaryChecksum reg
                      then settle_binary env reg man True (b\<lparr>bn_status := Verified\<rparr>)
                      else (Some (error_New C_HandshakeDenial Mod_Node ''failed manifest verification''
                              [Pair ''checksum'' checksum, Pair ''expected'' (el_BinaryChecksum reg)]), [])))
      in (e, [HWriteOK, HActivate True] @ effs @ [HFinish False]))"

definition verify_binary :: "hs_env \<Rightarrow> Element \<Rightarrow> Manifest \<Rightarrow> error option \<times> hs_effect list" where
  "verify_binary env reg man =
     (let fs = he_fs_binary env;
          b0 = (if m_Trust man = T_Developer then newDeveloperBinary fs reg else newBinary fs reg) in
      case checkBinaryForFailure reg b0 of
        Some err \<Rightarrow> (Some err, [])
      | None \<Rightarrow>
          (let b = binary_verify fs (he_process_path env) (he_same env) b0 in
           if bn_status b = RequiresUserSpace then provisional_binary env reg man b
           else settle_binary env reg man False b))"

definition handleConnection ::
  "hs_env \<Rightarrow> Element \<Rightarrow> Manifest \<Rightarrow> error option \<times> Manifest \<times> hs_effect list" where
  "handleConnection env reg man0 =
     (case checkManifestForFailure reg man0 of
        Some err \<Rightarrow> (Some err, man0, [])
      | None \<Rightarrow>
          (case verify_manifest env reg man0 of
             (Some err, man1) \<Rightarrow> (Some err, man1, [])
           | (None, man1) \<Rightarrow>
               (case checkManifestForFailure reg man1 of
                  Some err \<Rightarrow> (Some err, man1, [])
                | None \<Rightarrow>
                    (let man = manifest_Load (he_fs_load env) (he_yaml env) man1 in
                     case checkManifestForFailure reg man of
                       Some err \<Rightarrow> (Some err, man, [])
                     | None \<Rightarrow>
                         if m_Status man \<noteq> Verified
                         then (Some (error_New C_HandshakeDenial Mod_Spore
                                 ''unknown manifest verification failure''
                                 [Pair ''node'' (el_ID reg),
                                  Pair ''manifest_status'' (status_String (m_Status man))]),
                               man, [HBusRegister man])
                         else (case verify_binary env reg man of
                                 (e, effs) \<Rightarrow> (e, man, HBusRegister man # effs))))))"

section \<open>What a completed handshake has checked\<close>

text \<open>The manifest: by its digest, by the hyphae's digest of it, or as a registered developer node.\<close>

definition manifest_checked :: "hs_env \<Rightarrow> Element \<Rightarrow> Manifest \<Rightarrow> bool" where
  "manifest_checked env reg man \<longleftrightarrow>
     (if m_Trust man = T_Developer then el_Checksum reg = T_Developer
      else CalculateChecksum (he_fs_verify env) (m_Path man) = Some (with_sha_prefix (m_ExpectedChecksum man)) \<or>
           \<not> IsReadable (he_fs_verify env) (m_Path man) \<and>
           he_hash_file env (m_Path man) = Inr (m_ExpectedChecksum man))"

text \<open>The binary: by path and digest, by the hyphae's digest of the process, or not at all for developer trust.\<close>

definition binary_checked :: "hs_env \<Rightarrow> Element \<Rightarrow> Manifest \<Rightarrow> bool" where
  "binary_checked env reg man \<longleftrightarrow>
     fs_exists (he_fs_binary env) (el_Binary reg) \<and>
     (m_Trust man = T_Developer \<or>
      (\<exists>path. he_process_path env = Inr path \<and> he_same env (el_Binary reg) path \<and>
         CalculateChecksum (he_fs_binary env) path = Some (with_sha_prefix (el_BinaryChecksum reg))) \<or>
      (\<exists>pid. he_pid env = Inr pid \<and> he_hash_binary env pid = Inr (el_BinaryChecksum reg)))"

lemma finish_registers: "HPermRegister m \<in> set (snd (finish_handshake env reg man act)) \<Longrightarrow> m = man"
  by (auto simp: finish_handshake_def split: if_splits)

lemma settle_registers:
  "HPermRegister m \<in> set (snd (settle_binary env reg man act b)) \<Longrightarrow> m = man \<and> bn_status b = Verified"
  by (auto simp: settle_binary_def dest: finish_registers split: option.splits if_splits)

lemma binary_verify_Verified:
  "\<lbrakk>bn_status (binary_verify fs pp same b) = Verified; bn_status b \<noteq> Verified\<rbrakk> \<Longrightarrow>
     \<exists>path. pp = Inr path \<and> same (bn_path b) path \<and>
       CalculateChecksum fs path = Some (with_sha_prefix (bn_expectedChecksum b))"
  by (auto simp: binary_verify_def setPeerPathFailureStatus_def split: sum.splits if_splits option.splits)

lemma newBinary_simps:
  "bn_path (newBinary fs reg) = el_Binary reg" "bn_expectedChecksum (newBinary fs reg) = el_BinaryChecksum reg"
  "bn_status (newBinary fs reg) \<noteq> Verified"
  "checkBinaryForFailure reg (newBinary fs reg) = None \<longleftrightarrow> fs_exists fs (el_Binary reg)"
  "checkBinaryForFailure reg (newDeveloperBinary fs reg) = None \<longleftrightarrow> fs_exists fs (el_Binary reg)"
  by (auto simp: newBinary_def newDeveloperBinary_def checkBinaryForFailure_def)

lemma provisional_registers:
  assumes "HPermRegister m \<in> set (snd (provisional_binary env reg man b))"
  shows "m = man \<and> (\<exists>pid. he_pid env = Inr pid \<and> he_hash_binary env pid = Inr (el_BinaryChecksum reg))"
proof (cases "he_pid env")
  case (Inl erro)
  with assms show ?thesis by (simp add: provisional_binary_def Let_def)
next
  case (Inr pid)
  show ?thesis
  proof (cases "he_hash_binary env pid")
    case (Inl err)
    with assms Inr show ?thesis by (simp add: provisional_binary_def Let_def)
  next
    case (Inr checksum)
    let ?settled = "settle_binary env reg man True (b\<lparr>bn_status := Verified\<rparr>)"
    from assms \<open>he_pid env = Inr pid\<close> Inr have "checksum = el_BinaryChecksum reg"
      by (simp add: provisional_binary_def Let_def split: if_splits)
    with assms \<open>he_pid env = Inr pid\<close> Inr have "HPermRegister m \<in> set (snd ?settled)"
      by (simp add: provisional_binary_def Let_def split: prod.splits)
    with settle_registers \<open>he_pid env = Inr pid\<close> Inr \<open>checksum = el_BinaryChecksum reg\<close>
    show ?thesis by blast
  qed
qed

lemma verify_binary_registers:
  assumes "HPermRegister m \<in> set (snd (verify_binary env reg man))"
  shows "m = man \<and> binary_checked env reg man"
proof -
  define fs where "fs = he_fs_binary env"
  define b0 where "b0 = (if m_Trust man = T_Developer then newDeveloperBinary fs reg else newBinary fs reg)"
  define b where "b = binary_verify fs (he_process_path env) (he_same env) b0"
  have eq: "verify_binary env reg man = (case checkBinaryForFailure reg b0 of
        Some err \<Rightarrow> (Some err, [])
      | None \<Rightarrow> if bn_status b = RequiresUserSpace then provisional_binary env reg man b
                else settle_binary env reg man False b)"
    by (simp only: verify_binary_def Let_def b_def b0_def fs_def)
  from assms have ok: "checkBinaryForFailure reg b0 = None" unfolding eq by (auto split: option.splits)
  then have ex: "fs_exists fs (el_Binary reg)"
    using newBinary_simps(4,5) by (auto simp: b0_def split: if_splits)
  show ?thesis
  proof (cases "bn_status b = RequiresUserSpace")
    case True
    with assms ok have "HPermRegister m \<in> set (snd (provisional_binary env reg man b))"
      unfolding eq by simp
    from provisional_registers[OF this] ex show ?thesis by (auto simp: binary_checked_def fs_def)
  next
    case False
    with assms ok have "HPermRegister m \<in> set (snd (settle_binary env reg man False b))"
      unfolding eq by simp
    then have v: "m = man" "bn_status b = Verified" using settle_registers by blast+
    show ?thesis
    proof (cases "m_Trust man = T_Developer")
      case True
      with v(1) ex show ?thesis by (simp add: binary_checked_def fs_def)
    next
      case False
      then have "b0 = newBinary fs reg" by (simp add: b0_def)
      with v(2) binary_verify_Verified[of fs "he_process_path env" "he_same env" b0] newBinary_simps(1-3)
      have "\<exists>path. he_process_path env = Inr path \<and> he_same env (el_Binary reg) path \<and>
          CalculateChecksum fs path = Some (with_sha_prefix (el_BinaryChecksum reg))"
        by (simp add: b_def)
      with v(1) ex show ?thesis by (auto simp: binary_checked_def fs_def)
    qed
  qed
qed

lemma verify_manifest_checked:
  assumes "verify_manifest env reg man0 = (None, man1)" "m_Status man1 = Verified"
  shows "manifest_checked env reg man0 \<and> man1 = man0\<lparr>m_Status := Verified\<rparr>"
proof (cases "m_Status (manifest_Verify (he_fs_verify env) man0)")
  case Verified
  with assms show ?thesis
    by (auto simp: verify_manifest_def manifest_Verify_def manifest_checked_def split: if_splits option.splits)
qed (use assms in \<open>auto simp: verify_manifest_def manifest_Verify_def manifest_checked_def Let_def
        split: if_splits option.splits sum.splits\<close>)

text \<open>
  What the YAML decoder may do to a manifest: it sets exported fields from the text, and in this
  structure that leaves the status alone.
\<close>

definition decoder_keeps_status :: "yaml_decoder \<Rightarrow> bool" where
  "decoder_keeps_status yaml \<longleftrightarrow> (\<forall>content m. m_Status (fst (yaml content m)) = m_Status m)"

lemma applyDefaults_status: "m_Status (applyDefaults m) = m_Status m"
  by (simp add: applyDefaults_def Let_def)

lemma manifest_Load_status:
  assumes "decoder_keeps_status yaml" "m_Status (manifest_Load fs yaml m) = Verified"
  shows "m_Status m = Verified"
  using assms
  by (auto simp: manifest_Load_def applyDefaults_status decoder_keeps_status_def
      split: option.splits prod.splits if_splits) (metis fst_conv)+

text \<open>
  No node gets its permissions before its manifest and its binary have been checked. When the
  handshake registers a manifest with the permission manager, then it is the manifest it ends with,
  that manifest is verified, the manifest the handshake started from had the registered digest (by
  the daemon's reading or by the hyphae's) or was registered for developer trust, and the binary at
  the registered path exists and was verified by path and digest or by the hyphae's digest of the
  connecting process, unless the manifest claims developer trust.
\<close>
lemma permissions_need_a_verified_node:
  assumes "handleConnection env reg man0 = (e, man, effs)" "HPermRegister m \<in> set effs"
    "decoder_keeps_status (he_yaml env)"
  shows "m = man \<and> m_Status man = Verified \<and> manifest_checked env reg man0 \<and> binary_checked env reg man"
proof -
  from assms(1,2) obtain man1 where vm: "verify_manifest env reg man0 = (None, man1)"
    and man: "man = manifest_Load (he_fs_load env) (he_yaml env) man1" "m_Status man = Verified"
    and effs: "effs = HBusRegister man # snd (verify_binary env reg man)"
    by (auto simp: handleConnection_def Let_def split: option.splits prod.splits if_splits)
  from manifest_Load_status[OF assms(3) man(2)[unfolded man(1)]] have "m_Status man1 = Verified" .
  from verify_manifest_checked[OF vm this] have "manifest_checked env reg man0" by simp
  with verify_binary_registers[of m env reg man] assms(2) effs man(2) show ?thesis by auto
qed

text \<open>A disk with one manifest and one binary, each its own digest, and a decoder that sets nothing.\<close>

definition two_files :: filesys where
  "two_files = \<lparr>fs_exists = (\<lambda>p. p \<in> {''m.yaml'', ''b''}), fs_opens = (\<lambda>p. p \<in> {''m.yaml'', ''b''}),
     fs_content = (\<lambda>p. Some p), fs_sha256 = (\<lambda>c. c), fs_goos = ''linux''\<rparr>"

definition plain_env :: hs_env where
  "plain_env = \<lparr>he_fs_verify = two_files, he_fs_load = two_files, he_fs_binary = two_files,
     he_yaml = (\<lambda>c m. (m, False)), he_hash_file = (\<lambda>_. Inr []), he_process_path = Inr ''b'',
     he_same = (=), he_pid = Inr 7, he_hash_binary = (\<lambda>_. Inr []), he_resolve = None\<rparr>"

definition plain_element :: Element where
  "plain_element = \<lparr>el_ID = ''a'', el_Name = [], el_Manifest = ''m.yaml'', el_Checksum = ''sha256:m.yaml'',
     el_Binary = ''b'', el_BinaryChecksum = ''sha256:b''\<rparr>"

definition plain_manifest :: Manifest where
  "plain_manifest = empty_manifest\<lparr>m_ID := ''a'', m_Path := ''m.yaml'', m_ExpectedChecksum := ''sha256:m.yaml''\<rparr>"

lemmas handshake_run_defs =
  handleConnection_def checkManifestForFailure_def plain_manifest_def empty_manifest_def
  verify_manifest_def manifest_Verify_def plain_env_def two_files_def IsReadable_def
  CalculateChecksum_def with_sha_prefix_def manifest_Load_def file_Read_def applyDefaults_def
  verify_binary_def newBinary_def plain_element_def checkBinaryForFailure_def binary_verify_def
  settle_binary_def finish_handshake_def Let_def

lemma permissions_need_a_verified_node_witness:
  "\<exists>e man effs m. handleConnection plain_env plain_element plain_manifest = (e, man, effs) \<and>
     HPermRegister m \<in> set effs \<and> binary_checked plain_env plain_element man"
proof -
  have sha: "HasPrefix ''sha256:m.yaml'' ''sha256:''" "HasPrefix ''sha256:b'' ''sha256:''" by code_simp+
  obtain man where h: "handleConnection plain_env plain_element plain_manifest = (None, man,
      [HBusRegister man, HWriteOK, HActivate False, HPermRegister man,
       HWitness (message_Witness ''handshake successful'' [Pair ''node'' ''a'']), HResolve])"
    using sha
    by (simp add: handshake_run_defs)
  have "decoder_keeps_status (he_yaml plain_env)"
    by (simp add: decoder_keeps_status_def plain_env_def)
  with permissions_need_a_verified_node[OF h, of man] have "binary_checked plain_env plain_element man" by simp
  with h show ?thesis by auto
qed

section \<open>The manifest of a new node\<close>

definition newNode_manifest :: "filesys \<Rightarrow> yaml_decoder \<Rightarrow> Element \<Rightarrow> Manifest" where
  "newNode_manifest fs yaml reg =
     manifest_Verify fs (manifest_Load fs yaml (manifest_New fs (el_Manifest reg) (el_Checksum reg)))"

text \<open>
  A manifest can certify itself. The path and the expected digest are exported fields of the
  structure the YAML text is decoded into, with no tag that excludes them, so a text that carries
  the keys path and expectedchecksum replaces both before the check: whatever digest the registry
  holds, an altered manifest that names any file with its digest is verified.
\<close>
lemma manifest_can_certify_itself:
  assumes "fs_exists fs (el_Manifest reg)" "file_Read fs (el_Manifest reg) = Some altered"
    "yaml altered (manifest_New fs (el_Manifest reg) (el_Checksum reg)) = (m, False)"
    "m_Status m = Unverified" "m_Trust m \<noteq> T_Developer"
    "CalculateChecksum fs (m_Path m) = Some (with_sha_prefix (m_ExpectedChecksum m))"
  shows "m_Status (newNode_manifest fs yaml reg) = Verified \<and>
         m_ID (newNode_manifest fs yaml reg) = m_ID m \<and> m_Api (newNode_manifest fs yaml reg) = m_Api m"
proof -
  have d: "m_Path (applyDefaults m) = m_Path m" "m_ExpectedChecksum (applyDefaults m) = m_ExpectedChecksum m"
    "m_Trust (applyDefaults m) = m_Trust m" "m_ID (applyDefaults m) = m_ID m" "m_Api (applyDefaults m) = m_Api m"
    by (simp_all add: applyDefaults_def Let_def)
  have "IsReadable fs (m_Path m)"
    using assms(6) by (auto simp: CalculateChecksum_def IsReadable_def split: if_splits)
  moreover have "m_Path (manifest_New fs (el_Manifest reg) (el_Checksum reg)) = el_Manifest reg"
    by (simp add: manifest_New_def Let_def)
  ultimately show ?thesis
    using assms d by (simp add: newNode_manifest_def manifest_Load_def manifest_Verify_def applyDefaults_status)
qed

text \<open>The altered text carries the path of another file and that file's digest.\<close>

definition path_decoder :: yaml_decoder where
  "path_decoder c m =
     (m\<lparr>m_ID := ''a'', m_Path := ''b'', m_ExpectedChecksum := ''sha256:b'', m_Trust := T_System\<rparr>, False)"

lemma manifest_can_certify_itself_witness:
  "m_Status (newNode_manifest two_files path_decoder (plain_element\<lparr>el_Checksum := ''sha256:original''\<rparr>)) = Verified"
proof -
  let ?reg = "plain_element\<lparr>el_Checksum := ''sha256:original''\<rparr>"
  have sha: "HasPrefix ''sha256:b'' ''sha256:''" by code_simp
  let ?m = "fst (path_decoder ''m.yaml'' (manifest_New two_files (el_Manifest ?reg) (el_Checksum ?reg)))"
  have "fs_exists two_files (el_Manifest ?reg)" "file_Read two_files (el_Manifest ?reg) = Some ''m.yaml''"
    "path_decoder ''m.yaml'' (manifest_New two_files (el_Manifest ?reg) (el_Checksum ?reg)) = (?m, False)"
    "m_Status ?m = Unverified" "m_Trust ?m \<noteq> T_Developer"
    "CalculateChecksum two_files (m_Path ?m) = Some (with_sha_prefix (m_ExpectedChecksum ?m))"
    by (simp_all add: two_files_def plain_element_def file_Read_def path_decoder_def manifest_New_def
        empty_manifest_def CalculateChecksum_def with_sha_prefix_def sha Let_def)
  then show ?thesis
    using manifest_can_certify_itself[of two_files ?reg "''m.yaml''" path_decoder ?m] by blast
qed

end
