(* ===== verification/Nodes_Model.thy ===== *)
theory Nodes_Model
  imports Bus Handshake
begin

text \<open>
  The installed nodes (spored/internal/nodes/nodes.go, with the constructor and the delivery of
  node.go): installation and removal across the registry, the bus and the permission manager,
  spawning, killing, and the first step of a connection. The state is the world these share; the
  file system, the hyphae, the operating system, the shell and the parser are one environment. The
  messages to the witnesses are left out. \<open>None\<close> is a call that blocks on the bus.
\<close>

record nnode =
  nn_ptr :: nat
  nn_registry :: Element
  nn_manifest :: Manifest

text \<open>A process asked for: by the daemon itself or by the hyphae.\<close>

datatype launch = Exec string | HyphaeSpawn string

text \<open>\<open>w_started\<close> records the processes asked for, the last one first.\<close>

record world =
  w_registry :: "Element list"
  w_rdisk :: reg_disk
  w_nodes :: "nnode gomap"
  w_next :: nat \<comment> \<open>identities given out\<close>
  w_bus :: bus
  w_perm :: Manager
  w_pdisk :: perm_disk
  w_started :: "launch list"

record nodes_env =
  ne_fs :: filesys
  ne_yaml :: yaml_decoder
  ne_goos :: string
  ne_prepare :: "string \<Rightarrow> error + Manifest \<times> Element" \<comment> \<open>the hyphae's PrepareForInstallation\<close>
  ne_hspawn :: "string \<Rightarrow> error option"
  ne_hkill :: "int \<Rightarrow> error option"
  ne_start :: "string \<Rightarrow> string option" \<comment> \<open>the error of starting a process\<close>
  ne_conn :: "string \<Rightarrow> int option option" \<comment> \<open>whether a node is connected, and its process if it can be found\<close>
  ne_manifest_read :: "(string \<Rightarrow> error + string) option" \<comment> \<open>\<open>None\<close> while there is no hyphae\<close>
  ne_hash_file :: "string \<Rightarrow> error + string"
  ne_parser :: c_parser
  ne_quote :: "string \<Rightarrow> string"
  ne_ask :: "message \<Rightarrow> ask_outcome"
  ne_confirm :: hyphae_confirm
  ne_order :: "string list" \<comment> \<open>the order in which the runtime iterates the node map\<close>

section \<open>Nodes on the bus\<close>

definition newNode :: "nodes_env \<Rightarrow> nat \<Rightarrow> Element \<Rightarrow> Manifest \<Rightarrow> nnode" where
  "newNode env ptr reg man =
     \<lparr>nn_ptr = ptr, nn_registry = reg,
      nn_manifest = manifest_Verify (ne_fs env) (manifest_Load (ne_fs env) (ne_yaml env) man)\<rparr>"

definition node_IsWitness :: "Manifest \<Rightarrow> bool" where
  "node_IsWitness man = (if m_Witness man then True else ''witness'' \<in> set (m_Roles man))"

definition inode_of :: "nodes_env \<Rightarrow> nnode \<Rightarrow> inode" where
  "inode_of env n =
     \<lparr>n_ptr = nn_ptr n, n_id = el_ID (nn_registry n), n_manifest = Some (nn_manifest n),
      n_isWitness = node_IsWitness (nn_manifest n),
      n_connected = (ne_conn env (el_ID (nn_registry n)) \<noteq> None)\<rparr>"

definition nodes_New :: "nodes_env \<Rightarrow> Element list \<Rightarrow> nnode gomap \<times> nat" where
  "nodes_New env els =
     fold (\<lambda>el (m, ptr). (m(el_ID el \<mapsto>
              newNode env ptr el (manifest_New (ne_fs env) (el_Manifest el) (el_Checksum el))), Suc ptr))
       els (\<lambda>_. None, 1)"

fun find_suffix :: "string \<Rightarrow> string list \<Rightarrow> string option" where
  "find_suffix s [] = None"
| "find_suffix s (i # is) = (if HasSuffix i s then Some i else find_suffix s is)"

definition resolveId :: "nodes_env \<Rightarrow> world \<Rightarrow> string \<Rightarrow> string" where
  "resolveId env w nodeid =
     (if w_nodes w nodeid \<noteq> None then nodeid
      else case find_suffix (''.'' @ nodeid) (ne_order env) of Some fullid \<Rightarrow> fullid | None \<Rightarrow> nodeid)"

section \<open>Installation\<close>

definition prepareInstallation :: "nodes_env \<Rightarrow> string \<Rightarrow> error + Manifest \<times> Element" where
  "prepareInstallation env path =
     (if \<not> fs_exists (ne_fs env) path
      then Inl (error_New C_Missing Mod_Node ''unable to install due to bad path'' [Pair ''path'' path])
      else if IsReadable (ne_fs env) path then
        (case ManifestFromPath (ne_fs env) (ne_yaml env) path of
           None \<Rightarrow> Inl (error_New C_Generic Mod_Node ''read failure'' [Pair ''path'' path])
         | Some man \<Rightarrow>
             (let msg = ValidateReservedLanguage man in
              if msg \<noteq> [] then Inl (error_New C_ReservedLanguage Mod_Node msg [Pair ''node'' (m_ID man)])
              else case ElementFromManifest (ne_fs env) (ne_goos env) man of
                     None \<Rightarrow> Inl (error_New C_Generic Mod_Node ''failed to create registry element''
                               [Pair ''path'' path])
                   | Some el \<Rightarrow> Inr (man, el)))
      else case ne_prepare env path of
             Inl err \<Rightarrow> Inl err
           | Inr (man, el) \<Rightarrow>
               (let msg = ValidateReservedLanguage man in
                if msg \<noteq> [] then Inl (error_New C_ReservedLanguage Mod_Node msg [Pair ''node'' (m_ID man)])
                else Inr (man, el)))"

definition authorizeInstallation ::
  "nodes_env \<Rightarrow> Manifest \<Rightarrow> string \<Rightarrow> string \<Rightarrow> world \<Rightarrow> error option \<times> world" where
  "authorizeInstallation env man origin capability w =
     (case AuthorizeInstallation (ne_parser env) (ne_quote env) (ne_ask env) (ne_confirm env) origin (m_ID man)
             capability (m_Trust man = T_Developer) (w_perm w) of
        ((granted, Some err), p) \<Rightarrow> (Some err, w\<lparr>w_perm := p\<rparr>)
      | ((granted, None), p) \<Rightarrow>
          (if granted then None
           else Some (error_New C_UserDenial Mod_Node ''node installation was not authorized''
                  [Pair ''node'' (m_ID man)]),
           w\<lparr>w_perm := p\<rparr>))"

definition hyphae_spawn :: "nodes_env \<Rightarrow> string \<Rightarrow> world \<Rightarrow> error option \<times> world" where
  "hyphae_spawn env binary w = (ne_hspawn env binary, w\<lparr>w_started := HyphaeSpawn binary # w_started w\<rparr>)"

definition nodes_Spawn :: "nodes_env \<Rightarrow> string \<Rightarrow> world \<Rightarrow> error option \<times> world" where
  "nodes_Spawn env nodeid0 w =
     (let nodeid = resolveId env w nodeid0 in
      case w_nodes w nodeid of
        None \<Rightarrow> (Some (error_New C_Missing Mod_Node ''cannot spawn; node not installed'' []), w)
      | Some node \<Rightarrow>
          (let binary = el_Binary (nn_registry node); ns = m_Namespace (nn_manifest node) in
           if IsReadable (ne_fs env) binary then
             (if ns = N_Hyphae then hyphae_spawn env binary w
              else (map_option (\<lambda>e. error_New C_Generic Mod_Node ''failed to spawn node''
                                  [Pair ''node'' nodeid, Pair ''error'' e]) (ne_start env binary),
                    w\<lparr>w_started := Exec binary # w_started w\<rparr>))
           else if ns = N_Spore
           then (Some (error_New C_Generic Mod_Node ''failed to spawn node; node requires spore space''
                   [Pair ''node'' nodeid]), w)
           else hyphae_spawn env binary w))"

text \<open>The permissions a manifest asks for, one question after the other; refusals only go to the witnesses.\<close>

fun request_permissions :: "nodes_env \<Rightarrow> string \<Rightarrow> Permission list \<Rightarrow> Manager \<Rightarrow> perm_disk \<Rightarrow> Manager \<times> perm_disk" where
  "request_permissions env nodeid [] p d = (p, d)"
| "request_permissions env nodeid (el # els) p d =
     (case perm_Request (ne_parser env) (ne_ask env) nodeid (pr_Name el) (pr_Reasons el) p d of
        (r, p1, d1) \<Rightarrow> request_permissions env nodeid els p1 d1)"

definition completeInstallation ::
  "nodes_env \<Rightarrow> Manifest \<times> Element \<Rightarrow> bool \<Rightarrow> world \<Rightarrow> (error option \<times> world) option" where
  "completeInstallation env cand load w =
     (case reg_Add (snd cand) (w_registry w) (w_rdisk w) of
        (Some err, els, rd) \<Rightarrow> Some (Some err, w\<lparr>w_registry := els, w_rdisk := rd\<rparr>)
      | (None, els, rd) \<Rightarrow>
          (let node = newNode env (w_next w) (snd cand) (fst cand); i = el_ID (snd cand) in
           case bus_Register (inode_of env node) (w_bus w) of
             None \<Rightarrow> None
           | Some b \<Rightarrow>
               (case request_permissions env i (m_Permissions (nn_manifest node))
                       (RegisterNode (Some (nn_manifest node)) (w_perm w)) (w_pdisk w) of
                  (p, pd) \<Rightarrow>
                    (let w1 = w\<lparr>w_registry := els, w_rdisk := rd, w_nodes := (w_nodes w)(i \<mapsto> node),
                               w_next := Suc (w_next w), w_bus := b, w_perm := p, w_pdisk := pd\<rparr>
                     in Some (if load then nodes_Spawn env i w1 else (None, w1))))))"

definition nodes_Install ::
  "nodes_env \<Rightarrow> string \<Rightarrow> bool \<Rightarrow> string \<Rightarrow> world \<Rightarrow> (error option \<times> world) option" where
  "nodes_Install env path load origin w =
     (case prepareInstallation env path of
        Inl err \<Rightarrow> Some (Some err, w)
      | Inr cand \<Rightarrow>
          (case authorizeInstallation env (fst cand) origin nodeInstallCapability w of
             (Some err, w1) \<Rightarrow> Some (Some err, w1)
           | (None, w1) \<Rightarrow> completeInstallation env cand load w1))"

section \<open>Removal\<close>

definition node_ProcessID :: "nodes_env \<Rightarrow> string \<Rightarrow> int option" where
  "node_ProcessID env i = (case ne_conn env i of Some (Some pid) \<Rightarrow> Some pid | _ \<Rightarrow> None)"

definition nodes_Kill :: "nodes_env \<Rightarrow> string \<Rightarrow> world \<Rightarrow> error option" where
  "nodes_Kill env nodeid0 w =
     (let nodeid = resolveId env w nodeid0 in
      case w_nodes w nodeid of
        None \<Rightarrow> Some (error_New C_Missing Mod_Node ''cannot kill; node not active'' [Pair ''node'' nodeid])
      | Some node \<Rightarrow>
          (case node_ProcessID env nodeid of
             None \<Rightarrow> Some (error_New C_Generic Mod_Node ''failed to retrieve process ID for node''
                       [Pair ''node'' nodeid])
           | Some pid \<Rightarrow> ne_hkill env pid))"

text \<open>A failure to kill the process only goes to the witnesses.\<close>

definition nodes_Uninstall :: "nodes_env \<Rightarrow> string \<Rightarrow> world \<Rightarrow> (error option \<times> world) option" where
  "nodes_Uninstall env nodeid0 w =
     (let nodeid = resolveId env w nodeid0 in
      case w_nodes w nodeid of
        None \<Rightarrow> Some (Some (error_New C_Missing Mod_Node ''cannot uninstall; node not installed''
                   [Pair ''node'' nodeid]), w)
      | Some node \<Rightarrow>
          (case bus_Unregister (inode_of env node) (w_bus w) of
             None \<Rightarrow> None
           | Some b \<Rightarrow>
               (let i = el_ID (nn_registry node);
                    w1 = w\<lparr>w_bus := b, w_nodes := (w_nodes w)(nodeid := None)\<rparr> in
                case reg_Remove i (w_registry w) (w_rdisk w) of
                  (Some err, els, rd) \<Rightarrow> Some (Some err, w1\<lparr>w_registry := els, w_rdisk := rd\<rparr>)
                | (None, els, rd) \<Rightarrow>
                    (case RemoveNode i (w_perm w) (w_pdisk w) of
                       (e, p, pd) \<Rightarrow>
                         Some (e, w1\<lparr>w_registry := els, w_rdisk := rd, w_perm := p, w_pdisk := pd\<rparr>)))))"

definition nodes_Reinstall ::
  "nodes_env \<Rightarrow> string \<Rightarrow> bool \<Rightarrow> string \<Rightarrow> world \<Rightarrow> (error option \<times> world) option" where
  "nodes_Reinstall env nodeid0 load origin w =
     (let nodeid = resolveId env w nodeid0 in
      case w_nodes w nodeid of
        None \<Rightarrow> Some (Some (error_New C_Missing Mod_Node ''cannot reinstall; node not installed''
                   [Pair ''node'' nodeid]), w)
      | Some node \<Rightarrow>
          (case prepareInstallation env (el_Manifest (nn_registry node)) of
             Inl err \<Rightarrow> Some (Some err, w)
           | Inr cand \<Rightarrow>
               (case authorizeInstallation env (fst cand) origin nodeReinstallCapability w of
                  (Some err, w1) \<Rightarrow> Some (Some err, w1)
                | (None, w1) \<Rightarrow>
                    (case nodes_Uninstall env nodeid w1 of
                       None \<Rightarrow> None
                     | Some (Some err, w2) \<Rightarrow> Some (Some err, w2)
                     | Some (None, w2) \<Rightarrow> completeInstallation env cand load w2))))"

definition nodes_Reload :: "nodes_env \<Rightarrow> string \<Rightarrow> world \<Rightarrow> error option \<times> world" where
  "nodes_Reload env nodeid w =
     (case nodes_Kill env nodeid w of Some err \<Rightarrow> (Some err, w) | None \<Rightarrow> nodes_Spawn env nodeid w)"

section \<open>Start of the daemon, and what the rest of it reads\<close>

text \<open>The pending table of \<open>Nodes\<close> itself takes part in the bus under an id of its own.\<close>

definition selfNodeId :: string where "selfNodeId = ''nodes-in-spore''"

definition nodesSelf :: "nat \<Rightarrow> inode" where
  "nodesSelf ptr = \<lparr>n_ptr = ptr, n_id = selfNodeId, n_manifest = None, n_isWitness = False, n_connected = True\<rparr>"

fun register_all :: "nodes_env \<Rightarrow> string list \<Rightarrow> world \<Rightarrow> world option" where
  "register_all env [] w = Some w"
| "register_all env (i # is) w =
     (case w_nodes w i of
        None \<Rightarrow> register_all env is w
      | Some node \<Rightarrow>
          (case bus_Register (inode_of env node) (w_bus w) of
             None \<Rightarrow> None
           | Some b \<Rightarrow> register_all env is (w\<lparr>w_bus := b\<rparr>)))"

definition nodes_Set :: "nodes_env \<Rightarrow> world \<Rightarrow> world option" where
  "nodes_Set env w =
     (case bus_Register (nodesSelf (w_next w)) (w_bus w) of
        None \<Rightarrow> None
      | Some b \<Rightarrow> register_all env (ne_order env) (w\<lparr>w_bus := b, w_next := Suc (w_next w)\<rparr>))"

text \<open>The witness messages of the start, and the world after it.\<close>

fun nodes_Autostart :: "nodes_env \<Rightarrow> string list \<Rightarrow> world \<Rightarrow> message list \<times> world" where
  "nodes_Autostart env [] w = ([], w)"
| "nodes_Autostart env (i # is) w =
     (case w_nodes w i of
        None \<Rightarrow> nodes_Autostart env is w
      | Some el \<Rightarrow>
          if m_Launch (nn_manifest el) \<noteq> L_Auto then nodes_Autostart env is w
          else if m_Namespace (nn_manifest el) = N_Hyphae
          then (case nodes_Autostart env is w of
                  (ms, w1) \<Rightarrow> (MError (error_New C_Generic Mod_Node ''skipped autostart, requires hyphae''
                                 [Pair ''node'' (el_ID (nn_registry el))]) # ms, w1))
          else (case nodes_Spawn env (el_ID (nn_registry el)) w of
                  (e, w0) \<Rightarrow>
                    (case nodes_Autostart env is w0 of
                       (ms, w1) \<Rightarrow>
                         ((if e \<noteq> None
                           then MError (error_New C_Generic Mod_Node ''autostart failed to spawn''
                                  [Pair ''node'' (el_ID (nn_registry el))])
                           else message_Witness ''node autostarted'' [Pair ''node'' (el_ID (nn_registry el))])
                          # ms, w1))))"

definition nodes_GetNodes :: "nodes_env \<Rightarrow> world \<Rightarrow> string list" where
  "nodes_GetNodes env w = filter (\<lambda>i. w_nodes w i \<noteq> None) (ne_order env)"

record State = Connected :: bool Pid :: int

definition node_state :: "nodes_env \<Rightarrow> string \<Rightarrow> State" where
  "node_state env i =
     (case ne_conn env i of
        None \<Rightarrow> \<lparr>Connected = False, Pid = -1\<rparr>
      | Some None \<Rightarrow> \<lparr>Connected = True, Pid = -1\<rparr>
      | Some (Some pid) \<Rightarrow> \<lparr>Connected = True, Pid = pid\<rparr>)"

definition nodes_GetState :: "nodes_env \<Rightarrow> string \<Rightarrow> world \<Rightarrow> error + State" where
  "nodes_GetState env nodeid0 w =
     (let nodeid = resolveId env w nodeid0 in
      case w_nodes w nodeid of
        None \<Rightarrow> Inl (error_New C_Missing Mod_Node ''cannot retrieve state; node not installed'' [])
      | Some node \<Rightarrow> Inr (node_state env nodeid))"

text \<open>
  The first look at a manifest the daemon could not read itself. The registry is searched to its
  end, so the last element with the id decides on developer trust.
\<close>

definition developer_status :: "string \<Rightarrow> Element list \<Rightarrow> Estatus" where
  "developer_status nodeid els =
     fold (\<lambda>el st. if el_ID el = nodeid
                   then (if el_Checksum el = T_Developer then Verified else FailedChecksum) else st)
       els FailedChecksum"

definition settle_remote :: "nodes_env \<Rightarrow> string \<Rightarrow> Element list \<Rightarrow> Manifest \<Rightarrow> Manifest" where
  "settle_remote env nodeid els man =
     (if m_Trust man = T_Developer then man\<lparr>m_Status := developer_status nodeid els\<rparr>
      else case ne_hash_file env (m_Path man) of
             Inl err \<Rightarrow> man
           | Inr checksum \<Rightarrow>
               man\<lparr>m_Status := (if m_ExpectedChecksum man = checksum then Verified else FailedChecksum)\<rparr>)"

definition nodes_GetManifest :: "nodes_env \<Rightarrow> string \<Rightarrow> world \<Rightarrow> (Manifest option \<times> world) option" where
  "nodes_GetManifest env nodeid0 w =
     (let nodeid = resolveId env w nodeid0 in
      case w_nodes w nodeid of
        None \<Rightarrow> Some (None, w)
      | Some node \<Rightarrow>
          (let same = Some (Some (nn_manifest node), w) in
           if m_ID (nn_manifest node) \<noteq> [] then same
           else case ne_manifest_read env of
                  None \<Rightarrow> same
                | Some ManifestRead \<Rightarrow>
                    (case ManifestRead (m_Path (nn_manifest node)) of
                       Inl err \<Rightarrow> same
                     | Inr content \<Rightarrow>
                         (let man = settle_remote env nodeid (w_registry w)
                                      (manifest_LoadContent (ne_yaml env) content (nn_manifest node));
                              node1 = node\<lparr>nn_manifest := man\<rparr> in
                          case bus_Register (inode_of env node1) (w_bus w) of
                            None \<Rightarrow> None
                          | Some b \<Rightarrow>
                              Some (Some man, w\<lparr>w_bus := b, w_nodes := (w_nodes w)(nodeid \<mapsto> node1)\<rparr>)))))"

section \<open>Connections\<close>

datatype conn_effect = CWitness message | CWriteLine string | CClose | CHandshake hs_effect

text \<open>What the effects of a handshake do to the bus and the permission manager.\<close>

fun apply_hs :: "nodes_env \<Rightarrow> nnode \<Rightarrow> hs_effect list \<Rightarrow> world \<Rightarrow> world option" where
  "apply_hs env node [] w = Some w"
| "apply_hs env node (HBusRegister man # effs) w =
     (case bus_Register (inode_of env (node\<lparr>nn_manifest := man\<rparr>)) (w_bus w) of
        None \<Rightarrow> None
      | Some b \<Rightarrow> apply_hs env node effs (w\<lparr>w_bus := b\<rparr>))"
| "apply_hs env node (HPermRegister man # effs) w =
     apply_hs env node effs (w\<lparr>w_perm := RegisterNode (Some man) (w_perm w)\<rparr>)"
| "apply_hs env node (_ # effs) w = apply_hs env node effs w"

text \<open>
  \<open>first\<close> is the first line of the connection or the error of reading it, \<open>deadline\<close> the error of
  setting the read deadline, which only goes to the witnesses.
\<close>

definition nodes_HandleConnection ::
  "nodes_env \<Rightarrow> hs_env \<Rightarrow> string option \<Rightarrow> string + string \<Rightarrow> world \<Rightarrow> (conn_effect list \<times> world) option" where
  "nodes_HandleConnection env hs deadline first w =
     (let late = (case deadline of None \<Rightarrow> []
                  | Some e \<Rightarrow> [CWitness (MError (error_New C_Generic Mod_Node ''unable to read deadline''
                                 [Pair ''error'' e]))]) in
      case first of
        Inl erro \<Rightarrow>
          Some (late @ [CWitness (MError (error_New C_HandshakeDenial Mod_Node
                   ''failed handshake at step 1: initial read'' [Pair ''error'' erro])), CClose], w)
      | Inr line \<Rightarrow>
          (let nodeid = TrimSpace line;
               hello = late @ [CWitness (message_Witness ''node connecting'' [Pair ''node'' nodeid])];
               refuse = (\<lambda>err. [CWitness (MError err), CWriteLine (Wire (MError err)), CClose]) in
           case w_nodes w nodeid of
             None \<Rightarrow> Some (hello @ refuse (error_New C_HandshakeDenial Mod_Node ''node not installed''
                              [Pair ''node'' nodeid]), w)
           | Some node \<Rightarrow>
               (case handleConnection hs (nn_registry node) (nn_manifest node) of
                  (e, man, effs) \<Rightarrow>
                    map_option (\<lambda>w1.
                      (hello @ map CHandshake effs @ (case e of None \<Rightarrow> [] | Some err \<Rightarrow> refuse err),
                       w1\<lparr>w_nodes := (w_nodes w1)(nodeid \<mapsto> node\<lparr>nn_manifest := man\<rparr>)\<rparr>))
                      (apply_hs env node effs w))))"

end
