(* ===== verification/Nodes_Safety.thy ===== *)
theory Nodes_Safety
  imports Nodes_Model
begin

text \<open>
  What holds of the installed nodes: who may install, what an installation and a removal leave
  behind, and that every installed node is found under its id in the registry and on the bus.
\<close>

section \<open>What each step touches\<close>

lemma bus_Register_parts:
  "bus_Register n b = Some b' \<Longrightarrow> bus_api b' = api_register n (bus_api b)"
  by (auto simp: bus_Register_def)

lemma bus_Unregister_parts:
  "bus_Unregister n b = Some b' \<Longrightarrow> bus_api b' = api_unregister n (bus_api b)"
  by (auto simp: bus_Unregister_def)

lemma AuthorizeInstallation_state:
  "AuthorizeInstallation cp q ask h origin i cap dev m = (r, m') \<Longrightarrow> \<exists>k. m' = m\<lparr>pm_index := k\<rparr>"
proof -
  have self: "m = m\<lparr>pm_index := pm_index m\<rparr>" by simp
  assume "AuthorizeInstallation cp q ask h origin i cap dev m = (r, m')"
  then have "m' = m \<or> m' = m\<lparr>pm_index := Suc (pm_index m)\<rparr>"
    by (auto simp: AuthorizeInstallation_def confirmDeveloperInstallation_def perm_handle_def Let_def
        split: if_splits prod.splits option.splits)
  with self show ?thesis by metis
qed

lemma AuthorizeInstallation_granted:
  assumes "AuthorizeInstallation cp q ask h origin i cap dev m = ((True, None), m')"
  shows "fresh_confirmation h origin cap = (True, None) \<and>
         (dev \<longrightarrow> (\<exists>m1. confirmDeveloperInstallation cp q ask i m = ((True, None), m1)))"
  using assms
  by (auto simp: AuthorizeInstallation_def Let_def split: if_splits prod.splits)

lemma authorizeInstallation_result:
  assumes "authorizeInstallation env man origin cap w = (e, w1)"
  shows "\<exists>k. w1 = w\<lparr>w_perm := (w_perm w)\<lparr>pm_index := k\<rparr>\<rparr>"
    and "e = None \<Longrightarrow> fresh_confirmation (ne_confirm env) origin cap = (True, None) \<and>
           (m_Trust man = T_Developer \<longrightarrow>
             (\<exists>m1. confirmDeveloperInstallation (ne_parser env) (ne_quote env) (ne_ask env) (m_ID man)
                     (w_perm w) = ((True, None), m1)))"
proof -
  obtain granted err p where a: "AuthorizeInstallation (ne_parser env) (ne_quote env) (ne_ask env)
      (ne_confirm env) origin (m_ID man) cap (m_Trust man = T_Developer) (w_perm w) = ((granted, err), p)"
    by (metis surj_pair)
  then have w1: "w1 = w\<lparr>w_perm := p\<rparr>" and e: "e = None \<Longrightarrow> granted \<and> err = None"
    using assms by (auto simp: authorizeInstallation_def split: option.splits if_splits)
  from AuthorizeInstallation_state[OF a] w1 show "\<exists>k. w1 = w\<lparr>w_perm := (w_perm w)\<lparr>pm_index := k\<rparr>\<rparr>" by blast
  assume "e = None"
  with e have "granted" "err = None" by simp_all
  with a have a': "AuthorizeInstallation (ne_parser env) (ne_quote env) (ne_ask env)
      (ne_confirm env) origin (m_ID man) cap (m_Trust man = T_Developer) (w_perm w) = ((True, None), p)" by simp
  show "fresh_confirmation (ne_confirm env) origin cap = (True, None) \<and>
           (m_Trust man = T_Developer \<longrightarrow>
             (\<exists>m1. confirmDeveloperInstallation (ne_parser env) (ne_quote env) (ne_ask env) (m_ID man)
                     (w_perm w) = ((True, None), m1)))"
    using AuthorizeInstallation_granted[OF a'] .
qed

lemma nodes_Spawn_world:
  "nodes_Spawn env i w = (e, w1) \<Longrightarrow> \<exists>ls. w1 = w\<lparr>w_started := ls\<rparr>"
proof -
  have self: "w = w\<lparr>w_started := w_started w\<rparr>" by simp
  assume "nodes_Spawn env i w = (e, w1)"
  then have "w1 = w \<or> (\<exists>ls. w1 = w\<lparr>w_started := ls\<rparr>)"
    by (auto simp: nodes_Spawn_def hyphae_spawn_def Let_def split: option.splits if_splits)
  with self show ?thesis by metis
qed

lemma load_world:
  assumes "(if load then nodes_Spawn env i w else (None, w)) = (e, w1)"
  shows "\<exists>ls. w1 = w\<lparr>w_started := ls\<rparr>"
proof (cases load)
  case True
  with assms nodes_Spawn_world[of env i w e w1] show ?thesis by simp
next
  case False
  with assms have "w1 = w\<lparr>w_started := w_started w\<rparr>" by simp
  then show ?thesis by blast
qed

lemma completeInstallation_cases:
  assumes "completeInstallation env (man, el) load w = Some (e, w')"
  obtains
    (unsaved) err els rd where "reg_Add el (w_registry w) (w_rdisk w) = (Some err, els, rd)" "e = Some err"
      "w' = w\<lparr>w_registry := els, w_rdisk := rd\<rparr>"
  | (installed) els rd b p pd ls where "reg_Add el (w_registry w) (w_rdisk w) = (None, els, rd)"
      "bus_Register (inode_of env (newNode env (w_next w) el man)) (w_bus w) = Some b"
      "w' = w\<lparr>w_registry := els, w_rdisk := rd,
              w_nodes := (w_nodes w)(el_ID el \<mapsto> newNode env (w_next w) el man),
              w_next := Suc (w_next w), w_bus := b, w_perm := p, w_pdisk := pd, w_started := ls\<rparr>"
proof -
  obtain e0 els rd where add: "reg_Add el (w_registry w) (w_rdisk w) = (e0, els, rd)" by (metis surj_pair)
  show thesis
  proof (cases e0)
    case (Some err)
    with add assms have "e = Some err" "w' = w\<lparr>w_registry := els, w_rdisk := rd\<rparr>"
      by (simp_all add: completeInstallation_def)
    with unsaved add Some show ?thesis by metis
  next
    case None
    define node where "node = newNode env (w_next w) el man"
    obtain b where b: "bus_Register (inode_of env node) (w_bus w) = Some b"
      using assms add None by (auto simp: completeInstallation_def Let_def node_def split: option.splits)
    obtain p pd where rp: "request_permissions env (el_ID el) (m_Permissions (nn_manifest node))
        (RegisterNode (Some (nn_manifest node)) (w_perm w)) (w_pdisk w) = (p, pd)" by (metis surj_pair)
    define w1 where "w1 = w\<lparr>w_registry := els, w_rdisk := rd, w_nodes := (w_nodes w)(el_ID el \<mapsto> node),
        w_next := Suc (w_next w), w_bus := b, w_perm := p, w_pdisk := pd\<rparr>"
    have "(if load then nodes_Spawn env (el_ID el) w1 else (None, w1)) = (e, w')"
      using assms add None b rp by (cases load; simp add: completeInstallation_def Let_def node_def w1_def)
    from load_world[OF this] obtain ls where "w' = w1\<lparr>w_started := ls\<rparr>" by blast
    then show ?thesis unfolding node_def w1_def by (rule installed[OF add[unfolded None] b[unfolded node_def]])
  qed
qed

lemma reg_Add_elements: "reg_Add el els d = (e, els', d') \<Longrightarrow> els' = els @ [el]"
  by (auto simp: reg_Add_def Let_def split: prod.splits)

lemma reg_Add_file: "reg_Add el els d = (None, els', d') \<Longrightarrow> rd_file d' = els @ [el]"
  by (auto simp: reg_Add_def Let_def split: prod.splits dest: reg_save_result)

section \<open>Installation\<close>

lemma prepareInstallation_validated:
  assumes "prepareInstallation env path = Inr (man, el)"
  shows "ValidateReservedLanguage man = []"
  using assms
  by (auto simp: prepareInstallation_def Let_def split: if_splits option.splits sum.splits prod.splits)

lemma nodes_Install_cases:
  assumes "nodes_Install env path load origin w = Some (e, w')"
  obtains
    (refused) err k where "e = Some err" "w' = w\<lparr>w_perm := (w_perm w)\<lparr>pm_index := k\<rparr>\<rparr>"
  | (authorised) man el k where "prepareInstallation env path = Inr (man, el)"
      "fresh_confirmation (ne_confirm env) origin nodeInstallCapability = (True, None)"
      "m_Trust man = T_Developer \<longrightarrow> (\<exists>m1. confirmDeveloperInstallation (ne_parser env) (ne_quote env)
         (ne_ask env) (m_ID man) (w_perm w) = ((True, None), m1))"
      "completeInstallation env (man, el) load (w\<lparr>w_perm := (w_perm w)\<lparr>pm_index := k\<rparr>\<rparr>) = Some (e, w')"
proof (cases "prepareInstallation env path")
  case (Inl err)
  have "w = w\<lparr>w_perm := (w_perm w)\<lparr>pm_index := pm_index (w_perm w)\<rparr>\<rparr>" by simp
  moreover have "e = Some err" "w' = w" using assms Inl by (simp_all add: nodes_Install_def)
  ultimately show thesis using refused by metis
next
  case (Inr cand)
  obtain man el where cand: "cand = (man, el)" by (metis surj_pair)
  obtain e1 w1 where a: "authorizeInstallation env man origin nodeInstallCapability w = (e1, w1)"
    by (metis surj_pair)
  obtain k where k: "w1 = w\<lparr>w_perm := (w_perm w)\<lparr>pm_index := k\<rparr>\<rparr>"
    using authorizeInstallation_result(1)[OF a] by blast
  show thesis
  proof (cases e1)
    case (Some err)
    with assms Inr cand a have "e = Some err" "w' = w1" by (simp_all add: nodes_Install_def)
    with refused k show ?thesis by metis
  next
    case None
    with assms Inr cand a have "completeInstallation env (man, el) load w1 = Some (e, w')"
      by (simp add: nodes_Install_def)
    with authorised[of man el k] authorizeInstallation_result(2)[OF a None] Inr cand k show ?thesis by simp
  qed
qed


section \<open>Removal\<close>

lemma reg_Remove_result:
  assumes "reg_Remove i els d = (None, els', d')"
  obtains pre el post where "els = pre @ el # post" "els' = pre @ post" "el_ID el = i"
    "\<forall>x \<in> set pre. el_ID x \<noteq> i" "rd_file d' = els'"
proof -
  obtain els1 where r: "remove_id i els = Some els1"
    using assms by (auto simp: reg_Remove_def split: option.splits)
  with assms have "els1 = els'" "reg_save els' d = (None, d')"
    by (auto simp: reg_Remove_def Let_def split: prod.splits)
  with that remove_id_Some[OF r] reg_save_result show thesis by blast
qed

lemma RemoveNode_ok:
  "RemoveNode i m d = (None, m', d') \<Longrightarrow> pm_allowances m' i = None \<and> pd_file d' = Some (pm_allowances m')"
  by (auto simp: RemoveNode_def Let_def split: prod.splits dest: perm_save_ok)

lemma nodes_Uninstall_ok:
  assumes "nodes_Uninstall env i0 w = Some (None, w')"
  obtains node b els rd p pd where "w_nodes w (resolveId env w i0) = Some node"
    "bus_Unregister (inode_of env node) (w_bus w) = Some b"
    "reg_Remove (el_ID (nn_registry node)) (w_registry w) (w_rdisk w) = (None, els, rd)"
    "RemoveNode (el_ID (nn_registry node)) (w_perm w) (w_pdisk w) = (None, p, pd)"
    "w' = w\<lparr>w_bus := b, w_nodes := (w_nodes w)(resolveId env w i0 := None), w_registry := els,
            w_rdisk := rd, w_perm := p, w_pdisk := pd\<rparr>"
  using assms
  by (auto simp: nodes_Uninstall_def Let_def split: option.splits prod.splits)

text \<open>The installed nodes, the registry and the bus agree on the ids.\<close>

definition nodes_inv :: "world \<Rightarrow> bool" where
  "nodes_inv w \<longleftrightarrow> (\<forall>i n. w_nodes w i = Some n \<longrightarrow>
     el_ID (nn_registry n) = i \<and> (\<exists>el \<in> set (w_registry w). el_ID el = i) \<and>
     (\<exists>x. a_nodes (bus_api (w_bus w)) i = Some x \<and> n_id x = i \<and> n_ptr x = nn_ptr n))"

lemma nodes_invD:
  assumes "nodes_inv w" "w_nodes w i = Some n"
  shows "el_ID (nn_registry n) = i" "\<exists>el \<in> set (w_registry w). el_ID el = i"
    "\<exists>x. a_nodes (bus_api (w_bus w)) i = Some x \<and> n_id x = i \<and> n_ptr x = nn_ptr n"
  using assms unfolding nodes_inv_def by metis+


lemma nodes_New_dom:
  "fst (nodes_New env els) i \<noteq> None \<longleftrightarrow> i \<in> el_ID ` set els"
proof -
  define f where "f = (\<lambda>el (m, ptr). (m(el_ID el \<mapsto> newNode env ptr el
      (manifest_New (ne_fs env) (el_Manifest el) (el_Checksum el))), Suc ptr))"
  have "fst (fold f els s) i \<noteq> None \<longleftrightarrow> i \<in> el_ID ` set els \<or> fst s i \<noteq> None" for s
  proof (induction els arbitrary: s)
    case (Cons el els)
    have "fst (f el s) i \<noteq> None \<longleftrightarrow> i = el_ID el \<or> fst s i \<noteq> None"
      by (cases s) (auto simp: f_def)
    with Cons.IH[of "f el s"] show ?case by auto
  qed simp
  then show ?thesis by (simp add: nodes_New_def f_def)
qed

text \<open>
  A node installed twice cannot be removed. \<open>Install\<close> does not look for a node with the id and
  appends its element, \<open>Remove\<close> drops the first element with the id: after a second installation
  under an id the registry already has, a successful \<open>Uninstall\<close> leaves the newest element in the
  file, and the node is back when the daemon starts from that file.
\<close>
lemma node_installed_twice_comes_back:
  assumes "nodes_Install env path load origin w = Some (None, w1)" "el_ID (last (w_registry w1)) = i"
    "\<exists>el \<in> set (w_registry w). el_ID el = i"
    "nodes_Uninstall env' i w1 = Some (None, w2)" "nodes_inv w1"
  shows "w_nodes w2 i = None \<and> last (w_registry w1) \<in> set (rd_file (w_rdisk w2)) \<and>
         fst (nodes_New env'' (rd_file (w_rdisk w2))) i \<noteq> None"
proof -
  obtain el where el: "w_registry w1 = w_registry w @ [el]" "w_nodes w1 (el_ID el) \<noteq> None"
    using assms(1)
    by (cases rule: nodes_Install_cases)
      (auto elim!: completeInstallation_cases dest: reg_Add_elements)
  then have i: "el_ID el = i" "last (w_registry w1) = el" using assms(2) by simp_all
  have res: "resolveId env' w1 i = i" using el(2) i(1) by (auto simp: resolveId_def)
  from assms(4) obtain node els rd p pd b where u: "w_nodes w1 i = Some node"
    "reg_Remove (el_ID (nn_registry node)) (w_registry w1) (w_rdisk w1) = (None, els, rd)"
    "w_nodes w2 = (w_nodes w1)(i := None)" "w_rdisk w2 = rd"
    by (rule nodes_Uninstall_ok) (simp add: res)
  have "el_ID (nn_registry node) = i" using nodes_invD(1)[OF assms(5) u(1)] .
  with reg_Remove_result[OF u(2)] obtain pre x post where r: "w_registry w1 = pre @ x # post"
    "rd_file rd = pre @ post" "\<forall>y \<in> set pre. el_ID y \<noteq> i" by metis
  have "post \<noteq> []"
  proof
    assume "post = []"
    with r(1) el(1) have "pre = w_registry w" by simp
    with r(3) assms(3) show False by blast
  qed
  then have "el \<in> set (rd_file rd)" using r i(2) by (metis last.simps last_appendR last_in_set list.distinct(1) UnCI set_append)
  with nodes_New_dom[of env'' "rd_file rd" i] i u show ?thesis by force
qed

section \<open>Reachable worlds\<close>

text \<open>
  The calls the daemon makes on the nodes, one after the other, each with the environment it meets, and
  what the rest of the daemon does to the state they share: another part registers with the bus under
  an id of its own, requests, responses and subscriptions pass the bus and leave its nodes alone, the
  permissions change, and identities are given out. The start registers every node of the table, in
  some order of the node map.
\<close>

inductive nodes_step :: "world \<Rightarrow> world \<Rightarrow> bool" where
  install: "nodes_Install env path load origin w = Some (e, w') \<Longrightarrow> nodes_step w w'"
| uninstall: "nodes_Uninstall env i w = Some (e, w') \<Longrightarrow> nodes_step w w'"
| reinstall: "nodes_Reinstall env i load origin w = Some (e, w') \<Longrightarrow> nodes_step w w'"
| reload: "nodes_Reload env i w = (e, w') \<Longrightarrow> nodes_step w w'"
| spawn: "nodes_Spawn env i w = (e, w') \<Longrightarrow> nodes_step w w'"
| autostart: "nodes_Autostart env is w = (ms, w') \<Longrightarrow> nodes_step w w'"
| manifest: "nodes_GetManifest env i w = Some (man, w') \<Longrightarrow> nodes_step w w'"
| connect: "nodes_HandleConnection env hs deadline first w = Some (effs, w') \<Longrightarrow> nodes_step w w'"
| register: "\<lbrakk>bus_Register n (w_bus w) = Some b; w_nodes w (n_id n) = None\<rbrakk> \<Longrightarrow> nodes_step w (w\<lparr>w_bus := b\<rparr>)"
| traffic: "a_nodes (bus_api b) = a_nodes (bus_api (w_bus w)) \<Longrightarrow> nodes_step w (w\<lparr>w_bus := b\<rparr>)"
| permissions: "perm_change (w_perm w) (w_pdisk w) p pd \<Longrightarrow> nodes_step w (w\<lparr>w_perm := p, w_pdisk := pd\<rparr>)"
| identity: "w_next w \<le> k \<Longrightarrow> nodes_step w (w\<lparr>w_next := k\<rparr>)"

definition world_New :: "nodes_env \<Rightarrow> Element list \<Rightarrow> bus \<Rightarrow> Manager \<Rightarrow> perm_disk \<Rightarrow> reg_disk \<Rightarrow> world" where
  "world_New env els b p pd rd =
     \<lparr>w_registry = els, w_rdisk = rd, w_nodes = fst (nodes_New env els), w_next = snd (nodes_New env els),
      w_bus = b, w_perm = p, w_pdisk = pd, w_started = []\<rparr>"

inductive nodes_reach :: "world \<Rightarrow> bool" where
  start: "\<lbrakk>nodes_Set env w0 = Some w; w_nodes w0 = fst (nodes_New env els); w_registry w0 = els;
      snd (nodes_New env els) \<le> w_next w0; el_ID ` set els \<subseteq> set (ne_order env)\<rbrakk>
     \<Longrightarrow> nodes_reach w"
| step: "\<lbrakk>nodes_reach w; nodes_step w w'\<rbrakk> \<Longrightarrow> nodes_reach w'"

section \<open>The invariant\<close>

lemma nodes_inv_cong:
  "\<lbrakk>nodes_inv w; w_nodes w' = w_nodes w; w_registry w' = w_registry w;
    a_nodes (bus_api (w_bus w')) = a_nodes (bus_api (w_bus w))\<rbrakk> \<Longrightarrow> nodes_inv w'"
  by (simp add: nodes_inv_def)

text \<open>Registering or replacing a node under an id, with an element for it.\<close>

lemma nodes_inv_register:
  assumes "nodes_inv w" "bus_Register (inode_of env n) (w_bus w) = Some b" "el_ID (nn_registry n) = i"
    "w_nodes w' = (w_nodes w)(i \<mapsto> n)" "set (w_registry w) \<subseteq> set (w_registry w')"
    "\<exists>el \<in> set (w_registry w'). el_ID el = i" "w_bus w' = b"
  shows "nodes_inv w'"
  unfolding nodes_inv_def
proof (intro allI impI)
  fix j m
  assume m: "w_nodes w' j = Some m"
  have a: "a_nodes (bus_api b) = (a_nodes (bus_api (w_bus w)))(i \<mapsto> inode_of env n)"
    using bus_Register_parts[OF assms(2)] assms(3) by (simp add: api_register_tables inode_of_def)
  show "el_ID (nn_registry m) = j \<and> (\<exists>el \<in> set (w_registry w'). el_ID el = j) \<and>
     (\<exists>x. a_nodes (bus_api (w_bus w')) j = Some x \<and> n_id x = j \<and> n_ptr x = nn_ptr m)"
  proof (cases "j = i")
    case True
    with m assms(3,4,6,7) a show ?thesis by (simp add: inode_of_def)
  next
    case False
    with m assms(4) have "w_nodes w j = Some m" by simp
    from nodes_invD[OF assms(1) this] False a assms(5,7) show ?thesis by auto
  qed
qed

lemma nodes_inv_install:
  assumes "nodes_inv w" "completeInstallation env (man, el) load w = Some (e, w')"
  shows "nodes_inv w'"
  using assms(2)
proof (cases rule: completeInstallation_cases)
  case (unsaved err els rd)
  with assms(1) reg_Add_elements[OF unsaved(1)] show ?thesis by (auto simp: nodes_inv_def)
next
  case (installed els rd b p pd ls)
  show ?thesis
    by (rule nodes_inv_register[OF assms(1) installed(2), of "el_ID el"])
      (use installed(3) reg_Add_elements[OF installed(1)] in \<open>auto simp: newNode_def\<close>)
qed

lemma nodes_inv_authorize:
  "\<lbrakk>nodes_inv w; authorizeInstallation env man origin cap w = (e, w1)\<rbrakk> \<Longrightarrow> nodes_inv w1"
  using authorizeInstallation_result(1)[of env man origin cap w e w1] by (auto simp: nodes_inv_def)

lemma reg_Remove_keeps:
  assumes "reg_Remove i els d = (e, els', d')" "el \<in> set els" "el_ID el \<noteq> i"
  shows "el \<in> set els'"
proof (cases "remove_id i els")
  case None
  with assms show ?thesis by (simp add: reg_Remove_def)
next
  case (Some els1)
  with assms(1) have "els' = els1" by (auto simp: reg_Remove_def Let_def split: prod.splits)
  with remove_id_Some[OF Some] assms(2,3) show ?thesis by auto
qed

lemma nodes_Uninstall_cases:
  assumes "nodes_Uninstall env i0 w = Some (e, w')"
  obtains (missing) "w' = w"
  | (removed) node b els rd p pd e1 where "w_nodes w (resolveId env w i0) = Some node"
      "bus_Unregister (inode_of env node) (w_bus w) = Some b"
      "reg_Remove (el_ID (nn_registry node)) (w_registry w) (w_rdisk w) = (e1, els, rd)"
      "w' = w\<lparr>w_bus := b, w_nodes := (w_nodes w)(resolveId env w i0 := None), w_registry := els,
              w_rdisk := rd, w_perm := p, w_pdisk := pd\<rparr>"
proof (cases "w_nodes w (resolveId env w i0)")
  case None
  with assms missing show thesis by (simp add: nodes_Uninstall_def Let_def)
next
  case (Some node)
  obtain b where b: "bus_Unregister (inode_of env node) (w_bus w) = Some b"
    using assms Some by (auto simp: nodes_Uninstall_def Let_def split: option.splits)
  obtain e1 els rd where r: "reg_Remove (el_ID (nn_registry node)) (w_registry w) (w_rdisk w) = (e1, els, rd)"
    by (metis surj_pair)
  obtain e2 p pd where q: "RemoveNode (el_ID (nn_registry node)) (w_perm w) (w_pdisk w) = (e2, p, pd)"
    by (metis surj_pair)
  let ?w = "w\<lparr>w_bus := b, w_nodes := (w_nodes w)(resolveId env w i0 := None), w_registry := els, w_rdisk := rd\<rparr>"
  have "?w = ?w\<lparr>w_perm := w_perm w, w_pdisk := w_pdisk w\<rparr>" by (cases w) simp
  moreover have "w' = ?w \<or> w' = ?w\<lparr>w_perm := p, w_pdisk := pd\<rparr>"
    using assms Some b r q by (cases e1) (auto simp: nodes_Uninstall_def Let_def)
  ultimately have "w' = ?w\<lparr>w_perm := w_perm w, w_pdisk := w_pdisk w\<rparr> \<or> w' = ?w\<lparr>w_perm := p, w_pdisk := pd\<rparr>"
    by metis
  with removed[OF Some b r] show thesis by metis
qed

lemma nodes_inv_uninstall:
  assumes "nodes_inv w" "nodes_Uninstall env i0 w = Some (e, w')"
  shows "nodes_inv w'"
  using assms(2)
proof (cases rule: nodes_Uninstall_cases)
  case missing
  with assms(1) show ?thesis by simp
next
  case (removed node b els rd p pd e1)
  define i where "i = resolveId env w i0"
  have i: "el_ID (nn_registry node) = i" using nodes_invD(1)[OF assms(1) removed(1)] by (simp add: i_def)
  have a: "a_nodes (bus_api b) = (a_nodes (bus_api (w_bus w)))(i := None)"
    using bus_Unregister_parts[OF removed(2)] i by (simp add: api_unregister_tables inode_of_def)
  show ?thesis
    unfolding nodes_inv_def
  proof (intro allI impI)
    fix j m
    assume "w_nodes w' j = Some m"
    with removed(4) have "j \<noteq> i" "w_nodes w j = Some m" by (auto simp: i_def split: if_splits)
    from nodes_invD[OF assms(1) this(2)] obtain el x where m: "el_ID (nn_registry m) = j"
      "el \<in> set (w_registry w)" "el_ID el = j"
      "a_nodes (bus_api (w_bus w)) j = Some x" "n_id x = j" "n_ptr x = nn_ptr m" by blast
    with reg_Remove_keeps[OF removed(3), of el] i \<open>j \<noteq> i\<close> have "el \<in> set els" by simp
    with m a removed(4) \<open>j \<noteq> i\<close>
    show "el_ID (nn_registry m) = j \<and> (\<exists>el \<in> set (w_registry w'). el_ID el = j) \<and>
     (\<exists>x. a_nodes (bus_api (w_bus w')) j = Some x \<and> n_id x = j \<and> n_ptr x = nn_ptr m)"
      by auto
  qed
qed

lemma nodes_Autostart_world:
  "nodes_Autostart env is w = (ms, w') \<Longrightarrow> \<exists>ls. w' = w\<lparr>w_started := ls\<rparr>"
proof (induction "is" arbitrary: w ms w')
  case Nil
  then have "w' = w\<lparr>w_started := w_started w\<rparr>" by simp
  then show ?case by blast
next
  case (Cons i "is")
  show ?case
  proof (cases "w_nodes w i")
    case None
    with Cons show ?thesis by simp
  next
    case (Some el)
    obtain e w0 where sp: "nodes_Spawn env (el_ID (nn_registry el)) w = (e, w0)" by (metis surj_pair)
    then obtain ls0 where w0: "w0 = w\<lparr>w_started := ls0\<rparr>" using nodes_Spawn_world by blast
    obtain ms1 w1 where r1: "nodes_Autostart env is w = (ms1, w1)" by (metis surj_pair)
    obtain ms2 w2 where r2: "nodes_Autostart env is w0 = (ms2, w2)" by (metis surj_pair)
    have "w' = w1 \<or> w' = w2" using Cons.prems Some sp r1 r2 by (auto split: if_splits)
    with Cons.IH[OF r1] Cons.IH[OF r2] w0 show ?thesis by auto
  qed
qed

lemma apply_hs_inv:
  assumes "apply_hs env n effs w = Some w'" "nodes_inv w" "w_nodes w i = Some n"
  shows "nodes_inv w' \<and> w_nodes w' = w_nodes w \<and> w_registry w' = w_registry w"
  using assms
proof (induction effs arbitrary: w)
  case (Cons eff effs)
  note id = nodes_invD(1)[OF Cons.prems(2,3)]
  show ?case
  proof (cases eff)
    case (HBusRegister man)
    then obtain b where b: "bus_Register (inode_of env (n\<lparr>nn_manifest := man\<rparr>)) (w_bus w) = Some b"
      "apply_hs env n effs (w\<lparr>w_bus := b\<rparr>) = Some w'"
      using Cons.prems(1) by (auto split: option.splits)
    have a: "a_nodes (bus_api b) = (a_nodes (bus_api (w_bus w)))(i \<mapsto> inode_of env (n\<lparr>nn_manifest := man\<rparr>))"
      using bus_Register_parts[OF b(1)] id by (simp add: api_register_tables inode_of_def)
    have "nodes_inv (w\<lparr>w_bus := b\<rparr>)"
      unfolding nodes_inv_def
    proof (intro allI impI)
      fix j m
      assume "w_nodes (w\<lparr>w_bus := b\<rparr>) j = Some m"
      with nodes_invD[OF Cons.prems(2), of j m] Cons.prems(3) id a
      show "el_ID (nn_registry m) = j \<and> (\<exists>el \<in> set (w_registry (w\<lparr>w_bus := b\<rparr>)). el_ID el = j) \<and>
        (\<exists>x. a_nodes (bus_api (w_bus (w\<lparr>w_bus := b\<rparr>))) j = Some x \<and> n_id x = j \<and> n_ptr x = nn_ptr m)"
        by (cases "j = i") (auto simp: inode_of_def)
    qed
    with Cons.IH[OF b(2)] Cons.prems(3) show ?thesis by simp
  next
    case (HPermRegister man)
    have "nodes_inv (w\<lparr>w_perm := RegisterNode (Some man) (w_perm w)\<rparr>)"
      by (rule nodes_inv_cong[OF Cons.prems(2)]) simp_all
    with Cons HPermRegister show ?thesis by simp
  qed (use Cons in auto)
qed simp

text \<open>The manifests a handshake hands to the permission manager: at most one.\<close>

fun registered_manifests :: "hs_effect list \<Rightarrow> Manifest list" where
  "registered_manifests [] = []"
| "registered_manifests (HPermRegister m # effs) = m # registered_manifests effs"
| "registered_manifests (_ # effs) = registered_manifests effs"

lemma registered_manifests_append [simp]:
  "registered_manifests (xs @ ys) = registered_manifests xs @ registered_manifests ys"
  by (induction xs rule: registered_manifests.induct) simp_all

lemma set_registered_manifests: "m \<in> set (registered_manifests effs) \<longleftrightarrow> HPermRegister m \<in> set effs"
  by (induction effs rule: registered_manifests.induct) auto

lemma finish_registers_once: "registered_manifests (snd (finish_handshake env reg man act)) = [man]"
  by (simp add: finish_handshake_def)

lemma settle_registers_once: "length (registered_manifests (snd (settle_binary env reg man act b))) \<le> 1"
  by (auto simp: settle_binary_def finish_registers_once split: option.split)

lemma verify_binary_registers_once: "length (registered_manifests (snd (verify_binary env reg man))) \<le> 1"
proof -
  have "length (registered_manifests (snd (provisional_binary env reg man b))) \<le> 1" for b
    using settle_registers_once[of env reg man True "b\<lparr>bn_status := Verified\<rparr>"]
    by (auto simp: provisional_binary_def Let_def split: sum.split prod.split)
  with settle_registers_once show ?thesis
    by (simp add: verify_binary_def Let_def split: option.split)
qed

lemma handshake_registers_once:
  "handleConnection env reg man0 = (e, man, effs) \<Longrightarrow> length (registered_manifests effs) \<le> 1"
  using verify_binary_registers_once[of env reg man]
  by (auto simp: handleConnection_def Let_def split: option.splits prod.splits if_splits)

lemma apply_hs_parts:
  "apply_hs env n effs w = Some w' \<Longrightarrow>
     w_perm w' = fold (\<lambda>m. RegisterNode (Some m)) (registered_manifests effs) (w_perm w) \<and>
     w_nodes w' = w_nodes w \<and> w_registry w' = w_registry w \<and> w_rdisk w' = w_rdisk w \<and> w_pdisk w' = w_pdisk w"
  by (induction env n effs w rule: apply_hs.induct) (auto split: option.splits)

lemma nodes_inv_manifest:
  assumes "nodes_inv w" "w_nodes w i = Some n"
  shows "nodes_inv (w\<lparr>w_nodes := (w_nodes w)(i \<mapsto> n\<lparr>nn_manifest := man\<rparr>)\<rparr>)"
  unfolding nodes_inv_def
proof (intro allI impI)
  fix j m
  assume "w_nodes (w\<lparr>w_nodes := (w_nodes w)(i \<mapsto> n\<lparr>nn_manifest := man\<rparr>)\<rparr>) j = Some m"
  with nodes_invD[OF assms] nodes_invD[OF assms(1), of j m]
  show "el_ID (nn_registry m) = j \<and>
     (\<exists>el \<in> set (w_registry (w\<lparr>w_nodes := (w_nodes w)(i \<mapsto> n\<lparr>nn_manifest := man\<rparr>)\<rparr>)). el_ID el = j) \<and>
     (\<exists>x. a_nodes (bus_api (w_bus (w\<lparr>w_nodes := (w_nodes w)(i \<mapsto> n\<lparr>nn_manifest := man\<rparr>)\<rparr>))) j = Some x \<and>
        n_id x = j \<and> n_ptr x = nn_ptr m)"
    by (cases "j = i") auto
qed

text \<open>A connection leaves the daemon as it is, or its first line names a node and the handshake runs.\<close>

lemma nodes_HandleConnection_cases:
  assumes "nodes_HandleConnection env hs deadline first w = Some (effs, w')"
  obtains (unchanged) "w' = w"
  | (handshake) line n e man heffs w1 where "first = Inr line" "w_nodes w (TrimSpace line) = Some n"
      "handleConnection hs (nn_registry n) (nn_manifest n) = (e, man, heffs)"
      "apply_hs env n heffs w = Some w1"
      "w' = w1\<lparr>w_nodes := (w_nodes w1)(TrimSpace line \<mapsto> n\<lparr>nn_manifest := man\<rparr>)\<rparr>"
  using assms unfolding nodes_HandleConnection_def Let_def
  by (cases first) (auto split: option.splits prod.splits)

lemma nodes_inv_connect:
  assumes "nodes_inv w" "nodes_HandleConnection env hs deadline first w = Some (effs, w')"
  shows "nodes_inv w'"
  using assms(2)
proof (cases rule: nodes_HandleConnection_cases)
  case unchanged
  with assms(1) show ?thesis by simp
next
  case (handshake line n e man heffs w1)
  from apply_hs_inv[OF handshake(4) assms(1) handshake(2)] handshake(2)
  have "nodes_inv w1" "w_nodes w1 (TrimSpace line) = Some n" by simp_all
  from nodes_inv_manifest[OF this] handshake(5) show ?thesis by simp
qed

lemma nodes_inv_GetManifest:
  assumes "nodes_inv w" "nodes_GetManifest env i0 w = Some (r, w')"
  shows "nodes_inv w'"
proof -
  have "w' = w \<or> (\<exists>n man b. w_nodes w (resolveId env w i0) = Some n \<and>
      bus_Register (inode_of env (n\<lparr>nn_manifest := man\<rparr>)) (w_bus w) = Some b \<and>
      w' = w\<lparr>w_bus := b, w_nodes := (w_nodes w)(resolveId env w i0 \<mapsto> n\<lparr>nn_manifest := man\<rparr>)\<rparr>)"
    using assms(2) unfolding nodes_GetManifest_def Let_def
    by (auto split: option.splits if_splits sum.splits)
  then show ?thesis
  proof
    assume "w' = w"
    with assms(1) show ?thesis by simp
  next
    assume "\<exists>n man b. w_nodes w (resolveId env w i0) = Some n \<and>
      bus_Register (inode_of env (n\<lparr>nn_manifest := man\<rparr>)) (w_bus w) = Some b \<and>
      w' = w\<lparr>w_bus := b, w_nodes := (w_nodes w)(resolveId env w i0 \<mapsto> n\<lparr>nn_manifest := man\<rparr>)\<rparr>"
    then obtain n man b where c: "w_nodes w (resolveId env w i0) = Some n"
      "bus_Register (inode_of env (n\<lparr>nn_manifest := man\<rparr>)) (w_bus w) = Some b"
      "w' = w\<lparr>w_bus := b, w_nodes := (w_nodes w)(resolveId env w i0 \<mapsto> n\<lparr>nn_manifest := man\<rparr>)\<rparr>" by blast
    show ?thesis
      by (rule nodes_inv_register[OF assms(1) c(2), of "resolveId env w i0"])
        (use nodes_invD[OF assms(1) c(1)] c(3) in simp_all)
  qed
qed

lemma nodes_inv_started: "nodes_inv w \<Longrightarrow> nodes_inv (w\<lparr>w_started := ls\<rparr>)"
  by (rule nodes_inv_cong) simp_all

lemma nodes_inv_reinstall:
  assumes "nodes_inv w" "nodes_Reinstall env i load origin w = Some (e, w')"
  shows "nodes_inv w'"
proof (cases "w_nodes w (resolveId env w i)")
  case None
  with assms show ?thesis by (simp add: nodes_Reinstall_def Let_def)
next
  case (Some node)
  note node = Some
  show ?thesis
  proof (cases "prepareInstallation env (el_Manifest (nn_registry node))")
    case (Inl err)
    with assms node show ?thesis by (simp add: nodes_Reinstall_def Let_def)
  next
    case (Inr cand)
    obtain e1 w1 where a: "authorizeInstallation env (fst cand) origin nodeReinstallCapability w = (e1, w1)"
      by (metis surj_pair)
    note w1 = nodes_inv_authorize[OF assms(1) a]
    show ?thesis
    proof (cases e1)
      case (Some err)
      with assms(2) node Inr a w1 show ?thesis by (simp add: nodes_Reinstall_def Let_def)
    next
      case None
      then obtain e2 w2 where u: "nodes_Uninstall env (resolveId env w i) w1 = Some (e2, w2)"
        using assms(2) node Inr a by (auto simp: nodes_Reinstall_def Let_def split: option.splits)
      note w2 = nodes_inv_uninstall[OF w1 u]
      show ?thesis
      proof (cases e2)
        case (Some err)
        with assms(2) node Inr a None u w2 show ?thesis by (simp add: nodes_Reinstall_def Let_def)
      next
        case None
        with assms(2) node Inr a \<open>e1 = None\<close> u have "completeInstallation env cand load w2 = Some (e, w')"
          by (simp add: nodes_Reinstall_def Let_def)
        with nodes_inv_install[OF w2] show ?thesis by (metis surj_pair)
      qed
    qed
  qed
qed

lemma nodes_step_inv: "\<lbrakk>nodes_step w w'; nodes_inv w\<rbrakk> \<Longrightarrow> nodes_inv w'"
proof (induction rule: nodes_step.induct)
  case (install env path load origin w e w')
  from install(1) show ?case
  proof (cases rule: nodes_Install_cases)
    case (authorised man el k)
    have "nodes_inv (w\<lparr>w_perm := (w_perm w)\<lparr>pm_index := k\<rparr>\<rparr>)"
      by (rule nodes_inv_cong[OF install(2)]) simp_all
    from nodes_inv_install[OF this authorised(4)] show ?thesis .
  qed (use install(2) in \<open>auto simp: nodes_inv_def\<close>)
next
  case (reload env i w e w')
  then show ?case
    by (auto simp: nodes_Reload_def nodes_inv_started dest: nodes_Spawn_world split: option.splits)
next
  case (register n w b)
  from register(1) have a: "a_nodes (bus_api b) = (a_nodes (bus_api (w_bus w)))(n_id n \<mapsto> n)"
    using bus_Register_parts api_register_tables(1) by simp
  show ?case
    unfolding nodes_inv_def
  proof (intro allI impI)
    fix i m
    assume "w_nodes (w\<lparr>w_bus := b\<rparr>) i = Some m"
    with register(2) have "w_nodes w i = Some m" "i \<noteq> n_id n" by auto
    with nodes_invD[OF register(3) this(1)] a
    show "el_ID (nn_registry m) = i \<and> (\<exists>el \<in> set (w_registry (w\<lparr>w_bus := b\<rparr>)). el_ID el = i) \<and>
      (\<exists>x. a_nodes (bus_api (w_bus (w\<lparr>w_bus := b\<rparr>))) i = Some x \<and> n_id x = i \<and> n_ptr x = nn_ptr m)"
      by auto
  qed
next
  case (traffic b w)
  show ?case by (rule nodes_inv_cong[OF traffic(2)]) (simp_all add: traffic(1))
next
  case (permissions w p pd)
  show ?case by (rule nodes_inv_cong[OF permissions(2)]) simp_all
next
  case (identity w k)
  show ?case by (rule nodes_inv_cong[OF identity(2)]) simp_all
qed (auto simp: nodes_inv_started dest: nodes_Spawn_world nodes_Autostart_world
      intro: nodes_inv_uninstall nodes_inv_reinstall nodes_inv_GetManifest nodes_inv_connect)

lemma nodes_New_ids:
  "fst (nodes_New env els) i = Some n \<Longrightarrow> el_ID (nn_registry n) = i"
proof -
  define f where "f = (\<lambda>el (m, ptr). (m(el_ID el \<mapsto> newNode env ptr el
      (manifest_New (ne_fs env) (el_Manifest el) (el_Checksum el))), Suc ptr))"
  have key: "(\<And>i n. fst s i = Some n \<Longrightarrow> el_ID (nn_registry n) = i) \<Longrightarrow>
      fst (fold f els s) i = Some n \<Longrightarrow> el_ID (nn_registry n) = i" for s
  proof (induction els arbitrary: s)
    case (Cons el els)
    show ?case
    proof (rule Cons.IH)
      show "fst (fold f els (f el s)) i = Some n" using Cons.prems(2) by simp
      show "fst (f el s) j = Some m \<Longrightarrow> el_ID (nn_registry m) = j" for j m
        using Cons.prems(1)[of j m] by (cases s) (auto simp: f_def newNode_def split: if_splits)
    qed
  qed simp
  assume "fst (nodes_New env els) i = Some n"
  with key[of "(\<lambda>_. None, 1)"] show ?thesis by (simp add: nodes_New_def f_def)
qed

lemma register_all_nodes:
  assumes "register_all env is w = Some w'" "\<And>j m. w_nodes w j = Some m \<Longrightarrow> el_ID (nn_registry m) = j"
  shows "w_nodes w' = w_nodes w \<and> w_registry w' = w_registry w \<and>
         (\<forall>i n. w_nodes w i = Some n \<and> (i \<in> set is \<or> a_nodes (bus_api (w_bus w)) i = Some (inode_of env n)) \<longrightarrow>
            a_nodes (bus_api (w_bus w')) i = Some (inode_of env n))"
  using assms
proof (induction env "is" w rule: register_all.induct)
  case (2 env i "is" w)
  show ?case
  proof (cases "w_nodes w i")
    case None
    with 2 show ?thesis by auto
  next
    case (Some node)
    then obtain b where b: "bus_Register (inode_of env node) (w_bus w) = Some b"
      "register_all env is (w\<lparr>w_bus := b\<rparr>) = Some w'"
      using 2(3) by (auto split: option.splits)
    have a: "a_nodes (bus_api b) = (a_nodes (bus_api (w_bus w)))(i \<mapsto> inode_of env node)"
      using bus_Register_parts[OF b(1)] 2(4)[OF Some] by (simp add: api_register_tables inode_of_def)
    have ih: "w_nodes w' = w_nodes w" "w_registry w' = w_registry w"
      "w_nodes w j = Some m \<Longrightarrow> j \<in> set is \<or> a_nodes (bus_api b) j = Some (inode_of env m) \<Longrightarrow>
         a_nodes (bus_api (w_bus w')) j = Some (inode_of env m)" for j m
      using 2(2)[OF Some b(1) b(2)] 2(4) by simp_all
    have "a_nodes (bus_api (w_bus w')) j = Some (inode_of env m)"
      if "w_nodes w j = Some m" "j \<in> set (i # is) \<or> a_nodes (bus_api (w_bus w)) j = Some (inode_of env m)" for j m
      using ih(3)[OF that(1)] that Some a by (cases "j = i") auto
    with ih(1,2) show ?thesis by blast
  qed
qed simp

lemma nodes_inv_start:
  assumes "nodes_Set env w0 = Some w" "w_nodes w0 = fst (nodes_New env els)" "w_registry w0 = els"
    "el_ID ` set els \<subseteq> set (ne_order env)"
  shows "nodes_inv w"
proof -
  let ?w0 = w0
  obtain b1 where r: "register_all env (ne_order env) (?w0\<lparr>w_bus := b1, w_next := Suc (w_next ?w0)\<rparr>) = Some w"
    using assms(1) by (auto simp: nodes_Set_def split: option.splits)
  have ids: "el_ID (nn_registry m) = j" if "w_nodes ?w0 j = Some m" for j m
    using that nodes_New_ids assms(2) by simp
  have dom: "j \<in> el_ID ` set els" if "w_nodes ?w0 j = Some m" for j m
    using that nodes_New_dom[of env els j] assms(2) by simp
  from register_all_nodes[OF r] ids have w: "w_nodes w = w_nodes ?w0" "w_registry w = els"
    "\<And>i n. w_nodes ?w0 i = Some n \<Longrightarrow> i \<in> set (ne_order env) \<Longrightarrow>
       a_nodes (bus_api (w_bus w)) i = Some (inode_of env n)"
    using assms(3) by simp_all
  show ?thesis
    unfolding nodes_inv_def
  proof (intro allI impI)
    fix i n
    assume "w_nodes w i = Some n"
    with w(1) have n: "w_nodes ?w0 i = Some n" by simp
    with dom[OF n] assms(4) w(3)[OF n] ids[OF n] w(2)
    show "el_ID (nn_registry n) = i \<and> (\<exists>el \<in> set (w_registry w). el_ID el = i) \<and>
      (\<exists>x. a_nodes (bus_api (w_bus w)) i = Some x \<and> n_id x = i \<and> n_ptr x = nn_ptr n)"
      by (auto simp: inode_of_def)
  qed
qed

lemma nodes_reach_inv: "nodes_reach w \<Longrightarrow> nodes_inv w"
  by (induction rule: nodes_reach.induct) (auto intro: nodes_inv_start nodes_step_inv)

text \<open>
  C12. Every installed node can be found. In every world the daemon can reach from its start by
  installing, uninstalling, reinstalling, reloading, spawning, autostarting, reading manifests and
  accepting connections, while requests, responses and subscriptions pass the bus and permissions
  change, in any order, with any answers from its surroundings and whichever of these calls fail,
  every node of the table has its registry element's id, has an element with that id in the
  registry, and is the value the bus routes to under that id.
\<close>
theorem installed_nodes_are_reachable:
  assumes "nodes_reach w" "w_nodes w i = Some n"
  shows "el_ID (nn_registry n) = i \<and> i \<in> el_ID ` set (w_registry w) \<and>
         (\<exists>x. a_nodes (bus_api (w_bus w)) i = Some x \<and> n_id x = i \<and> n_ptr x = nn_ptr n)"
proof -
  from nodes_invD[OF nodes_reach_inv[OF assms(1)] assms(2)] show ?thesis by (metis imageI)
qed

section \<open>Concrete worlds\<close>

text \<open>A daemon that reads no file itself, a hyphae that confirms everything, and one registered node.\<close>

definition quiet_nodes :: nodes_env where
  "quiet_nodes = \<lparr>ne_fs = two_files\<lparr>fs_opens := (\<lambda>_. False)\<rparr>, ne_yaml = (\<lambda>c m. (m, False)), ne_goos = ''linux'',
     ne_prepare = (\<lambda>_. Inr (plain_manifest, plain_element)), ne_hspawn = (\<lambda>_. None), ne_hkill = (\<lambda>_. None),
     ne_start = (\<lambda>_. None), ne_conn = (\<lambda>_. None), ne_manifest_read = None, ne_hash_file = (\<lambda>_. Inr []),
     ne_parser = echo_parser, ne_quote = (\<lambda>s. s), ne_ask = (\<lambda>m. AskAnswer m),
     ne_confirm = Some (\<lambda>node command. (True, None)), ne_order = [''a'']\<rparr>"

definition working_registry :: reg_disk where
  "working_registry = \<lparr>rd_marshal_err = None, rd_write_err = None, rd_file = []\<rparr>"

definition quiet_world :: world where
  "quiet_world = the (nodes_Set quiet_nodes (world_New quiet_nodes [plain_element] bus_New
     (perm_New FileNotExist) working_disk working_registry))"

definition bus_open :: "world \<Rightarrow> bool" where
  "bus_open w \<longleftrightarrow> \<not> rp_locked (bus_responses (w_bus w))"

lemma bus_Register_open:
  "\<not> rp_locked (bus_responses b) \<Longrightarrow> \<exists>b'. bus_Register n b = Some b' \<and> \<not> rp_locked (bus_responses b')"
  by (auto simp: bus_Register_def responses_register_def)

lemma bus_Unregister_open:
  "\<not> rp_locked (bus_responses b) \<Longrightarrow> \<exists>b'. bus_Unregister n b = Some b' \<and> \<not> rp_locked (bus_responses b')"
  by (auto simp: bus_Unregister_def responses_unregister_def)

lemma quiet_world_start:
  obtains n where "nodes_Set quiet_nodes (world_New quiet_nodes [plain_element] bus_New
      (perm_New FileNotExist) working_disk working_registry) = Some quiet_world"
    "w_nodes quiet_world = [''a'' \<mapsto> n]" "w_registry quiet_world = [plain_element]" "bus_open quiet_world"
    "w_rdisk quiet_world = working_registry" "w_pdisk quiet_world = working_disk"
    "w_perm quiet_world = perm_New FileNotExist"
proof -
  let ?w0 = "world_New quiet_nodes [plain_element] bus_New (perm_New FileNotExist) working_disk working_registry"
  have "\<not> rp_locked (bus_responses bus_New)" by (simp add: bus_New_def newResponses_def)
  then obtain b1 where b1: "bus_Register (nodesSelf (w_next ?w0)) bus_New = Some b1"
    "\<not> rp_locked (bus_responses b1)" using bus_Register_open by blast
  obtain n where n: "w_nodes ?w0 = [''a'' \<mapsto> n]"
    by (simp add: world_New_def nodes_New_def plain_element_def)
  obtain b2 where b2: "bus_Register (inode_of quiet_nodes n) b1 = Some b2"
    "\<not> rp_locked (bus_responses b2)" using bus_Register_open[OF b1(2)] by blast
  have order: "ne_order quiet_nodes = [''a'']" by (simp add: quiet_nodes_def)
  have "w_bus ?w0 = bus_New" by (simp add: world_New_def)
  then have set: "nodes_Set quiet_nodes ?w0 = Some (?w0\<lparr>w_bus := b2, w_next := Suc (w_next ?w0)\<rparr>)"
    using b1(1) b2(1) n by (simp add: nodes_Set_def order)
  then have q: "quiet_world = ?w0\<lparr>w_bus := b2, w_next := Suc (w_next ?w0)\<rparr>" by (simp add: quiet_world_def)
  show thesis
  proof (rule that)
    show "w_nodes quiet_world = [''a'' \<mapsto> n]" unfolding q using n by simp
    show "bus_open quiet_world" unfolding bus_open_def q using b2(2) by simp
    show "nodes_Set quiet_nodes ?w0 = Some quiet_world" unfolding q by (rule set)
  qed (unfold q, simp_all add: world_New_def)
qed

lemma quiet_world_reach: "nodes_reach quiet_world"
  by (rule quiet_world_start)
    (erule nodes_reach.start[where els = "[plain_element]"],
      simp_all add: world_New_def quiet_nodes_def plain_element_def)

theorem installed_nodes_are_reachable_witness:
  "nodes_reach quiet_world \<and> ''a'' \<in> el_ID ` set (w_registry quiet_world)"
proof -
  obtain n where "w_nodes quiet_world ''a'' = Some n" by (rule quiet_world_start) simp
  with installed_nodes_are_reachable[OF quiet_world_reach, of "''a''" n] quiet_world_reach show ?thesis by simp
qed

lemma quiet_Install:
  assumes "bus_open w" "w_rdisk w = working_registry"
  obtains w' where "nodes_Install quiet_nodes ''m.yaml'' False ''a'' w = Some (None, w')"
    "w_registry w' = w_registry w @ [plain_element]" "w_nodes w' ''a'' \<noteq> None" "bus_open w'"
    "w_rdisk w' = working_registry\<lparr>rd_file := w_registry w @ [plain_element]\<rparr>" "w_pdisk w' = w_pdisk w"
proof -
  have v: "ValidateReservedLanguage plain_manifest = []"
    by (simp add: ValidateReservedLanguage_def plain_manifest_def empty_manifest_def HasPrefix_def)
  have "prepareInstallation quiet_nodes ''m.yaml'' = Inr (plain_manifest, plain_element)"
    using v by (simp add: prepareInstallation_def quiet_nodes_def two_files_def IsReadable_def)
  moreover have "m_Trust plain_manifest \<noteq> T_Developer" by (simp add: plain_manifest_def empty_manifest_def)
  then have "authorizeInstallation quiet_nodes plain_manifest ''a'' nodeInstallCapability w = (None, w)"
    by (simp add: authorizeInstallation_def AuthorizeInstallation_def fresh_confirmation_def quiet_nodes_def)
  moreover
  define node where "node = newNode quiet_nodes (w_next w) plain_element plain_manifest"
  obtain b where b: "bus_Register (inode_of quiet_nodes node) (w_bus w) = Some b" "\<not> rp_locked (bus_responses b)"
    using bus_Register_open assms(1) by (auto simp: bus_open_def)
  have ps: "m_Permissions (nn_manifest node) = []"
    by (simp add: node_def newNode_def quiet_nodes_def manifest_Load_def file_Read_def two_files_def
        manifest_Verify_def IsReadable_def plain_manifest_def empty_manifest_def)
  have "reg_Add plain_element (w_registry w) (w_rdisk w) =
      (None, w_registry w @ [plain_element], working_registry\<lparr>rd_file := w_registry w @ [plain_element]\<rparr>)"
    by (simp add: reg_Add_def reg_save_def assms(2) working_registry_def Let_def)
  moreover have "el_ID plain_element = ''a''" by (simp add: plain_element_def)
  ultimately show thesis
    using b ps that unfolding node_def
    by (simp add: nodes_Install_def completeInstallation_def Let_def bus_open_def)
qed


lemma quiet_Uninstall:
  assumes "bus_open w" "w_nodes w ''a'' = Some n" "el_ID (nn_registry n) = ''a''"
    "el_ID el = ''a''" "w_registry w = el # els"
    "rd_marshal_err (w_rdisk w) = None" "rd_write_err (w_rdisk w) = None" "w_pdisk w = working_disk"
  obtains w' where "nodes_Uninstall quiet_nodes ''a'' w = Some (None, w')"
proof -
  obtain b where b: "bus_Unregister (inode_of quiet_nodes n) (w_bus w) = Some b"
    using bus_Unregister_open assms(1) by (auto simp: bus_open_def)
  obtain d where "reg_Remove ''a'' (w_registry w) (w_rdisk w) = (None, els, d)"
    using assms(4-7) by (simp add: reg_Remove_def reg_save_def Let_def)
  moreover obtain p pd where "RemoveNode ''a'' (w_perm w) (w_pdisk w) = (None, p, pd)"
    using assms(8) by (simp add: RemoveNode_def perm_save_def working_disk_def Let_def)
  moreover have "resolveId quiet_nodes w ''a'' = ''a''" using assms(2) by (simp add: resolveId_def)
  ultimately show thesis
    using b assms(2,3) that by (simp add: nodes_Uninstall_def Let_def)
qed


lemma node_installed_twice_comes_back_witness:
  "\<exists>w1 w2. nodes_Install quiet_nodes ''m.yaml'' False ''a'' quiet_world = Some (None, w1) \<and>
     nodes_Uninstall quiet_nodes ''a'' w1 = Some (None, w2) \<and>
     fst (nodes_New quiet_nodes (rd_file (w_rdisk w2))) ''a'' \<noteq> None"
proof -
  have q: "w_registry quiet_world = [plain_element]" "bus_open quiet_world"
    "w_rdisk quiet_world = working_registry" "w_pdisk quiet_world = working_disk"
    by (rule quiet_world_start, assumption)+
  have inv: "nodes_inv quiet_world"
    by (rule quiet_world_start) (erule nodes_inv_start[where els = "[plain_element]"],
      simp_all add: world_New_def quiet_nodes_def plain_element_def)
  have el: "el_ID plain_element = ''a''" by (simp add: plain_element_def)
  obtain w1 n where i: "nodes_Install quiet_nodes ''m.yaml'' False ''a'' quiet_world = Some (None, w1)"
    "w_registry w1 = [plain_element, plain_element]" "w_nodes w1 ''a'' = Some n" "bus_open w1"
    "w_rdisk w1 = working_registry\<lparr>rd_file := [plain_element, plain_element]\<rparr>" "w_pdisk w1 = working_disk"
    by (rule quiet_Install[OF q(2,3)]) (auto simp: q)
  have inv1: "nodes_inv w1" by (rule nodes_step_inv[OF nodes_step.install[OF i(1)] inv])
  obtain w2 where u: "nodes_Uninstall quiet_nodes ''a'' w1 = Some (None, w2)"
    by (rule quiet_Uninstall[OF i(4,3) nodes_invD(1)[OF inv1 i(3)] el i(2)])
      (simp_all add: i(5,6) working_registry_def)
  with node_installed_twice_comes_back[OF i(1) _ _ u inv1, of quiet_nodes] i(1,2) q(1) el
  show ?thesis by auto
qed

end
