(* ===== verification/Node_Delivery.thy ===== *)
theory Node_Delivery
  imports Nodes_Model
begin

text \<open>
  Delivery to a node's connection (spored/internal/nodes: \<open>Receive\<close> and \<open>Witness\<close> of node.go,
  writer.go), with the launch of a lazy node on its first message; and the identities the daemon's
  own parts use on the bus, which a node's manifest may claim.
\<close>

section \<open>The writer\<close>

definition WriteMessage :: "message \<Rightarrow> string" where
  "WriteMessage msg = Wire msg @ [NL]"

definition WriteWitness :: "int \<Rightarrow> message \<Rightarrow> string" where
  "WriteWitness t msg = fst (WitnessText t msg) @ [NL]"

definition WriteRaw :: "string \<Rightarrow> string" where
  "WriteRaw s = s @ [NL]"

section \<open>Receive\<close>

text \<open>
  What one call ends in: the text written, the error returned, or the panic of a call on the nil
  writer. \<open>connected\<close> is whether there is a writer when the call looks first, \<open>still\<close> when it
  writes; the lock is not held in between. \<open>WaitFor\<close> is what waiting on the channel gives, with the
  table afterwards.
\<close>

datatype delivery = Delivered string | Refused error | Panic

definition node_Receive ::
  "string \<Rightarrow> Manifest \<Rightarrow> bool \<Rightarrow> (string \<Rightarrow> error option) \<Rightarrow> (nat \<Rightarrow> Pending \<Rightarrow> wait_result \<times> Pending) \<Rightarrow>
     bool \<Rightarrow> message \<Rightarrow> Pending \<Rightarrow> delivery \<times> Pending" where
  "node_Receive i man connected Spawn WaitFor still msg p =
     (let write = (if still then Delivered (WriteMessage msg) else Panic) in
      if connected then (write, p)
      else if m_Launch man \<noteq> L_Lazy
      then (Refused (WithMessage (error_New C_Generic Mod_Node ''node not connected'' [Pair ''node'' i]) msg), p)
      else if HasHandle ''lazy'' p
      then (Refused (WithMessage (error_New C_Generic Mod_Node ''lazy instantiation already in progress''
              [Pair ''node'' i]) msg), p)
      else case AwaitHandle ''lazy'' p of
             (ch, p1) \<Rightarrow>
               (case Spawn i of
                  Some err \<Rightarrow> (Refused err, DeleteHandle ''lazy'' p1)
                | None \<Rightarrow>
                    (case WaitFor ch p1 of
                       (WTimedOut err, p2) \<Rightarrow> (Refused err, p2)
                     | (WGot response, p2) \<Rightarrow>
                         if FlagOf response ''error''
                         then (Refused (error_New C_Generic Mod_Node
                                 (ArgIf response ''what'' ''lazy instantiation failed'') []), p2)
                         else (write, p2))))"

definition node_Witness :: "bool \<Rightarrow> int \<Rightarrow> message \<Rightarrow> string option" where
  "node_Witness connected t msg = (if \<not> connected then None else Some (WriteWitness t msg))"

text \<open>The outcomes are those of waits as the pending table defines them, on the table it finds then.\<close>

definition table_wait :: "(nat \<Rightarrow> Pending \<Rightarrow> wait_result \<times> Pending) \<Rightarrow> bool" where
  "table_wait WaitFor \<longleftrightarrow>
     (\<forall>ch p r p2. WaitFor ch p = (r, p2) \<longrightarrow>
        (\<exists>elapsed q. waits ''lazy'' ch None elapsed q r p2))"

lemma timed_out_message: "emessage (timed_out h p) = None"
  by (simp add: timed_out_def)

lemma waits_timeout: "waits h ch t elapsed p (WTimedOut err) p' \<Longrightarrow> emessage err = None"
  by (erule waitsE) (simp_all add: timed_out_message)

lemma Wire_unaddressed: "emessage err = None \<Longrightarrow> Wire (MError err) = ''n/a'' \<and> Handle (MError err) = ''n/a''"
  by (cases err) auto

lemma nodes_Spawn_error:
  assumes "nodes_Spawn env i w = (Some err, w')" "\<And>b e. ne_hspawn env b = Some e \<Longrightarrow> emessage e = None"
  shows "emessage err = None"
  using assms
  by (auto simp: nodes_Spawn_def hyphae_spawn_def Let_def split: option.splits if_splits)

text \<open>
  A request to a lazy node that cannot be started gets no answer its sender can match. Every
  refusal for a node that is not connected carries the request, so its text starts with the
  request's handle, except the refusals of the lazy start: the error of the spawn, the timeout of
  the wait and the error of the start carry no request, and their text on the wire is just n/a.
\<close>
lemma lazy_start_failure_is_unaddressed:
  assumes "fst (node_Receive i man False (\<lambda>n. fst (nodes_Spawn env n w)) WaitFor still msg p) = Refused err"
    "\<And>b e. ne_hspawn env b = Some e \<Longrightarrow> emessage e = None" "table_wait WaitFor"
  shows "if m_Launch man = L_Lazy \<and> \<not> HasHandle ''lazy'' p then Wire (MError err) = ''n/a''
         else HasPrefix (Wire (MError err)) (''~'' @ Handle msg @ '':'')"
proof (cases "m_Launch man = L_Lazy \<and> \<not> HasHandle ''lazy'' p")
  case False
  with assms(1) have "err = WithMessage (error_New C_Generic Mod_Node
      (if m_Launch man = L_Lazy then ''lazy instantiation already in progress'' else ''node not connected'')
      [Pair ''node'' i]) msg"
    by (auto simp: node_Receive_def Let_def split: if_splits)
  then obtain c m w' xs where err: "err = Err c m w' xs (Some msg)"
    by (cases err) (auto simp: error_New_def)
  have "HasPrefix (Wire (MError err)) (''~'' @ Handle msg @ '':'')"
    unfolding err by (auto simp: HasPrefix_def Let_def)
  with False show ?thesis by auto
next
  case True
  obtain ch p1 where aw: "AwaitHandle ''lazy'' p = (ch, p1)" by (metis surj_pair)
  have "emessage err = None"
  proof (cases "fst (nodes_Spawn env i w)")
    case (Some e)
    with assms(1) True aw have "e = err" by (simp add: node_Receive_def Let_def)
    with Some have "nodes_Spawn env i w = (Some err, snd (nodes_Spawn env i w))" by (simp add: prod_eq_iff)
    from nodes_Spawn_error[OF this assms(2)] show ?thesis .
  next
    case None
    obtain r p2 where wf: "WaitFor ch p1 = (r, p2)" by (metis surj_pair)
    show ?thesis
    proof (cases r)
      case (WTimedOut e)
      with assms(1) True aw None wf have "e = err" by (simp add: node_Receive_def Let_def)
      with WTimedOut wf assms(3) waits_timeout show ?thesis unfolding table_wait_def by metis
    next
      case (WGot response)
      with assms(1) True aw None wf show ?thesis
        by (auto simp: node_Receive_def Let_def split: if_splits)
    qed
  qed
  with True Wire_unaddressed show ?thesis by simp
qed

text \<open>The hyphae cannot be asked: the launch of a lazy node fails, and the sender reads n/a.\<close>

definition no_hyphae :: nodes_env where
  "no_hyphae = \<lparr>ne_fs = two_files, ne_yaml = (\<lambda>c m. (m, False)), ne_goos = ''linux'',
     ne_prepare = (\<lambda>_. Inl (error_New C_Timeout Mod_Hyphae ''timed out'' [])),
     ne_hspawn = (\<lambda>_. Some (error_New C_Timeout Mod_Hyphae ''timed out'' [])), ne_hkill = (\<lambda>_. None),
     ne_start = (\<lambda>_. None), ne_conn = (\<lambda>_. None), ne_manifest_read = None, ne_hash_file = (\<lambda>_. Inr []),
     ne_parser = echo_parser, ne_quote = (\<lambda>s. s), ne_ask = (\<lambda>m. AskAnswer m), ne_confirm = None, ne_order = []\<rparr>"

definition lazy_world :: world where
  "lazy_world = \<lparr>w_registry = [plain_element], w_rdisk = \<lparr>rd_marshal_err = None, rd_write_err = None, rd_file = []\<rparr>,
     w_nodes = [''a'' \<mapsto> \<lparr>nn_ptr = 1, nn_registry = plain_element,
                          nn_manifest = plain_manifest\<lparr>m_Launch := L_Lazy, m_Namespace := N_Hyphae\<rparr>\<rparr>],
     w_next = 2, w_bus = bus_New, w_perm = perm_New FileNotExist, w_pdisk = working_disk, w_started = []\<rparr>"

definition timing_out :: "nat \<Rightarrow> Pending \<Rightarrow> wait_result \<times> Pending" where
  "timing_out ch p = (WTimedOut (timed_out ''lazy'' (WithTimeout 1 p)), DeleteHandle ''lazy'' (WithTimeout 1 p))"

lemma lazy_start_failure_is_unaddressed_witness:
  "\<exists>err. fst (node_Receive ''a'' (plain_manifest\<lparr>m_Launch := L_Lazy\<rparr>) False
       (\<lambda>n. fst (nodes_Spawn no_hyphae n lazy_world)) timing_out True
       (open_request ''open'' ''h'') (await_New Mod_Node)) = Refused err \<and> Wire (MError err) = ''n/a''"
proof -
  let ?e = "error_New C_Timeout Mod_Hyphae ''timed out'' []"
  have "fst (nodes_Spawn no_hyphae ''a'' lazy_world) = Some ?e"
    by (simp add: nodes_Spawn_def resolveId_def lazy_world_def no_hyphae_def hyphae_spawn_def Let_def)
  then have r: "fst (node_Receive ''a'' (plain_manifest\<lparr>m_Launch := L_Lazy\<rparr>) False
       (\<lambda>n. fst (nodes_Spawn no_hyphae n lazy_world)) timing_out True
       (open_request ''open'' ''h'') (await_New Mod_Node)) = Refused ?e"
    by (simp add: node_Receive_def HasHandle_def await_New_def AwaitHandle_def Let_def)
  have "waits ''lazy'' ch None 1 (WithTimeout 1 p) (fst (timing_out ch p)) (snd (timing_out ch p))" for ch p
    unfolding timing_out_def by (simp add: waits.expired effective_timeout_def WithTimeout_def)
  then have t: "table_wait timing_out" unfolding table_wait_def by (metis fst_conv snd_conv)
  have q: "emessage e = None" if "ne_hspawn no_hyphae b = Some e" for b e
    using that by (auto simp: no_hyphae_def)
  have "\<not> HasHandle ''lazy'' (await_New Mod_Node)" by (simp add: HasHandle_def await_New_def)
  with lazy_start_failure_is_unaddressed[OF r q t] have "Wire (MError ?e) = ''n/a''" by simp
  with r show ?thesis by blast
qed

section \<open>Identities\<close>

lemma castIdentity_plain:
  "CHR '':'' \<notin> set i \<Longrightarrow> castIdentity i = \<lparr>ciActor = i, ciOrigin = i\<rparr>"
  by (simp add: castIdentity_def CutByte_def)

lemma request_identity:
  "\<lbrakk>message_Request cp raw i = Some msg; CHR '':'' \<notin> set i\<rbrakk> \<Longrightarrow> Actor msg = i \<and> Origin msg = i"
  by (auto simp: message_build_defs castIdentity_plain split: parse_result.splits if_splits)

text \<open>
  A node speaks for itself. A request the daemon builds for a node whose manifest passed the
  reserved-language check has that node as its actor and as its origin, whatever the text of the
  request is: only the daemon's own parts can act on behalf of another node.
\<close>
lemma validated_node_speaks_for_itself:
  assumes "ValidateReservedLanguage man = []" "message_Request cp raw (m_ID man) = Some msg"
  shows "Actor msg = m_ID man \<and> Origin msg = m_ID man"
proof -
  from assms(1) have "CHR '':'' \<notin> set (m_ID man)"
    by (auto simp: ValidateReservedLanguage_def split: if_splits)
  with assms(2) request_identity show ?thesis by blast
qed

text \<open>
  The identities of the daemon's own parts are not reserved. Only the prefix SPORE. is, while
  the hyphae, the permission manager and the node table take part in the bus as hyphae-in-spore,
  permission-in-spore and nodes-in-spore: a manifest may carry any of these ids, and a node
  installed as hyphae-in-spore may call every protected command.
\<close>
lemma internal_identities_can_be_claimed:
  assumes "i \<in> {protectedCaller, permissionCaller, selfNodeId, spore_id}"
    "ValidateReservedLanguage (man\<lparr>m_ID := ''a''\<rparr>) = []"
    "message_Request cp raw i = Some msg" "capability \<in> set (pm_protectedCommands m)"
  shows "ValidateReservedLanguage (man\<lparr>m_ID := i\<rparr>) = [] \<and> Actor msg = i \<and>
         Can hyphae now msg capability m = ((i = protectedCaller, None), m)"
proof -
  have i: "CHR '':'' \<notin> set i" "\<not> HasPrefix i ''SPORE.''"
    using assms(1)
    by (auto simp: protectedCaller_def permissionCaller_def selfNodeId_def spore_id_def HasPrefix_def)
  with assms(2) have "ValidateReservedLanguage (man\<lparr>m_ID := i\<rparr>) = []"
    by (simp add: ValidateReservedLanguage_def split: if_splits)
  with request_identity[OF assms(3) i(1)] Can_protected[OF assms(4)] show ?thesis by simp
qed

text \<open>Requests of two nodes, one of them with the id of the hyphae's part.\<close>

definition plain_parser :: c_parser where
  "plain_parser raw validate = Some \<lparr>c_error = None, c_type = TypeRequest,
     c_capability = Some raw, c_handle = Some ''h'', c_args = [], c_flags = []\<rparr>"

lemma plain_parser_request:
  "TrimSpace raw \<noteq> [] \<Longrightarrow> message_Request plain_parser raw i = Some (MRequest \<lparr>rq_raw = raw, rq_id = i,
     rq_command = raw, rq_args = (\<lambda>_. None), rq_flags = [], rq_handle = ''h''\<rparr>)"
  by (simp add: message_build_defs cparse_def plain_parser_def args_of_def)

lemma validated_node_speaks_for_itself_witness:
  "\<exists>msg. message_Request plain_parser ''x.open'' ''a'' = Some msg \<and> Origin msg = ''a''"
proof -
  have t: "TrimSpace ''x.open'' \<noteq> []" by code_simp
  have "ValidateReservedLanguage plain_manifest = []" "m_ID plain_manifest = ''a''"
    by (simp_all add: ValidateReservedLanguage_def plain_manifest_def empty_manifest_def HasPrefix_def)
  with validated_node_speaks_for_itself[of plain_manifest plain_parser "''x.open''"]
    plain_parser_request[OF t, of "''a''"] show ?thesis by auto
qed

lemma internal_identities_can_be_claimed_witness:
  "ValidateReservedLanguage (empty_manifest\<lparr>m_ID := ''hyphae-in-spore''\<rparr>) = [] \<and>
   (\<exists>msg m. message_Request plain_parser ''x.open'' ''hyphae-in-spore'' = Some msg \<and>
      ''x.open'' \<in> set (pm_protectedCommands m) \<and> Can None 0 msg ''x.open'' m = ((True, None), m))"
proof -
  have t: "TrimSpace ''x.open'' \<noteq> []" by code_simp
  let ?m = "(perm_New FileNotExist)\<lparr>pm_protectedCommands := [''x.open'']\<rparr>"
  have v: "ValidateReservedLanguage (empty_manifest\<lparr>m_ID := ''a''\<rparr>) = []"
    by (simp add: ValidateReservedLanguage_def empty_manifest_def HasPrefix_def)
  obtain msg where m: "message_Request plain_parser ''x.open'' protectedCaller = Some msg"
    using plain_parser_request[OF t] by blast
  have p: "''x.open'' \<in> set (pm_protectedCommands ?m)" by simp
  have "ValidateReservedLanguage (empty_manifest\<lparr>m_ID := protectedCaller\<rparr>) = [] \<and>
      Can None 0 msg ''x.open'' ?m = ((True, None), ?m)"
    using internal_identities_can_be_claimed[OF _ v m p, of None 0] by simp
  with m p show ?thesis unfolding protectedCaller_def by blast
qed

end
