(* ===== verification/Hyphae_Calls.thy ===== *)
theory Hyphae_Calls
  imports Permissions Registry_Model
begin

text \<open>
  The calls the daemon makes into user space (spored/internal/hyphae/hyphae.go): each one is a
  request of the part hyphae-in-spore with a fresh handle, and what the answer is read as. The bus
  with the wait is the argument \<open>ask\<close>, whose results theory Questions derives; the state is the handle
  counter. The witness messages are left out.
\<close>

type_synonym hyphae_ask = "message \<Rightarrow> ask_outcome"

definition hyphae_handle :: "nat \<Rightarrow> string \<times> nat" where
  "hyphae_handle index = (''hyphae-'' @ show_nat (Suc index), Suc index)"

text \<open>The part every call shares: build the request, send it, wait, and read the error flag.\<close>

definition hyphae_call :: "c_parser \<Rightarrow> hyphae_ask \<Rightarrow> string \<Rightarrow> string \<Rightarrow> string \<Rightarrow> error + message" where
  "hyphae_call cp ask malformed failed raw =
     (case message_Request cp raw protectedCaller of
        None \<Rightarrow> Inl (error_New C_Malformed Mod_Hyphae malformed [])
      | Some msg \<Rightarrow>
          (case ask msg of
             AskBusError err \<Rightarrow> Inl err
           | AskWaitError err \<Rightarrow> Inl err
           | AskAnswer response \<Rightarrow>
               if FlagOf response ''error''
               then Inl (error_New C_Generic Mod_Hyphae (ArgIf response ''what'' failed) [])
               else Inr response))"

definition required_arg :: "string \<Rightarrow> error + message \<Rightarrow> error + string" where
  "required_arg name r =
     (case r of
        Inl err \<Rightarrow> Inl err
      | Inr response \<Rightarrow>
          (case Arg response name of
             (v, True) \<Rightarrow> Inr v
           | (_, False) \<Rightarrow> Inl (error_New C_Missing Mod_Hyphae ''missing in response''
                             [Pair ''argument'' name])))"

definition error_of :: "error + message \<Rightarrow> error option" where
  "error_of r = (case r of Inl err \<Rightarrow> Some err | Inr _ \<Rightarrow> None)"

section \<open>The calls\<close>

definition manifestRead :: "c_parser \<Rightarrow> hyphae_ask \<Rightarrow> string \<Rightarrow> nat \<Rightarrow> (error + string) \<times> nat" where
  "manifestRead cp ask path h =
     (case hyphae_handle h of
        (handle, h1) \<Rightarrow>
          (required_arg ''content'' (hyphae_call cp ask ''failure to read manifest'' ''manifest read failed''
             (''dev.sporeos.HYPHAE.manifest.read path='' @ [DQ] @ path @ [DQ] @ '' ~'' @ handle)), h1))"

definition binaryHash :: "c_parser \<Rightarrow> hyphae_ask \<Rightarrow> int \<Rightarrow> nat \<Rightarrow> (error + string) \<times> nat" where
  "binaryHash cp ask pid h =
     (case hyphae_handle h of
        (handle, h1) \<Rightarrow>
          (required_arg ''hash'' (hyphae_call cp ask ''failure to hash binary'' ''binary hash failed''
             (''dev.sporeos.HYPHAE.binary.hash pid='' @ show_int pid @ '' ~'' @ handle)), h1))"

definition fileHash_raw :: "string \<Rightarrow> string \<Rightarrow> string" where
  "fileHash_raw path handle = ''dev.sporeos.HYPHAE.file.hash path='' @ path @ '' ~'' @ handle"

definition fileHash :: "c_parser \<Rightarrow> hyphae_ask \<Rightarrow> string \<Rightarrow> nat \<Rightarrow> (error + string) \<times> nat" where
  "fileHash cp ask path h =
     (case hyphae_handle h of
        (handle, h1) \<Rightarrow>
          (required_arg ''hash'' (hyphae_call cp ask ''failure to hash file'' ''file hash failed''
             (fileHash_raw path handle)), h1))"

definition nodeSpawn :: "c_parser \<Rightarrow> hyphae_ask \<Rightarrow> string \<Rightarrow> nat \<Rightarrow> error option \<times> nat" where
  "nodeSpawn cp ask path h =
     (case hyphae_handle h of
        (handle, h1) \<Rightarrow>
          (error_of (hyphae_call cp ask ''failure to spawn node'' ''node spawn failed''
             (''dev.sporeos.HYPHAE.hspawn binary='' @ [DQ] @ path @ [DQ] @ '' ~'' @ handle)), h1))"

definition nodeKill :: "c_parser \<Rightarrow> hyphae_ask \<Rightarrow> int \<Rightarrow> nat \<Rightarrow> error option \<times> nat" where
  "nodeKill cp ask pid h =
     (case hyphae_handle h of
        (handle, h1) \<Rightarrow>
          (error_of (hyphae_call cp ask ''failure to kill node'' ''node kill failed''
             (''dev.sporeos.HYPHAE.hkill pid='' @ show_int pid @ '' ~'' @ handle)), h1))"

text \<open>\<open>quote\<close> is fmt's \<open>%q\<close> verb; the two minutes of this wait are part of \<open>ask\<close>.\<close>

definition hyphae_confirm_call ::
  "c_parser \<Rightarrow> (string \<Rightarrow> string) \<Rightarrow> hyphae_ask \<Rightarrow> string \<Rightarrow> string \<Rightarrow> nat \<Rightarrow> (bool \<times> error option) \<times> nat" where
  "hyphae_confirm_call cp quote ask node command h =
     (case hyphae_handle h of
        (handle, h1) \<Rightarrow>
          (case hyphae_call cp ask ''failure to request confirmation'' ''confirmation failed''
                  (''dev.sporeos.HYPHAE.confirm node='' @ quote node @ '' command='' @ quote command @
                   '' ~'' @ handle) of
             Inl err \<Rightarrow> ((False, Some err), h1)
           | Inr response \<Rightarrow> ((FlagOf response ''yes'', None), h1)))"

text \<open>
  The manifest and the element of a node the daemon cannot read. The digests come from the hyphae;
  the defaults of missing fields are not filled in here.
\<close>

definition unread_manifest :: "string \<Rightarrow> Manifest" where
  "unread_manifest path = empty_manifest\<lparr>m_Path := path, m_ExpectedChecksum := ''not yet''\<rparr>"

definition hash_both ::
  "c_parser \<Rightarrow> hyphae_ask \<Rightarrow> string \<Rightarrow> string \<Rightarrow> nat \<Rightarrow> (error + string \<times> string) \<times> nat" where
  "hash_both cp ask path binary h =
     (case fileHash cp ask path h of
        (Inl err, h1) \<Rightarrow> (Inl err, h1)
      | (Inr m, h1) \<Rightarrow>
          (case fileHash cp ask binary h1 of
             (Inl err, h2) \<Rightarrow> (Inl err, h2)
           | (Inr b, h2) \<Rightarrow> (Inr (m, b), h2)))"

definition PrepareForInstallation ::
  "c_parser \<Rightarrow> hyphae_ask \<Rightarrow> yaml_decoder \<Rightarrow> (string \<Rightarrow> string) \<Rightarrow> string \<Rightarrow> string \<Rightarrow> nat \<Rightarrow>
     (error + Manifest \<times> Element) \<times> nat" where
  "PrepareForInstallation cp ask yaml yaml_error goos path h =
     (case manifestRead cp ask path h of
        (Inl err, h1) \<Rightarrow> (Inl err, h1)
      | (Inr content, h1) \<Rightarrow>
          (case yaml content (unread_manifest path) of
             (man, True) \<Rightarrow>
               (Inl (error_New C_Malformed Mod_Hyphae ''failed to parse manifest''
                  [Pair ''error'' (yaml_error content)]), h1)
           | (man, False) \<Rightarrow>
               (let binary = executablePathFor goos (filepath_Join [filepath_Dir path, m_App man]);
                    el = (\<lambda>c b. \<lparr>el_ID = m_ID man, el_Name = m_Name man, el_Manifest = path,
                                 el_Checksum = c, el_Binary = binary, el_BinaryChecksum = b\<rparr>) in
                if m_Trust man = T_Developer
                then (Inr (man\<lparr>m_ExpectedChecksum := T_Developer\<rparr>, el T_Developer T_Developer), h1)
                else case hash_both cp ask path binary h1 of
                       (Inl err, h2) \<Rightarrow> (Inl err, h2)
                     | (Inr (m, b), h2) \<Rightarrow> (Inr (man\<lparr>m_ExpectedChecksum := m\<rparr>, el m b), h2))))"

section \<open>What the answers are taken for\<close>

lemma hyphae_call_Inr:
  assumes "hyphae_call cp ask malformed failed raw = Inr response"
  shows "\<exists>msg. message_Request cp raw protectedCaller = Some msg \<and> ask msg = AskAnswer response \<and>
           \<not> FlagOf response ''error''"
  using assms by (auto simp: hyphae_call_def split: option.splits ask_outcome.splits if_splits)

lemma required_arg_Inr:
  "required_arg name r = Inr v \<Longrightarrow> \<exists>response. r = Inr response \<and> Arg response name = (v, True)"
  by (auto simp: required_arg_def split: sum.splits prod.splits bool.splits)

text \<open>
  A confirmation is a yes. The hyphae's confirmation of a call, the one administrative commands
  and installations need, is granted only when the request for exactly this node and this command,
  sent as the daemon's own part, was answered without an error flag and with the flag yes; a failed
  request, a timeout or an error answer is never taken for consent.
\<close>
lemma confirmation_needs_a_yes:
  assumes "hyphae_confirm_call cp quote ask node command h = ((True, e), h')"
  shows "e = None \<and> h' = Suc h \<and>
    (\<exists>msg response. message_Request cp (''dev.sporeos.HYPHAE.confirm node='' @ quote node @ '' command='' @
         quote command @ '' ~'' @ fst (hyphae_handle h)) protectedCaller = Some msg \<and>
       ask msg = AskAnswer response \<and> \<not> FlagOf response ''error'' \<and> FlagOf response ''yes'')"
proof -
  obtain response where c: "hyphae_call cp ask ''failure to request confirmation'' ''confirmation failed''
      (''dev.sporeos.HYPHAE.confirm node='' @ quote node @ '' command='' @ quote command @ '' ~'' @
       fst (hyphae_handle h)) = Inr response" and r: "FlagOf response ''yes''" "e = None" "h' = Suc h"
    using assms by (auto simp: hyphae_confirm_call_def hyphae_handle_def split: sum.splits)
  from hyphae_call_Inr[OF c] r show ?thesis by blast
qed

lemma hash_both_result:
  "hash_both cp ask path binary h = (Inr (m, b), h') \<Longrightarrow>
     \<exists>h1. fileHash cp ask path h = (Inr m, h1) \<and> fileHash cp ask binary h1 = (Inr b, h')"
  by (auto simp: hash_both_def split: prod.splits sum.splits)

text \<open>
  What the hyphae prepares is what it hashed. A prepared installation without developer trust
  carries the same manifest digest in the manifest and in the registry element, and the two digests
  are the hyphae's answers for the manifest's path and for the binary beside it; with developer
  trust all three are the marker for it.
\<close>
lemma prepared_installation_digests:
  assumes "PrepareForInstallation cp ask yaml ye goos path h = (Inr (man, el), h')"
  shows "m_ExpectedChecksum man = el_Checksum el \<and> el_ID el = m_ID man \<and> el_Manifest el = path \<and>
    (if m_Trust man = T_Developer then el_Checksum el = T_Developer \<and> el_BinaryChecksum el = T_Developer
     else \<exists>h1 h2. fileHash cp ask path h1 = (Inr (el_Checksum el), h2) \<and>
            fileHash cp ask (el_Binary el) h2 = (Inr (el_BinaryChecksum el), h'))"
  using assms
  by (auto simp: PrepareForInstallation_def Let_def split: prod.splits sum.splits bool.splits if_splits
      dest!: hash_both_result) blast+

text \<open>
  The defaults depend on who reads the manifest. A manifest that names no namespace and no
  launch mode gets the namespace hyphae and the launch mode auto when the daemon reads it; prepared
  by the hyphae it keeps both empty, so the node is neither started with the daemon nor started in
  user space where its binary can be read.
\<close>
lemma prepared_manifest_lacks_defaults:
  assumes "PrepareForInstallation cp ask yaml ye goos path h = (Inr (man, el), h')"
    "\<And>c m. m_Namespace (fst (yaml c m)) = m_Namespace m \<and> m_Launch (fst (yaml c m)) = m_Launch m"
    "ManifestFromPath fs yaml path = Some man'"
  shows "m_Namespace man = [] \<and> m_Launch man = [] \<and> m_Namespace man' = N_Hyphae \<and> m_Launch man' = L_Auto"
proof -
  obtain content m where m: "yaml content (unread_manifest path) = (m, False)"
    "m_Namespace man = m_Namespace m" "m_Launch man = m_Launch m"
    using assms(1) by (auto simp: PrepareForInstallation_def Let_def split: prod.splits sum.splits bool.splits if_splits)
  obtain content' m' where m': "yaml content' (empty_manifest\<lparr>m_Path := path\<rparr>) = (m', False)"
    "m_Namespace man' = m_Namespace (applyDefaults m')" "m_Launch man' = m_Launch (applyDefaults m')"
    using assms(3) by (auto simp: ManifestFromPath_def Let_def split: option.splits prod.splits bool.splits if_splits)
  have "m_Namespace m = []" "m_Launch m = []" "m_Namespace m' = []" "m_Launch m' = []"
    using assms(2)[of content "unread_manifest path"] m(1)
      assms(2)[of content' "empty_manifest\<lparr>m_Path := path\<rparr>"] m'(1)
    by (simp_all add: unread_manifest_def empty_manifest_def)
  with m m' show ?thesis by (simp add: applyDefaults_def Let_def)
qed

section \<open>A hyphae that answers\<close>

text \<open>It answers every request with a response that carries a content, a hash and the flag yes.\<close>

definition helpful :: hyphae_ask where
  "helpful msg = AskAnswer (MResponse \<lparr>rs_raw = [], rs_id = ''h'', rs_command = [],
     rs_args = [''content'' \<mapsto> ''text'', ''hash'' \<mapsto> ''digest''], rs_flags = [''yes'', ''ok''], rs_handle = []\<rparr>)"

definition hyphae_parser :: c_parser where
  "hyphae_parser raw validate = Some \<lparr>c_error = None, c_type = TypeRequest,
     c_capability = Some raw, c_handle = Some ''h'', c_args = [], c_flags = []\<rparr>"

lemma TrimSpace_dev: "TrimSpace (CHR ''d'' # s) \<noteq> []"
proof (rule TrimSpace_nonempty)
  show "CHR ''d'' \<notin> space_bytes" by code_simp
qed simp

lemma helpful_call:
  "\<exists>response. hyphae_call hyphae_parser helpful a b (CHR ''d'' # raw) = Inr response \<and>
     FlagOf response ''yes'' \<and> Arg response ''content'' = (''text'', True) \<and> Arg response ''hash'' = (''digest'', True)"
proof -
  have "\<exists>msg. message_Request hyphae_parser (CHR ''d'' # raw) protectedCaller = Some msg"
    by (simp add: message_build_defs cparse_def hyphae_parser_def TrimSpace_dev)
  then show ?thesis by (auto simp: hyphae_call_def helpful_def map_Arg_def)
qed

lemma confirmation_needs_a_yes_witness:
  "hyphae_confirm_call hyphae_parser (\<lambda>s. s) helpful ''a'' ''x.open'' 0 = ((True, None), 1) \<and>
   (\<exists>msg response. helpful msg = AskAnswer response \<and> FlagOf response ''yes'')"
proof -
  define raw where "raw = ''dev.sporeos.HYPHAE.confirm node='' @ ''a'' @ '' command='' @ ''x.open'' @
      '' ~'' @ (''hyphae-'' @ show_nat (Suc 0))"
  have "raw = CHR ''d'' # tl raw" by (simp add: raw_def)
  then obtain response where r: "hyphae_call hyphae_parser helpful ''failure to request confirmation''
      ''confirmation failed'' raw = Inr response" "FlagOf response ''yes''"
    using helpful_call[of "''failure to request confirmation''" "''confirmation failed''" "tl raw"] by metis
  have c: "hyphae_confirm_call hyphae_parser (\<lambda>s. s) helpful ''a'' ''x.open'' 0 = ((True, None), 1)"
    unfolding hyphae_confirm_call_def hyphae_handle_def prod.case raw_def[symmetric] r(1)
    by (simp add: r(2))
  from confirmation_needs_a_yes[OF c] c show ?thesis by blast
qed

lemma helpful_args:
  "required_arg ''content'' (hyphae_call hyphae_parser helpful a b (CHR ''d'' # raw)) = Inr ''text''"
  "required_arg ''hash'' (hyphae_call hyphae_parser helpful a b (CHR ''d'' # raw)) = Inr ''digest''"
  using helpful_call[of a b raw] by (auto simp: required_arg_def)

text \<open>A decoder that sets the id and the binary.\<close>

definition naming_decoder :: yaml_decoder where
  "naming_decoder c m = (m\<lparr>m_ID := ''a'', m_App := ''b''\<rparr>, False)"

lemma helpful_prepare:
  "\<exists>man el h'. PrepareForInstallation hyphae_parser helpful naming_decoder (\<lambda>_. []) ''linux'' ''/d/m.yaml'' 0
     = (Inr (man, el), h') \<and> m_Trust man \<noteq> T_Developer \<and> el_Checksum el = ''digest''"
  by (simp add: PrepareForInstallation_def manifestRead_def hyphae_handle_def helpful_args naming_decoder_def
      unread_manifest_def empty_manifest_def hash_both_def fileHash_def fileHash_raw_def Let_def)

lemma prepared_installation_digests_witness:
  "\<exists>man el h'. PrepareForInstallation hyphae_parser helpful naming_decoder (\<lambda>_. []) ''linux'' ''/d/m.yaml'' 0
     = (Inr (man, el), h') \<and> m_ExpectedChecksum man = ''digest'' \<and> el_ID el = m_ID man"
proof -
  obtain man el h' where p: "PrepareForInstallation hyphae_parser helpful naming_decoder (\<lambda>_. []) ''linux''
      ''/d/m.yaml'' 0 = (Inr (man, el), h')" "el_Checksum el = ''digest''" using helpful_prepare by blast
  with prepared_installation_digests[OF p(1)] show ?thesis by auto
qed

lemma prepared_manifest_lacks_defaults_witness:
  "\<exists>man el h'. PrepareForInstallation hyphae_parser helpful naming_decoder (\<lambda>_. []) ''linux'' ''/d/m.yaml'' 0
     = (Inr (man, el), h') \<and> m_Launch man = []"
proof -
  obtain man el h' where p: "PrepareForInstallation hyphae_parser helpful naming_decoder (\<lambda>_. []) ''linux''
      ''/d/m.yaml'' 0 = (Inr (man, el), h')" using helpful_prepare by blast
  let ?fs = "\<lparr>fs_exists = (\<lambda>_. True), fs_opens = (\<lambda>_. True), fs_content = (\<lambda>_. Some ''x''),
       fs_sha256 = (\<lambda>_. ''ab''), fs_goos = ''linux''\<rparr>"
  have "m_Namespace (fst (naming_decoder c m)) = m_Namespace m \<and> m_Launch (fst (naming_decoder c m)) = m_Launch m"
    for c m by (simp add: naming_decoder_def)
  moreover have "\<exists>m. ManifestFromPath ?fs naming_decoder ''/d/m.yaml'' = Some m"
    by (simp add: ManifestFromPath_def file_Read_def naming_decoder_def applyDefaults_def empty_manifest_def
        CalculateChecksum_def Let_def)
  ultimately show ?thesis using prepared_manifest_lacks_defaults[OF p] p by blast
qed

end
