(* ===== verification/Parse_Array.thy ===== *)
theory Parse_Array
  imports Wire_Parser
begin

text \<open>
  Arrays in argument values (spored/internal/utilities/parse/parse.go): the tokenizer, byte by byte
  with its buffer, and the reading of an array of strings. The package has copies of the unquoting
  functions of the parser bridge; they are \<open>array_unquote\<close> here.
\<close>

section \<open>The tokenizer\<close>

definition tok_flush :: "string \<Rightarrow> string list \<Rightarrow> string list" where
  "tok_flush buf tokens = (if length buf > 0 then tokens @ [buf] else tokens)"

text \<open>The inner loops: the bytes up to and with the closing delimiter, and the rest.\<close>

definition scan_to :: "char \<Rightarrow> string \<Rightarrow> (string \<times> string) option" where
  "scan_to q s =
     (case dropWhile (\<lambda>c. c \<noteq> q) s of
        [] \<Rightarrow> None
      | d # r \<Rightarrow> Some (takeWhile (\<lambda>c. c \<noteq> q) s @ [d], r))"

fun scan_dquoted :: "string \<Rightarrow> (string \<times> string) option" where
  "scan_dquoted [] = None"
| "scan_dquoted [c] = (if c = DQ then Some ([c], []) else None)"
| "scan_dquoted (c # d # s) =
     (if c = BSL then map_option (\<lambda>(x, r). (c # d # x, r)) (scan_dquoted s)
      else if c = DQ then Some ([c], d # s)
      else map_option (\<lambda>(x, r). (c # x, r)) (scan_dquoted (d # s)))"

fun scan_call :: "nat \<Rightarrow> string \<Rightarrow> (string \<times> string) option" where
  "scan_call 0 s = Some ([], s)"
| "scan_call (Suc depth) [] = None"
| "scan_call (Suc depth) (c # s) =
     map_option (\<lambda>(x, r). (c # x, r))
       (scan_call (if c = CHR ''('' then Suc (Suc depth) else if c = CHR '')'' then depth else Suc depth) s)"

lemma scan_to_split: "scan_to q s = Some (x, r) \<Longrightarrow> s = x @ r \<and> x \<noteq> []"
proof -
  assume a: "scan_to q s = Some (x, r)"
  then obtain d where d: "dropWhile (\<lambda>c. c \<noteq> q) s = d # r" "x = takeWhile (\<lambda>c. c \<noteq> q) s @ [d]"
    by (auto simp: scan_to_def split: list.splits)
  have "s = takeWhile (\<lambda>c. c \<noteq> q) s @ d # r" unfolding d(1)[symmetric] by simp
  with d(2) show ?thesis by simp
qed

lemma scan_dquoted_split: "scan_dquoted s = Some (x, r) \<Longrightarrow> s = x @ r \<and> x \<noteq> []"
  by (induction s arbitrary: x r rule: scan_dquoted.induct) (auto split: if_splits)

lemma scan_call_split: "scan_call depth s = Some (x, r) \<Longrightarrow> s = x @ r"
  by (induction depth s arbitrary: x r rule: scan_call.induct) auto

text \<open>What an opening byte takes in after itself; any other byte takes in nothing.\<close>

definition scan_group :: "char \<Rightarrow> string \<Rightarrow> string + string \<times> string" where
  "scan_group ch s =
     (let found = (\<lambda>err r. case r of None \<Rightarrow> Inl err | Some xr \<Rightarrow> Inr xr) in
      if ch = SQ then found ''unterminated single-quoted string'' (scan_to SQ s)
      else if ch = DQ then found ''unterminated double-quoted string'' (scan_dquoted s)
      else if ch = CHR ''{'' then found ''unterminated object {'' (scan_to (CHR ''}'') s)
      else if ch = CHR ''['' then found ''unterminated array ['' (scan_to (CHR '']'') s)
      else if ch = CHR ''('' then found ''unterminated inline call ('' (scan_call 1 s)
      else Inr ([], s))"

lemma scan_group_split: "scan_group ch s = Inr (x, r) \<Longrightarrow> s = x @ r"
  by (auto simp: scan_group_def Let_def split: if_splits option.splits
      dest: scan_to_split scan_dquoted_split scan_call_split)

function tokenizeLoop :: "string \<Rightarrow> string \<Rightarrow> string list \<Rightarrow> string + string list" where
  "tokenizeLoop [] buf tokens = Inr (tok_flush buf tokens)"
| "tokenizeLoop (ch # s) buf tokens =
     (if ch = CHR '' '' \<or> ch = TAB then tokenizeLoop s [] (tok_flush buf tokens)
      else case scan_group ch s of
             Inl err \<Rightarrow> Inl err
           | Inr (x, r) \<Rightarrow> tokenizeLoop r (buf @ ch # x) tokens)"
  by pat_completeness auto
termination
  by (relation "measure (\<lambda>(s, _, _). length s)") (auto dest!: scan_group_split)

definition tokenize :: "string \<Rightarrow> string + string list" where
  "tokenize raw = tokenizeLoop raw [] []"

section \<open>Arrays of strings\<close>

definition array_unescape :: "string \<Rightarrow> string" where
  "array_unescape s = (if BSL \<notin> set s then s else unescapeLoop s)"

definition array_unquote :: "string \<Rightarrow> string" where
  "array_unquote s =
     (if length s \<ge> 2 then
        if hd s = DQ \<and> last s = DQ then array_unescape (slice_inner s)
        else if hd s = SQ \<and> last s = SQ then slice_inner s
        else s
      else s)"

definition ArrayToStrings :: "string \<Rightarrow> string list" where
  "ArrayToStrings s0 =
     (let s1 = TrimSpace s0;
          s2 = TrimPrefix s1 ''['';
          s3 = TrimSuffix s2 '']'';
          s = ReplaceByte (CHR '','') '' '' s3;
          tokens = (case tokenize s of Inl _ \<Rightarrow> [] | Inr ts \<Rightarrow> ts)
      in map array_unquote (filter (\<lambda>tok. tok \<noteq> []) tokens))"

section \<open>What the tokenizer keeps\<close>

definition blank :: "char \<Rightarrow> bool" where
  "blank c \<longleftrightarrow> c = CHR '' '' \<or> c = TAB"

lemma concat_tok_flush: "concat (tok_flush buf tokens) = concat tokens @ buf"
  by (simp add: tok_flush_def)

lemma tok_flush_nonempty: "[] \<notin> set tokens \<Longrightarrow> [] \<notin> set (tok_flush buf tokens)"
  by (auto simp: tok_flush_def)

lemma tokenizeLoop_keeps:
  assumes "tokenizeLoop raw buf tokens = Inr ts" "[] \<notin> set tokens"
  shows "[] \<notin> set ts \<and> filter (Not \<circ> blank) (concat ts) = filter (Not \<circ> blank) (concat tokens @ buf @ raw)"
  using assms
proof (induction raw buf tokens rule: tokenizeLoop.induct)
  case (1 buf tokens)
  then show ?case by (auto simp: concat_tok_flush tok_flush_nonempty)
next
  case (2 ch s buf tokens)
  show ?case
  proof (cases "ch = CHR '' '' \<or> ch = TAB")
    case True
    with 2(1)[OF True] 2(3,4) show ?thesis
      by (auto simp: concat_tok_flush tok_flush_nonempty blank_def)
  next
    case False
    then obtain x r where x: "scan_group ch s = Inr (x, r)" "tokenizeLoop r (buf @ ch # x) tokens = Inr ts"
      using 2(3) by (auto split: sum.splits)
    from 2(2)[OF False x(1) refl x(2) 2(4)] scan_group_split[OF x(1)] show ?thesis by simp
  qed
qed

text \<open>
  The tokenizer loses nothing but blanks. When it succeeds, no token is empty, and the bytes of
  the tokens, one token after the other, are the bytes of the text in their order, except for
  blanks and tabs between tokens.
\<close>
lemma tokenize_keeps_every_byte:
  assumes "tokenize raw = Inr ts"
  shows "[] \<notin> set ts \<and> filter (Not \<circ> blank) (concat ts) = filter (Not \<circ> blank) raw"
  using tokenizeLoop_keeps[of raw "[]" "[]" ts] assms by (simp add: tokenize_def)

lemma tokenize_keeps_every_byte_witness:
  "tokenize ''a (b c) [d e]'' = Inr [''a'', ''(b c)'', ''[d e]''] \<and> [] \<notin> set [''a'', ''(b c)'', ''[d e]'']"
proof -
  have t: "tokenize ''a (b c) [d e]'' = Inr [''a'', ''(b c)'', ''[d e]'']" by code_simp
  with tokenize_keeps_every_byte[OF t] show ?thesis by blast
qed

section \<open>Arrays the daemon prints\<close>

lemma ReplaceByte_append: "ReplaceByte c new (a @ b) = ReplaceByte c new a @ ReplaceByte c new b"
  by (simp add: ReplaceByte_def)

lemma ReplaceByte_none: "c \<notin> set s \<Longrightarrow> ReplaceByte c new s = s"
  by (induction s) (auto simp: ReplaceByte_def)

lemma ReplaceByte_Join_quoted:
  "\<forall>v \<in> set vs. CHR '','' \<notin> set v \<Longrightarrow>
     ReplaceByte (CHR '','') '' '' (Join (map quoted vs) '', '') = Join (map quoted vs) ''  ''"
proof (induction vs rule: induct_list012)
  case 1
  show ?case by (simp add: ReplaceByte_def)
next
  case (2 v)
  then show ?case by (simp add: ReplaceByte_none quoted_def)
next
  case (3 v w vs)
  then have "ReplaceByte (CHR '','') '' '' (quoted v) = quoted v" by (simp add: ReplaceByte_none quoted_def)
  moreover have "ReplaceByte (CHR '','') '' '' '', '' = ''  ''" by (simp add: ReplaceByte_def)
  ultimately show ?case using 3 by (simp only: list.map Join.simps ReplaceByte_append) simp
qed

lemma scan_dquoted_plain:
  "\<lbrakk>DQ \<notin> set v; BSL \<notin> set v\<rbrakk> \<Longrightarrow> scan_dquoted (v @ DQ # r) = Some (v @ [DQ], r)"
proof (induction v)
  case Nil
  show ?case by (cases r) auto
next
  case (Cons c v)
  then obtain d s where "v @ DQ # r = d # s" by (cases v) auto
  with Cons show ?case by auto
qed

lemma tokenizeLoop_quoted:
  assumes "DQ \<notin> set v" "BSL \<notin> set v"
  shows "tokenizeLoop (quoted v @ r) buf tokens = tokenizeLoop r (buf @ quoted v) tokens"
  using scan_dquoted_plain[OF assms, of r] by (simp add: quoted_def scan_group_def Let_def)

lemma tokenizeLoop_Join:
  "\<forall>v \<in> set vs. DQ \<notin> set v \<and> BSL \<notin> set v \<Longrightarrow>
     tokenizeLoop (Join (map quoted vs) ''  '') [] tokens = Inr (tokens @ map quoted vs)"
proof (induction vs arbitrary: tokens rule: induct_list012)
  case (2 v)
  then show ?case using tokenizeLoop_quoted[of v "[]" "[]" tokens] by (simp add: tok_flush_def quoted_def)
next
  case (3 v w vs)
  have "tokenizeLoop (quoted v @ ''  '' @ Join (map quoted (w # vs)) ''  '') [] tokens =
      tokenizeLoop (Join (map quoted (w # vs)) ''  '') [] (tokens @ [quoted v])"
    using 3(3) tokenizeLoop_quoted[of v "''  '' @ Join (map quoted (w # vs)) ''  ''" "[]" tokens]
    by (simp add: tok_flush_def quoted_def)
  with 3 show ?case by simp
qed (simp add: tok_flush_def)

lemma bracket_space: "CHR ''['' \<notin> space_bytes" "CHR '']'' \<notin> space_bytes"
  by code_simp+

lemma ArrayToStrings_brackets:
  "ArrayToStrings (CHR ''['' # s @ '']'') =
     (case tokenize (ReplaceByte (CHR '','') '' '' s) of Inl _ \<Rightarrow> []
      | Inr ts \<Rightarrow> map array_unquote (filter (\<lambda>tok. tok \<noteq> []) ts))"
proof -
  have "TrimSpace (CHR ''['' # s @ '']'') = CHR ''['' # s @ '']''"
    by (rule TrimSpace_id) (use bracket_space in simp_all)
  then show ?thesis
    by (simp add: ArrayToStrings_def TrimPrefix_def TrimSuffix_def suffix_def Let_def split: sum.split)
qed

lemma array_unquote_quoted: "BSL \<notin> set v \<Longrightarrow> array_unquote (quoted v) = v"
  by (simp add: array_unquote_def array_unescape_def) (simp add: quoted_def)

text \<open>
  C38. An array the daemon prints is read back. The text of \<open>out.Array\<close> for a list of strings without
  double quotes, backslashes and commas, its key and equals sign taken off, is read by
  \<open>ArrayToStrings\<close> as exactly that list, the empty list and empty strings included.
\<close>
theorem array_roundtrip:
  assumes "\<forall>v \<in> set vs. DQ \<notin> set v \<and> BSL \<notin> set v \<and> CHR '','' \<notin> set v"
  shows "\<exists>txt. out_String (string_array k vs) = k @ ''='' @ txt \<and> ArrayToStrings txt = vs"
proof -
  have "out_String (string_array k vs) = k @ ''='' @ (CHR ''['' # Join (map quoted vs) '', '' @ '']'')"
    by (simp add: string_array_def renderSlice_def comp_def)
  moreover have "tokenize (Join (map quoted vs) ''  '') = Inr (map quoted vs)"
    using tokenizeLoop_Join[of vs "[]"] assms by (simp add: tokenize_def)
  moreover have "map array_unquote (filter (\<lambda>tok. tok \<noteq> []) (map quoted vs)) = vs"
  proof -
    have "filter (\<lambda>tok. tok \<noteq> []) (map quoted vs) = map quoted vs" by (induction vs) (auto simp: quoted_def)
    then show ?thesis using assms by (simp add: map_idI array_unquote_quoted)
  qed
  ultimately show ?thesis
    using ReplaceByte_Join_quoted[of vs] assms ArrayToStrings_brackets[of "Join (map quoted vs) '', ''"] by simp
qed

theorem array_roundtrip_witness:
  "\<exists>txt. out_String (string_array ''reasons'' [''to read'', [], ''it's'']) = ''reasons='' @ txt \<and>
     ArrayToStrings txt = [''to read'', [], ''it's'']"
  using array_roundtrip[of "[''to read'', [], ''it's'']" "''reasons''"] by simp

text \<open>
  One apostrophe empties an array. The tokenizer reports an unterminated quote and its caller
  drops the report with every token: a list of words with a single apostrophe in one of them is
  read as the empty list, so a permission request loses all its reasons.
\<close>
lemma apostrophe_drops_the_array:
  assumes "SQ \<notin> set a" "SQ \<notin> set b" "set a \<inter> {DQ, CHR ''{'', CHR ''['', CHR ''(''} = {}"
  shows "ArrayToStrings (CHR ''['' # (a @ [SQ] @ b) @ '']'') = []"
proof -
  let ?r = "ReplaceByte (CHR '','') '' ''"
  have sep: "?r (a @ [SQ] @ b) = ?r a @ SQ # ?r b" by (simp add: ReplaceByte_def)
  have keep: "set (?r s) \<subseteq> set s \<union> {CHR '' ''}" for s by (auto simp: ReplaceByte_def)
  have b: "scan_to SQ (?r b) = None"
  proof -
    have "dropWhile (\<lambda>c. c \<noteq> SQ) (?r b) = []" using keep[of b] assms(2) by (auto simp: dropWhile_eq_Nil_conv)
    then show ?thesis unfolding scan_to_def by (simp only: list.case)
  qed
  have "\<exists>e. tokenizeLoop (s @ SQ # ?r b) buf tokens = Inl e"
    if "set s \<inter> {SQ, DQ, CHR ''{'', CHR ''['', CHR ''(''} = {}" for s buf tokens
    using that
  proof (induction s arbitrary: buf tokens)
    case Nil
    with b show ?case by (simp add: scan_group_def Let_def)
  next
    case (Cons c s)
    then have "c \<noteq> SQ" "c \<noteq> DQ" "c \<noteq> CHR ''{''" "c \<noteq> CHR ''[''" "c \<noteq> CHR ''(''" by auto
    then have "scan_group c (s @ SQ # ?r b) = Inr ([], s @ SQ # ?r b)" by (simp add: scan_group_def Let_def)
    with Cons show ?case by simp
  qed
  moreover have "set (?r a) \<inter> {SQ, DQ, CHR ''{'', CHR ''['', CHR ''(''} = {}"
    using keep[of a] assms(1,3) by auto
  ultimately obtain e where "tokenize (?r (a @ [SQ] @ b)) = Inl e"
    unfolding sep tokenize_def by blast
  then show ?thesis unfolding ArrayToStrings_brackets by simp
qed

lemma apostrophe_drops_the_array_witness:
  "ArrayToStrings ''[ to open the users file, we don't store it ]'' = []"
proof -
  have "ArrayToStrings (CHR ''['' # ('' to open the users file, we don'' @ [SQ] @ ''t store it '') @ '']'') = []"
    by (rule apostrophe_drops_the_array) auto
  then show ?thesis by simp
qed

end
