(* ===== verification/Spore_State.thy ===== *)
theory Spore_State
  imports Msg Go_Path
begin

text \<open>
  The state nodes leave with the daemon (spored/internal/spore/state.go). A handler of the Spore
  node either returns an error at once or starts a goroutine, and the goroutine sends one response:
  \<open>Inl\<close> is the error, \<open>Inr\<close> the goroutine as a function of the state it meets.
\<close>

type_synonym 'w handler = "error + ('w \<Rightarrow> message \<times> 'w)"

text \<open>The argument of a handler, or the error for a request without it.\<close>

definition with_arg :: "string \<Rightarrow> message \<Rightarrow> (string \<Rightarrow> error + 'a) \<Rightarrow> error + 'a" where
  "with_arg name request body =
     (case Arg request name of
        (v, True) \<Rightarrow> body v
      | (_, False) \<Rightarrow> Inl (WithMessage (MissingArg name Mod_Spore) request))"

definition respond_error :: "message \<Rightarrow> error \<Rightarrow> message" where
  "respond_error request err = MError (WithMessage err request)"

section \<open>Files\<close>

text \<open>
  The files of the data directory, what the system calls answer, and what a failed write leaves in
  the file.
\<close>

record data_disk =
  dd_mkdir_err :: "string option"
  dd_chmod_dir_err :: "string option"
  dd_write_err :: "string option"
  dd_chmod_err :: "string option"
  dd_read_err :: "string option"
  dd_partial :: "string option"
  dd_files :: "string gomap"

definition persistFile :: "string \<Rightarrow> string \<Rightarrow> data_disk \<Rightarrow> error option \<times> data_disk" where
  "persistFile filename body d =
     (let failed = (\<lambda>what e. Some (error_New C_Generic Mod_Spore what [Pair ''err'' e])) in
      case dd_mkdir_err d of
        Some e \<Rightarrow> (failed ''unable to create persisted state directory'' e, d)
      | None \<Rightarrow>
          (case dd_chmod_dir_err d of
             Some e \<Rightarrow> (failed ''unable to secure persisted state directory'' e, d)
           | None \<Rightarrow>
               (case dd_write_err d of
                  Some e \<Rightarrow> (failed ''unable to persist state'' e,
                             d\<lparr>dd_files := (dd_files d)(filename := dd_partial d)\<rparr>)
                | None \<Rightarrow>
                    (let d1 = d\<lparr>dd_files := (dd_files d)(filename \<mapsto> body)\<rparr> in
                     case dd_chmod_err d of
                       Some e \<Rightarrow> (failed ''unable to secure persisted state'' e, d1)
                     | None \<Rightarrow> (None, d1)))))"

text \<open>\<open>ContainsAny\<close> with the set of the slash and the backslash.\<close>

definition validPersistIdentifier :: "string \<Rightarrow> bool" where
  "validPersistIdentifier v \<longleftrightarrow>
     v \<noteq> [] \<and> v \<noteq> ''.'' \<and> v \<noteq> ''..'' \<and> \<not> (SLASH \<in> set v \<or> BSL \<in> set v)"

definition persistFileName :: "string \<Rightarrow> string \<Rightarrow> string \<Rightarrow> error + string" where
  "persistFileName dataDirectory key cast =
     (if \<not> validPersistIdentifier cast \<or> \<not> validPersistIdentifier key
      then Inl (error_New C_Malformed Mod_Spore ''invalid persisted state identifier'' [])
      else Inr (filepath_Join [dataDirectory, cast @ ''.'' @ key @ ''.persist'']))"

section \<open>The handlers\<close>

definition statePersist :: "string \<Rightarrow> message \<Rightarrow> data_disk handler" where
  "statePersist dir request =
     with_arg ''key'' request (\<lambda>key.
       case persistFileName dir key (Origin request) of
         Inl err \<Rightarrow> Inl (WithMessage err request)
       | Inr filename \<Rightarrow>
           with_arg ''body'' request (\<lambda>body.
             Inr (\<lambda>d. case persistFile filename body d of
                        (Some err, d1) \<Rightarrow> (respond_error request err, d1)
                      | (None, d1) \<Rightarrow> (message_Spore request [], d1))))"

definition stateRetrieve :: "string \<Rightarrow> message \<Rightarrow> data_disk handler" where
  "stateRetrieve dir request =
     with_arg ''key'' request (\<lambda>key.
       case persistFileName dir key (Origin request) of
         Inl err \<Rightarrow> Inl (WithMessage err request)
       | Inr filename \<Rightarrow>
           Inr (\<lambda>d. (case dd_files d filename of
                       None \<Rightarrow> message_Spore request [Pair ''body'' [], Flag ''empty'']
                     | Some body \<Rightarrow>
                         (case dd_read_err d of
                            Some e \<Rightarrow> respond_error request (error_New C_Generic Mod_Spore
                                        ''unable to retrieve persisted state'' [Pair ''err'' e])
                          | None \<Rightarrow> message_Spore request [Pair ''body'' body]),
                     d)))"

section \<open>Where the files are\<close>

lemma Join_snoc: "Join (xs @ [n]) sep = (if xs = [] then n else Join xs sep @ sep @ n)"
  by (induction xs rule: induct_list012) auto

lemma persist_name:
  assumes "persistFileName dir key cast = Inr f" "dir \<noteq> []"
  shows "f = Clean (dir @ SLASH # cast @ ''.'' @ key @ ''.persist'') \<and>
         SLASH \<notin> set (cast @ ''.'' @ key @ ''.persist'')"
  using assms by (auto simp: persistFileName_def validPersistIdentifier_def split: if_splits)

text \<open>
  C37. State is only written beside other state. Whatever the key and the sender's id are, when the
  daemon accepts them then the file is named sender.key.persist and lies directly in the data
  directory: the cleaned path has the elements of the directory's cleaned path followed by that
  name, so no dots and separators in a key lead out of the directory.
\<close>
theorem persist_stays_in_the_directory:
  assumes "persistFileName dir key cast = Inr f" "dir \<noteq> []"
  shows "f = (if path_rooted dir then ''/'' else []) @
             Join (clean_segs dir @ [cast @ ''.'' @ key @ ''.persist'']) ''/''"
proof -
  let ?name = "cast @ ''.'' @ key @ ''.persist''"
  from persist_name[OF assms] have f: "f = Clean (dir @ SLASH # ?name)" "SLASH \<notin> set ?name" by simp_all
  have "?name \<noteq> []" "?name \<noteq> ''.''" "?name \<noteq> ''..''"
    by (cases cast; auto)+
  with clean_segs_append[OF assms(2) f(2)] have c: "clean_segs (dir @ SLASH # ?name) = clean_segs dir @ [?name]"
    by blast
  have "Join (clean_segs dir @ [?name]) ''/'' \<noteq> []"
    unfolding Join_snoc using \<open>?name \<noteq> []\<close> by simp
  then show ?thesis
    unfolding f(1) Clean_def c Let_def path_rooted_append[OF assms(2)] by simp
qed

theorem persist_stays_in_the_directory_witness:
  "\<exists>f. persistFileName ''/var/spore'' ''..a'' ''dev.x'' = Inr f \<and> f = ''/var/spore/dev.x...a.persist''"
proof -
  obtain f where f: "persistFileName ''/var/spore'' ''..a'' ''dev.x'' = Inr f"
    by (simp add: persistFileName_def validPersistIdentifier_def)
  have "clean_segs ''/var/spore'' = [''var'', ''spore'']" by code_simp
  with persist_stays_in_the_directory[OF f] f show ?thesis by (simp add: path_rooted_def)
qed

section \<open>What comes back\<close>

text \<open>A disk on which every call succeeds.\<close>

definition disk_works :: "data_disk \<Rightarrow> bool" where
  "disk_works d \<longleftrightarrow> dd_mkdir_err d = None \<and> dd_chmod_dir_err d = None \<and> dd_write_err d = None \<and>
     dd_chmod_err d = None \<and> dd_read_err d = None"

lemma persistFile_works:
  "disk_works d \<Longrightarrow> persistFile f body d = (None, d\<lparr>dd_files := (dd_files d)(f \<mapsto> body)\<rparr>)"
  by (simp add: persistFile_def disk_works_def Let_def)

lemma statePersist_job:
  assumes "statePersist dir request = Inr job"
  obtains key f body where "Arg request ''key'' = (key, True)" "Arg request ''body'' = (body, True)"
    "persistFileName dir key (Origin request) = Inr f"
    "job = (\<lambda>d. case persistFile f body d of
        (Some err, d1) \<Rightarrow> (respond_error request err, d1) | (None, d1) \<Rightarrow> (message_Spore request [], d1))"
  using assms by (auto simp: statePersist_def with_arg_def split: prod.splits bool.splits sum.splits)

lemma stateRetrieve_run:
  assumes "stateRetrieve dir request = Inr job" "Arg request ''key'' = (key, True)"
    "persistFileName dir key (Origin request) = Inr f" "dd_files d f = Some body" "dd_read_err d = None"
  shows "job d = (message_Spore request [Pair ''body'' body], d)"
  using assms by (auto simp: stateRetrieve_def with_arg_def)

text \<open>
  C36. A node gets back what it left. After a node's persist request has been carried out, a retrieve
  request with the same key from the same node, whatever has been persisted under other file names
  in between, is answered with exactly the body that was sent, and the persist request with its
  plain acknowledgement; both leave every other file as it was.
\<close>
theorem persisted_state_comes_back:
  assumes "statePersist dir p = Inr save" "stateRetrieve dir q = Inr load" "Origin q = Origin p"
    "Arg q ''key'' = Arg p ''key''" "disk_works d" "save d = (m, d1)"
    "disk_works d2" "\<forall>f. persistFileName dir (fst (Arg p ''key'')) (Origin p) = Inr f \<longrightarrow>
       dd_files d2 f = dd_files d1 f"
  shows "m = message_Spore p [] \<and> load d2 = (message_Spore q [Pair ''body'' (fst (Arg p ''body''))], d2) \<and>
         (\<exists>f. persistFileName dir (fst (Arg p ''key'')) (Origin p) = Inr f \<and>
            (\<forall>g. g \<noteq> f \<longrightarrow> dd_files d1 g = dd_files d g))"
proof -
  from assms(1) obtain key f body where p: "Arg p ''key'' = (key, True)" "Arg p ''body'' = (body, True)"
    "persistFileName dir key (Origin p) = Inr f"
    "save = (\<lambda>d. case persistFile f body d of
        (Some err, d1) \<Rightarrow> (respond_error p err, d1) | (None, d1) \<Rightarrow> (message_Spore p [], d1))"
    by (rule statePersist_job)
  have d1: "m = message_Spore p []" "d1 = d\<lparr>dd_files := (dd_files d)(f \<mapsto> body)\<rparr>"
    using assms(6) p(4) persistFile_works[OF assms(5)] by simp_all
  have "dd_files d2 f = Some body" using assms(8) p(1,3) d1(2) by simp
  moreover have "dd_read_err d2 = None" using assms(7) by (simp add: disk_works_def)
  ultimately have "load d2 = (message_Spore q [Pair ''body'' body], d2)"
    using stateRetrieve_run[OF assms(2)] assms(3,4) p(1,3) by simp
  with d1 p(1-3) show ?thesis by simp
qed

text \<open>Requests for a key of a node, and an empty disk.\<close>

definition state_request :: "string \<Rightarrow> string \<Rightarrow> string \<Rightarrow> message" where
  "state_request i key body = MRequest \<lparr>rq_raw = [], rq_id = i, rq_command = [],
     rq_args = [''key'' \<mapsto> key, ''body'' \<mapsto> body], rq_flags = [], rq_handle = ''h''\<rparr>"

definition empty_disk :: data_disk where
  "empty_disk = \<lparr>dd_mkdir_err = None, dd_chmod_dir_err = None, dd_write_err = None, dd_chmod_err = None,
     dd_read_err = None, dd_partial = None, dd_files = (\<lambda>_. None)\<rparr>"

lemma state_request_Arg [simp]:
  "Arg (state_request i key body) ''key'' = (key, True)" "Arg (state_request i key body) ''body'' = (body, True)"
  by (simp_all add: state_request_def map_Arg_def)

lemma state_request_Origin: "CHR '':'' \<notin> set i \<Longrightarrow> Origin (state_request i key body) = i"
  by (simp add: state_request_def castIdentity_def CutByte_def)

lemma state_handlers:
  assumes "CHR '':'' \<notin> set i" "validPersistIdentifier i" "validPersistIdentifier key" "disk_works d"
  obtains save load where "statePersist dir (state_request i key body) = Inr save"
    "stateRetrieve dir (state_request i key body) = Inr load"
    "save d = (message_Spore (state_request i key body) [],
               d\<lparr>dd_files := (dd_files d)(filepath_Join [dir, i @ ''.'' @ key @ ''.persist''] \<mapsto> body)\<rparr>)"
    "load = (\<lambda>d. (case dd_files d (filepath_Join [dir, i @ ''.'' @ key @ ''.persist'']) of
        None \<Rightarrow> message_Spore (state_request i key body) [Pair ''body'' [], Flag ''empty'']
      | Some body' \<Rightarrow> (case dd_read_err d of
            Some e \<Rightarrow> respond_error (state_request i key body) (error_New C_Generic Mod_Spore
                        ''unable to retrieve persisted state'' [Pair ''err'' e])
          | None \<Rightarrow> message_Spore (state_request i key body) [Pair ''body'' body']), d))"
  using assms persistFile_works[OF assms(4)] that
  by (simp add: statePersist_def stateRetrieve_def with_arg_def persistFileName_def state_request_Origin
      del: filepath_Join.simps)

theorem persisted_state_comes_back_witness:
  "\<exists>save load m d1. statePersist ''/d'' (state_request ''dev.a'' ''k'' ''v'') = Inr save \<and>
     stateRetrieve ''/d'' (state_request ''dev.a'' ''k'' []) = Inr load \<and> save empty_disk = (m, d1) \<and>
     load d1 = (message_Spore (state_request ''dev.a'' ''k'' []) [Pair ''body'' ''v''], d1)"
proof -
  have v: "CHR '':'' \<notin> set ''dev.a''" "validPersistIdentifier ''dev.a''" "validPersistIdentifier ''k''"
    "disk_works empty_disk"
    by (simp_all add: validPersistIdentifier_def disk_works_def empty_disk_def)
  obtain save d1 where s: "statePersist ''/d'' (state_request ''dev.a'' ''k'' ''v'') = Inr save"
    "save empty_disk = (message_Spore (state_request ''dev.a'' ''k'' ''v'') [], d1)" "disk_works d1"
    by (rule state_handlers[OF v, of "''/d''" "''v''"]) (auto simp: disk_works_def empty_disk_def simp del: filepath_Join.simps)
  obtain load where l: "stateRetrieve ''/d'' (state_request ''dev.a'' ''k'' []) = Inr load"
    by (rule state_handlers[OF v, of "''/d''" "[]"])
  have o: "Origin (state_request ''dev.a'' ''k'' []) = Origin (state_request ''dev.a'' ''k'' ''v'')"
    using state_request_Origin[OF v(1)] by simp
  from persisted_state_comes_back[OF s(1) l o _ v(4) s(2) s(3)] s l show ?thesis by simp
qed

text \<open>
  Two nodes can share a file. The sender's id and the key are joined with a dot that both may
  contain: a node whose id continues another node's id with a dot and a word reads and overwrites
  what the other node left under a key that starts with that word.
\<close>
lemma persisted_state_is_shared:
  assumes "statePersist dir p = Inr save" "stateRetrieve dir q = Inr load"
    "Origin q = Origin p @ ''.'' @ x" "fst (Arg p ''key'') = x @ ''.'' @ fst (Arg q ''key'')"
    "disk_works d" "save d = (m, d1)"
  shows "Origin q \<noteq> Origin p \<and> load d1 = (message_Spore q [Pair ''body'' (fst (Arg p ''body''))], d1)"
proof -
  from assms(1) obtain key f body where p: "Arg p ''key'' = (key, True)" "Arg p ''body'' = (body, True)"
    "persistFileName dir key (Origin p) = Inr f"
    "save = (\<lambda>d. case persistFile f body d of
        (Some err, d1) \<Rightarrow> (respond_error p err, d1) | (None, d1) \<Rightarrow> (message_Spore p [], d1))"
    by (rule statePersist_job)
  obtain key' f' where q: "Arg q ''key'' = (key', True)" "persistFileName dir key' (Origin q) = Inr f'"
    using assms(2) by (auto simp: stateRetrieve_def with_arg_def split: prod.splits bool.splits sum.splits)
  have "f' = f" using p(1,3) q assms(3,4) by (auto simp: persistFileName_def split: if_splits)
  moreover have d1: "d1 = d\<lparr>dd_files := (dd_files d)(f \<mapsto> body)\<rparr>"
    using assms(6) p(4) persistFile_works[OF assms(5)] by simp
  ultimately have "load d1 = (message_Spore q [Pair ''body'' body], d1)"
    using stateRetrieve_run[OF assms(2) q, of d1 body] assms(5) by (simp add: disk_works_def)
  with p(2) assms(3) show ?thesis by simp
qed

lemma persisted_state_is_shared_witness:
  "\<exists>save load m d1. statePersist ''/d'' (state_request ''dev.a'' ''b.k'' ''secret'') = Inr save \<and>
     stateRetrieve ''/d'' (state_request ''dev.a.b'' ''k'' []) = Inr load \<and> save empty_disk = (m, d1) \<and>
     load d1 = (message_Spore (state_request ''dev.a.b'' ''k'' []) [Pair ''body'' ''secret''], d1)"
proof -
  have v: "CHR '':'' \<notin> set ''dev.a''" "validPersistIdentifier ''dev.a''" "validPersistIdentifier ''b.k''"
    "disk_works empty_disk" "CHR '':'' \<notin> set ''dev.a.b''" "validPersistIdentifier ''dev.a.b''"
    "validPersistIdentifier ''k''"
    by (simp_all add: validPersistIdentifier_def disk_works_def empty_disk_def)
  obtain save d1 where s: "statePersist ''/d'' (state_request ''dev.a'' ''b.k'' ''secret'') = Inr save"
    "save empty_disk = (message_Spore (state_request ''dev.a'' ''b.k'' ''secret'') [], d1)"
    by (rule state_handlers[OF v(1-4), of "''/d''" "''secret''"]) blast
  obtain load where l: "stateRetrieve ''/d'' (state_request ''dev.a.b'' ''k'' []) = Inr load"
    by (rule state_handlers[OF v(5-7,4), of "''/d''" "[]"])
  have "Origin (state_request ''dev.a.b'' ''k'' []) = Origin (state_request ''dev.a'' ''b.k'' ''secret'') @ ''.'' @ ''b''"
    by (simp add: state_request_Origin)
  from persisted_state_is_shared[OF s(1) l this _ v(4) s(2)] s l show ?thesis by simp
qed

end
