(* ===== verification/Spore_Meta.thy ===== *)
theory Spore_Meta
  imports Manifest_Model Abbrev Spore_State Nodes_Model
begin

text \<open>
  The questions about the system itself (spored/internal/spore/meta.go): help, state, list, complete
  and hint. What the node table answers is one environment that does not change during a call; a
  node it lists may still have no manifest, when it was uninstalled in between. \<open>None\<close> is the
  call of a method on that nil manifest, a panic of the goroutine and so of the daemon.
\<close>

section \<open>The words of a body\<close>

datatype closer = CloseBracket | CloseBrace | CloseAngles

fun closer_text :: "closer \<Rightarrow> string" where
  "closer_text CloseBracket = '']''"
| "closer_text CloseBrace = ''}''"
| "closer_text CloseAngles = ''>>''"

record body_st =
  bd_parts :: "string list"
  bd_current :: string
  bd_stack :: "closer list"
  bd_quote :: "char option"
  bd_tokStart :: int
  bd_part :: string
  bd_found :: bool

definition body_flush :: "int \<Rightarrow> int \<Rightarrow> body_st \<Rightarrow> body_st" where
  "body_flush cursor end s =
     (if bd_current s = [] then s
      else let s1 = s\<lparr>bd_parts := bd_parts s @ [bd_current s], bd_current := []\<rparr> in
           if \<not> bd_found s \<and> bd_tokStart s \<le> cursor \<and> cursor \<le> end + 1
           then s1\<lparr>bd_part := bd_current s, bd_found := True\<rparr> else s1)"

definition body_write :: "string \<Rightarrow> body_st \<Rightarrow> body_st" where
  "body_write t s = s\<lparr>bd_current := bd_current s @ t\<rparr>"

text \<open>A byte outside a quote that does not close the innermost bracket.\<close>

definition body_open :: "int \<Rightarrow> int \<Rightarrow> string \<Rightarrow> body_st \<Rightarrow> nat \<times> body_st" where
  "body_open cursor i rest s =
     (let c = hd rest in
      if bd_stack s = [] \<and> c = CHR '' ''
      then (1, (body_flush cursor (i - 1) s)\<lparr>bd_tokStart := i + 1\<rparr>)
      else if c = SQ \<or> c = DQ then (1, (body_write [c] s)\<lparr>bd_quote := Some c\<rparr>)
      else if c = CHR ''['' then (1, (body_write [c] s)\<lparr>bd_stack := CloseBracket # bd_stack s\<rparr>)
      else if c = CHR ''{'' then (1, (body_write [c] s)\<lparr>bd_stack := CloseBrace # bd_stack s\<rparr>)
      else if HasPrefix rest ''<<''
      then (2, (body_write ''<<'' s)\<lparr>bd_stack := CloseAngles # bd_stack s\<rparr>)
      else (1, body_write [c] s))"

text \<open>One turn of the loop at index \<open>i\<close> with the rest of the body: how many bytes it takes.\<close>

definition body_step :: "int \<Rightarrow> int \<Rightarrow> string \<Rightarrow> body_st \<Rightarrow> nat \<times> body_st" where
  "body_step cursor i rest s =
     (let c = hd rest;
          closes = (case bd_stack s of [] \<Rightarrow> None
                    | cl # cls \<Rightarrow> if HasPrefix rest (closer_text cl) then Some cl else None) in
      case bd_quote s of
        Some q \<Rightarrow> (1, (body_write [c] s)\<lparr>bd_quote := (if c = q then None else Some q)\<rparr>)
      | None \<Rightarrow>
          (case closes of
             Some cl \<Rightarrow> (length (closer_text cl), (body_write (closer_text cl) s)\<lparr>bd_stack := tl (bd_stack s)\<rparr>)
           | None \<Rightarrow>
               body_open cursor i rest
                 (if bd_current s = [] \<and> c \<noteq> CHR '' '' then s\<lparr>bd_tokStart := i\<rparr> else s)))"

lemma closer_text_length: "length (closer_text cl) > 0"
  by (cases cl) simp_all

lemma body_open_pos: "fst (body_open cursor i rest s) > 0"
  by (simp add: body_open_def Let_def)

lemma body_step_pos: "fst (body_step cursor i rest s) > 0"
  using closer_text_length body_open_pos
  by (simp add: body_step_def Let_def split: option.split)

function bodyLoop :: "int \<Rightarrow> int \<Rightarrow> string \<Rightarrow> body_st \<Rightarrow> body_st" where
  "bodyLoop cursor i rest s =
     (if rest = [] then s
      else bodyLoop cursor (i + int (fst (body_step cursor i rest s)))
             (drop (fst (body_step cursor i rest s)) rest) (snd (body_step cursor i rest s)))"
  by pat_completeness auto
termination
  by (relation "measure (\<lambda>(_, _, rest, _). length rest)") (use body_step_pos in auto)

declare bodyLoop.simps [simp del]

definition parseBody :: "string \<Rightarrow> int \<Rightarrow> string list \<times> string" where
  "parseBody body cursor =
     (let s = body_flush cursor (int (length body) - 1)
                (bodyLoop cursor 0 body
                   \<lparr>bd_parts = [], bd_current = [], bd_stack = [], bd_quote = None, bd_tokStart = 0,
                    bd_part = [], bd_found = False\<rparr>)
      in (bd_parts s, if \<not> bd_found s \<and> bd_parts s \<noteq> [] then last (bd_parts s) else bd_part s))"

section \<open>Finding what is meant\<close>

record meta_env =
  me_self :: Manifest
  me_nodes :: "string list" \<comment> \<open>in the order the runtime iterates the node map\<close>
  me_manifest :: "string \<Rightarrow> Manifest option"
  me_state :: "string \<Rightarrow> error + State"
  me_goos :: string

datatype 'a found = Found 'a | NotFound | Ambiguous

definition found_of :: "'a list \<Rightarrow> 'a found" where
  "found_of xs = (case xs of [] \<Rightarrow> NotFound | [x] \<Rightarrow> Found x | _ \<Rightarrow> Ambiguous)"

definition names :: "string \<Rightarrow> string \<Rightarrow> bool" where
  "names part full \<longleftrightarrow> full = part \<or> HasSuffix full (''.'' @ part)"

definition matchNode :: "meta_env \<Rightarrow> string \<Rightarrow> Manifest option found" where
  "matchNode env part =
     (if part = ''SPORE'' \<or> part = ''sporeos.SPORE'' \<or> part = ''dev.sporeos.SPORE'' then Found (Some (me_self env))
      else case found_of (filter (names part) (me_nodes env)) of
             Found node \<Rightarrow> Found (me_manifest env node)
           | NotFound \<Rightarrow> NotFound
           | Ambiguous \<Rightarrow> Ambiguous)"

definition manifest_of :: "meta_env \<Rightarrow> string \<Rightarrow> Manifest option" where
  "manifest_of env node = (if node = spore_id then Some (me_self env) else me_manifest env node)"

text \<open>The loop over every node and the Spore node, which looks into each manifest.\<close>

fun collect_from :: "(Manifest \<Rightarrow> 'a list) \<Rightarrow> meta_env \<Rightarrow> string list \<Rightarrow> 'a list option" where
  "collect_from f env [] = Some []"
| "collect_from f env (node # nodes) =
     (case manifest_of env node of
        None \<Rightarrow> None
      | Some m \<Rightarrow> map_option ((@) (f m)) (collect_from f env nodes))"

definition command_fq :: "Manifest \<Rightarrow> Command \<Rightarrow> string" where
  "command_fq m c = m_ID m @ ''.'' @ cm_Name c"

definition topic_fq :: "Manifest \<Rightarrow> Topic \<Rightarrow> string" where
  "topic_fq m t = m_ID m @ ''.'' @ tp_Name t"

definition matchCommand :: "meta_env \<Rightarrow> string \<Rightarrow> (Manifest \<times> Command) found option" where
  "matchCommand env part =
     map_option found_of
       (collect_from (\<lambda>m. map (\<lambda>c. (m, c)) (filter (\<lambda>c. names part (command_fq m c)) (m_Api m)))
          env (me_nodes env @ [spore_id]))"

definition matchTopic :: "meta_env \<Rightarrow> string \<Rightarrow> (Manifest \<times> Topic) found option" where
  "matchTopic env part =
     map_option found_of
       (collect_from (\<lambda>m. map (\<lambda>t. (m, t)) (filter (\<lambda>t. names part (topic_fq m t)) (m_Topics m)))
          env (me_nodes env @ [spore_id]))"

definition numbered :: "string \<Rightarrow> string list \<Rightarrow> out list" where
  "numbered what xs = map (\<lambda>(i, el). Pair (what @ show_nat (Suc i)) el) (enumerate 0 xs)"

definition nodeCollisionError :: "meta_env \<Rightarrow> string \<Rightarrow> message" where
  "nodeCollisionError env part =
     message_Witness ''Node collision'' (numbered ''node_'' (filter (names part) (me_nodes env)))"

definition commandCollisionError :: "meta_env \<Rightarrow> string \<Rightarrow> message option" where
  "commandCollisionError env part =
     map_option (\<lambda>f. message_Witness ''Command collision'' (numbered ''command_'' f))
       (collect_from (\<lambda>m. map (command_fq m)
            (filter (\<lambda>c. cm_Name c = part \<or> HasSuffix (command_fq m c) (''.'' @ part)) (m_Api m)))
          env (me_nodes env @ [spore_id]))"

definition topicCollisionError :: "meta_env \<Rightarrow> string \<Rightarrow> message option" where
  "topicCollisionError env part =
     map_option (\<lambda>f. message_Witness ''Topic collision'' (numbered ''topic_'' f))
       (collect_from (\<lambda>m. map (topic_fq m)
            (filter (\<lambda>t. tp_Name t = part \<or> HasSuffix (topic_fq m t) (''.'' @ part)) (m_Topics m)))
          env (me_nodes env @ [spore_id]))"

section \<open>The answers\<close>

definition btos :: "bool \<Rightarrow> string" where
  "btos b = (if b then ''true'' else ''false'')"

definition array_unless_empty :: "string \<Rightarrow> string list \<Rightarrow> out list" where
  "array_unless_empty key xs = (if length xs > 0 then [string_array key xs] else [])"

text \<open>A field that may be absent: nothing is printed for it then, nor when it is empty.\<close>

definition optional_array :: "string \<Rightarrow> ('a \<Rightarrow> string) \<Rightarrow> 'a list option \<Rightarrow> out list" where
  "optional_array key f xs = (case xs of None \<Rightarrow> [] | Some ys \<Rightarrow> array_unless_empty key (map f ys))"

definition help_node :: "meta_env \<Rightarrow> Manifest \<Rightarrow> out list" where
  "help_node env m =
     [Pair ''id'' (m_ID m), Pair ''name'' (m_Name m), Pair ''description'' (m_Description m),
      Pair ''trust'' (m_Trust m), Pair ''schema'' (m_Schema m), Pair ''version'' (m_Version m),
      Pair ''app'' (GetBinaryPath (me_goos env) m), Pair ''launch'' (m_Launch m),
      Pair ''namespace'' (m_Namespace m), Pair ''witness'' (btos (m_Witness m))]"

definition help_command :: "Manifest \<Rightarrow> Command \<Rightarrow> out list" where
  "help_command m c =
     [Pair ''node'' (m_Name m), Pair ''command'' (cm_Name c), Pair ''fully-qualified'' (command_fq m c),
      Pair ''description'' (cm_Description c), Pair ''risk'' (cm_Risk c), string_array ''usage'' (cm_Usage c)] @
     optional_array ''inputs'' in_Name (cm_Inputs c) @ optional_array ''outputs'' ou_Name (cm_Outputs c) @
     optional_array ''notes'' id (cm_Notes c)"

definition help_topic :: "Manifest \<Rightarrow> Topic \<Rightarrow> out list" where
  "help_topic m t =
     [Pair ''node'' (m_Name m), Pair ''topic'' (tp_Name t), Pair ''fully-qualified'' (topic_fq m t),
      Pair ''description'' (tp_Description t), Pair ''risk'' (tp_Risk t), string_array ''usage'' (tp_Usage t)] @
     optional_array ''outputs'' ou_Name (tp_Outputs t) @ optional_array ''notes'' id (tp_Notes t)"

text \<open>The outputs and the messages to the witnesses.\<close>

definition getHelp :: "meta_env \<Rightarrow> string \<Rightarrow> int \<Rightarrow> (out list \<times> message list) option" where
  "getHelp env body cursor =
     (case fst (parseBody body cursor) of
        [] \<Rightarrow> Some ([], [])
      | part # _ \<Rightarrow>
          (case matchNode env part of
             Found man \<Rightarrow> map_option (\<lambda>m. (help_node env m, [])) man
           | node \<Rightarrow>
               (let (outs1, ws1) = (case node of
                      Ambiguous \<Rightarrow> ([Pair ''error'' ''node collision''], [nodeCollisionError env part])
                    | _ \<Rightarrow> ([], [])) in
                case matchCommand env part of
                  None \<Rightarrow> None
                | Some (Found (m, c)) \<Rightarrow> Some (outs1 @ help_command m c, ws1)
                | Some command \<Rightarrow>
                    (case (case command of
                             Ambiguous \<Rightarrow> map_option (\<lambda>w. ([Pair ''error'' ''command collision''], [w]))
                                            (commandCollisionError env part)
                           | _ \<Rightarrow> Some ([], [])) of
                       None \<Rightarrow> None
                     | Some (outs2, ws2) \<Rightarrow>
                         (case matchTopic env part of
                            None \<Rightarrow> None
                          | Some (Found (m, t)) \<Rightarrow> Some (outs1 @ outs2 @ help_topic m t, ws1 @ ws2)
                          | Some Ambiguous \<Rightarrow>
                              map_option (\<lambda>w. (outs1 @ outs2 @ [Pair ''error'' ''topic collision''], ws1 @ ws2 @ [w]))
                                (topicCollisionError env part)
                          | Some NotFound \<Rightarrow> Some (outs1 @ outs2, ws1 @ ws2))))))"

definition getState :: "meta_env \<Rightarrow> string \<Rightarrow> int \<Rightarrow> out list option" where
  "getState env body cursor =
     (case fst (parseBody body cursor) of
        [] \<Rightarrow> Some []
      | part # _ \<Rightarrow>
          (case matchNode env part of
             Found None \<Rightarrow> None
           | Found (Some m) \<Rightarrow>
               (let st = me_state env (m_ID m);
                    connected = (case st of Inl err \<Rightarrow> ArgIf (MError err) ''code'' ''unknowable''
                                 | Inr state \<Rightarrow> if Connected state then ''true'' else ''false'') in
                Some ([Pair ''manifest'' (m_Path m), Pair ''binary'' (GetBinaryPath (me_goos env) m),
                       Pair ''connected'' connected] @
                      (case st of Inl _ \<Rightarrow> []
                       | Inr state \<Rightarrow> if Pid state > -1 then [Pair ''pid'' (show_int (Pid state))] else [])))
           | _ \<Rightarrow> Some []))"

definition getList :: "meta_env \<Rightarrow> string \<Rightarrow> int \<Rightarrow> out list option" where
  "getList env body cursor =
     (case fst (parseBody body cursor) of
        [] \<Rightarrow> Some []
      | part # _ \<Rightarrow>
          (case matchNode env part of
             Found None \<Rightarrow> None
           | Found (Some m) \<Rightarrow>
               Some (array_unless_empty ''API'' (map cm_Name (m_Api m)) @
                     array_unless_empty ''TOPICS'' (map tp_Name (m_Topics m)) @
                     array_unless_empty ''ERRORS'' (map me_Name (m_Errors m)) @
                     array_unless_empty ''PERMISSIONS'' (map pr_Name (m_Permissions m)))
           | _ \<Rightarrow> Some []))"

definition complete_node :: "meta_env \<Rightarrow> string \<Rightarrow> string \<Rightarrow> out list" where
  "complete_node env part node =
     (case manifest_of env node of
        None \<Rightarrow> if Contains node part then [Pair node ''unknown node''] else []
      | Some m \<Rightarrow>
          (if Contains node part then [Pair node (m_Name m)] else []) @
          map (\<lambda>c. Pair (cm_Name c) (m_ID m)) (filter (\<lambda>c. Contains (command_fq m c) part) (m_Api m)) @
          map (\<lambda>t. Pair (tp_Name t) (m_ID m)) (filter (\<lambda>t. Contains (topic_fq m t) part) (m_Topics m)))"

definition getComplete :: "meta_env \<Rightarrow> string \<Rightarrow> int \<Rightarrow> out list" where
  "getComplete env body cursor =
     (case fst (parseBody body cursor) of
        [] \<Rightarrow> [string_array ''NODES'' (me_nodes env @ [spore_id])]
      | part # _ \<Rightarrow> concat (map (complete_node env part) (me_nodes env @ [spore_id])))"

section \<open>The handlers\<close>

text \<open>
  Each handler starts a goroutine that sends one response; the result is that response and the
  messages to the witnesses. \<open>answer\<close> is the response for outputs, or the error when there are none.
\<close>

definition answer :: "message \<Rightarrow> string \<Rightarrow> string \<Rightarrow> out list \<Rightarrow> message" where
  "answer request what body outs =
     (if length outs > 0 then message_Spore request outs
      else MError (WithMessage (error_New C_NoMatches Mod_Spore what [Pair ''body'' body]) request))"

definition spore_help :: "meta_env \<Rightarrow> message \<Rightarrow> (message \<times> message list) option" where
  "spore_help env request =
     (let body = ArgIf request ''body'' [] in
      map_option (\<lambda>(outs, ws). (answer request ''no help matches found'' body (outs @ [Pair ''body'' body]), ws))
        (getHelp env body (int (length body))))"

definition spore_state :: "meta_env \<Rightarrow> message \<Rightarrow> message option" where
  "spore_state env request =
     (let body = ArgIf request ''body'' [] in
      map_option (\<lambda>outs. answer request ''no state found'' body (outs @ [Pair ''body'' body]))
        (getState env body (int (length body))))"

definition spore_list :: "meta_env \<Rightarrow> message \<Rightarrow> message option" where
  "spore_list env request =
     (let body = ArgIf request ''body'' [] in
      map_option (\<lambda>outs. answer request ''no list found'' body (outs @ [Pair ''body'' body]))
        (getList env body (int (length body))))"

definition spore_complete :: "meta_env \<Rightarrow> message \<Rightarrow> message" where
  "spore_complete env request =
     (let body = ArgIf request ''body'' []; outs = getComplete env body (int (length body)) in
      answer request ''no completions found'' body
        (if length outs > 0 then outs @ [Pair ''body'' body] else outs))"

text \<open>\<open>Atoi\<close> returns the nearest value of the range with its error, and zero for other texts.\<close>

definition Atoi_value :: "string \<Rightarrow> int" where
  "Atoi_value s =
     (case Atoi s of
        Some v \<Rightarrow> v
      | None \<Rightarrow>
          (let neg = (s \<noteq> [] \<and> hd s = CHR ''-'');
               ds = (if s \<noteq> [] \<and> (hd s = CHR ''-'' \<or> hd s = CHR ''+'') then tl s else s) in
           if ds \<noteq> [] \<and> list_all is_digit ds then (if neg then - (2 ^ 63) else 2 ^ 63 - 1) else 0))"

definition spore_hint :: "meta_env \<Rightarrow> message \<Rightarrow> (message \<times> message list) option" where
  "spore_hint env request =
     (let body = ArgIf request ''body'' [];
          cursor = Atoi_value (ArgIf request ''cursor'' (show_nat (length body))) in
      case getHelp env body cursor of
        None \<Rightarrow> None
      | Some (helps, ws) \<Rightarrow>
          (case getState env body cursor of
             None \<Rightarrow> None
           | Some states \<Rightarrow>
               (case getList env body cursor of
                  None \<Rightarrow> None
                | Some listed \<Rightarrow>
                    (let outs = helps @ states @ listed in
                     Some (if length outs > 0 then message_Spore request (outs @ [Pair ''body'' body])
                           else answer request ''no hint matches found'' body
                                  (getComplete env body cursor @ [Pair ''body'' body]), ws)))))"

section \<open>No byte of a body is lost\<close>

definition body_text :: "body_st \<Rightarrow> string" where
  "body_text s = concat (bd_parts s) @ bd_current s"

definition unblank :: "string \<Rightarrow> string" where
  "unblank = filter (\<lambda>c. c \<noteq> CHR '' '')"

lemma unblank_append [simp]: "unblank (a @ b) = unblank a @ unblank b"
  by (simp add: unblank_def)

lemma unblank_Nil [simp]: "unblank [] = []"
  by (simp add: unblank_def)

lemma body_flush_text:
  "body_text (body_flush cursor end s) = body_text s"
  "[] \<notin> set (bd_parts s) \<Longrightarrow> [] \<notin> set (bd_parts (body_flush cursor end s))"
  by (auto simp: body_flush_def body_text_def Let_def)

lemma body_write_text: "body_text (body_write t s) = body_text s @ t" "bd_parts (body_write t s) = bd_parts s"
  by (simp_all add: body_write_def body_text_def)

lemma body_text_cong:
  "body_text (s\<lparr>bd_stack := x\<rparr>) = body_text s" "body_text (s\<lparr>bd_quote := q\<rparr>) = body_text s"
  "body_text (s\<lparr>bd_tokStart := i\<rparr>) = body_text s"
  by (simp_all add: body_text_def)

lemmas body_texts = body_flush_text body_write_text body_text_cong

lemma HasPrefix_take: "HasPrefix s p \<Longrightarrow> take (length p) s = p"
  by (auto simp: HasPrefix_def prefix_def)

lemma take_one: "rest \<noteq> [] \<Longrightarrow> take (Suc 0) rest = [hd rest]"
  by (cases rest) auto

lemma take_two: "HasPrefix rest ''<<'' \<Longrightarrow> take 2 rest = ''<<''"
  by (auto simp: HasPrefix_def prefix_def)

lemma body_open_text:
  assumes "rest \<noteq> []"
  shows "unblank (body_text (snd (body_open cursor i rest s))) =
           unblank (body_text s @ take (fst (body_open cursor i rest s)) rest)"
  using assms
  by (simp add: body_open_def Let_def body_texts take_one take_two) (simp add: unblank_def)

lemma body_open_parts:
  "[] \<notin> set (bd_parts s) \<Longrightarrow> [] \<notin> set (bd_parts (snd (body_open cursor i rest s)))"
  by (simp add: body_open_def Let_def body_texts)

lemma body_step_cases:
  obtains (quoted) q where "bd_quote s = Some q"
      "body_step cursor i rest s = (1, (body_write [hd rest] s)\<lparr>bd_quote := (if hd rest = q then None else Some q)\<rparr>)"
  | (closed) cl where "HasPrefix rest (closer_text cl)" "bd_stack s \<noteq> []" "cl = hd (bd_stack s)"
      "body_step cursor i rest s = (length (closer_text cl), (body_write (closer_text cl) s)\<lparr>bd_stack := tl (bd_stack s)\<rparr>)"
  | (opened) "body_step cursor i rest s = body_open cursor i rest
                (if bd_current s = [] \<and> hd rest \<noteq> CHR '' '' then s\<lparr>bd_tokStart := i\<rparr> else s)"
proof (cases "bd_quote s")
  case (Some q)
  with quoted show thesis by (simp add: body_step_def Let_def)
next
  case None
  show thesis
  proof (cases "bd_stack s \<noteq> [] \<and> HasPrefix rest (closer_text (hd (bd_stack s)))")
    case True
    with None closed show thesis by (cases "bd_stack s") (simp_all add: body_step_def Let_def)
  next
    case False
    with None opened show thesis by (cases "bd_stack s") (simp_all add: body_step_def Let_def)
  qed
qed

lemma body_step_text:
  assumes "rest \<noteq> []"
  shows "unblank (body_text (snd (body_step cursor i rest s))) =
           unblank (body_text s @ take (fst (body_step cursor i rest s)) rest) \<and>
         ([] \<notin> set (bd_parts s) \<longrightarrow> [] \<notin> set (bd_parts (snd (body_step cursor i rest s))))"
  using assms
  by (cases rule: body_step_cases[of s cursor i rest])
    (simp_all add: body_texts take_one HasPrefix_take body_open_text body_open_parts)

lemma bodyLoop_text:
  "unblank (body_text (bodyLoop cursor i rest s)) = unblank (body_text s @ rest) \<and>
   ([] \<notin> set (bd_parts s) \<longrightarrow> [] \<notin> set (bd_parts (bodyLoop cursor i rest s)))"
proof (induction cursor i rest s rule: bodyLoop.induct)
  case (1 cursor i rest s)
  show ?case
  proof (cases "rest = []")
    case False
    let ?k = "fst (body_step cursor i rest s)"
    have "unblank (body_text s @ rest) = unblank (body_text s @ take ?k rest) @ unblank (drop ?k rest)"
      by (simp flip: unblank_append)
    with 1[OF False] body_step_text[OF False, where cursor = cursor and i = i and s = s] False show ?thesis
      by (subst (1 2) bodyLoop.simps) simp
  qed (simp add: bodyLoop.simps)
qed

text \<open>
  The words of a body are the body. Splitting a body keeps every byte but blanks, in its order:
  no word is empty, and the words one after the other are the body without the blanks between them,
  for unbalanced brackets and quotes as well.
\<close>
lemma parseBody_keeps_every_byte:
  "[] \<notin> set (fst (parseBody body cursor)) \<and> unblank (concat (fst (parseBody body cursor))) = unblank body"
proof -
  let ?init = "\<lparr>bd_parts = [], bd_current = [], bd_stack = [], bd_quote = None, bd_tokStart = 0,
      bd_part = [], bd_found = False\<rparr>"
  let ?s = "bodyLoop cursor 0 body ?init"
  have e: "body_text ?init = []" "[] \<notin> set (bd_parts ?init)" by (simp_all add: body_text_def)
  have t: "unblank (body_text ?s) = unblank body" "[] \<notin> set (bd_parts ?s)"
    using bodyLoop_text[of cursor 0 body ?init] e unfolding e(1) append_Nil by blast+
  define f where "f = body_flush cursor (int (length body) - 1) ?s"
  have "bd_current f = []" by (simp add: f_def body_flush_def Let_def)
  then have "concat (bd_parts f) = body_text f" by (simp add: body_text_def)
  then have "concat (bd_parts f) = body_text ?s" unfolding f_def body_flush_text(1) .
  moreover have "[] \<notin> set (bd_parts f)" unfolding f_def by (rule body_flush_text(2)[OF t(2)])
  moreover have "fst (parseBody body cursor) = bd_parts f" by (simp add: parseBody_def Let_def f_def)
  ultimately show ?thesis using t(1) by simp
qed

section \<open>The cursor\<close>

text \<open>The states of two splittings that differ only in what the cursor decides.\<close>

definition same_words :: "body_st \<Rightarrow> body_st \<Rightarrow> bool" where
  "same_words s t \<longleftrightarrow> bd_parts s = bd_parts t \<and> bd_current s = bd_current t \<and> bd_stack s = bd_stack t \<and>
     bd_quote s = bd_quote t"

lemma body_flush_same: "same_words s t \<Longrightarrow> same_words (body_flush c e s) (body_flush c' e' t)"
  by (auto simp: same_words_def body_flush_def Let_def)

lemma body_open_same:
  "same_words s t \<Longrightarrow> fst (body_open c i rest s) = fst (body_open c' i' rest t) \<and>
     same_words (snd (body_open c i rest s)) (snd (body_open c' i' rest t))"
  using body_flush_same[of s t c "i - 1" c' "i' - 1"]
  by (auto simp: body_open_def Let_def same_words_def body_write_def)

lemma body_step_same:
  assumes "same_words s t"
  shows "fst (body_step c i rest s) = fst (body_step c' i' rest t) \<and>
         same_words (snd (body_step c i rest s)) (snd (body_step c' i' rest t))"
proof -
  have e: "bd_parts t = bd_parts s" "bd_current t = bd_current s" "bd_stack t = bd_stack s"
    "bd_quote t = bd_quote s" using assms by (simp_all add: same_words_def)
  define s1 where "s1 = (if bd_current s = [] \<and> hd rest \<noteq> CHR '' '' then s\<lparr>bd_tokStart := i\<rparr> else s)"
  define t1 where "t1 = (if bd_current s = [] \<and> hd rest \<noteq> CHR '' '' then t\<lparr>bd_tokStart := i'\<rparr> else t)"
  have "same_words s1 t1" using assms by (simp add: s1_def t1_def same_words_def)
  from body_open_same[OF this, of c i rest c' i'] show ?thesis
    unfolding body_step_def Let_def e s1_def[symmetric] t1_def[symmetric]
    by (simp add: same_words_def body_write_def e split: option.split)
qed

lemma bodyLoop_same:
  "same_words s t \<Longrightarrow> same_words (bodyLoop c i rest s) (bodyLoop c' i' rest t)"
proof (induction c i rest s arbitrary: i' t rule: bodyLoop.induct)
  case (1 c i rest s)
  show ?case
  proof (cases "rest = []")
    case False
    with 1(1)[OF False] body_step_same[OF 1(2), of c i rest c' i'] show ?thesis
      by (subst (1 2) bodyLoop.simps) simp
  qed (use 1 in \<open>simp add: bodyLoop.simps\<close>)
qed

lemma parseBody_cursor: "fst (parseBody body c) = fst (parseBody body c')"
proof -
  let ?init = "\<lparr>bd_parts = [], bd_current = [], bd_stack = [], bd_quote = None, bd_tokStart = 0,
      bd_part = [], bd_found = False\<rparr>"
  have "same_words (bodyLoop c 0 body ?init) (bodyLoop c' 0 body ?init)"
    by (rule bodyLoop_same) (simp add: same_words_def)
  from body_flush_same[OF this] show ?thesis by (simp add: parseBody_def Let_def same_words_def)
qed

text \<open>The answers are the same wherever the cursor of a hint is.\<close>

lemma cursor_is_ignored:
  "getHelp env body c = getHelp env body c'" "getState env body c = getState env body c'"
  "getList env body c = getList env body c'" "getComplete env body c = getComplete env body c'"
  unfolding getHelp_def getState_def getList_def getComplete_def
  by (simp_all only: parseBody_cursor[of body c c'])

section \<open>Help names what the bus would call\<close>

lemma names_dot_suffix: "names part full \<longleftrightarrow> dot_suffix part full"
  by (auto simp: names_def dot_suffix_def HasSuffix_def)

lemma collect_from_filter:
  "collect_from (\<lambda>m. map (\<lambda>c. (m, c)) (m_Api m)) env nodes = Some all \<Longrightarrow>
     collect_from (\<lambda>m. map (\<lambda>c. (m, c)) (filter (\<lambda>c. P m c) (m_Api m))) env nodes
       = Some (filter (\<lambda>(m, c). P m c) all)"
proof (induction nodes arbitrary: all)
  case (Cons node nodes)
  then obtain m rest where m: "manifest_of env node = Some m"
    "collect_from (\<lambda>m. map (\<lambda>c. (m, c)) (m_Api m)) env nodes = Some rest"
    "all = map (\<lambda>c. (m, c)) (m_Api m) @ rest"
    by (auto split: option.splits)
  have "filter (\<lambda>(m, c). P m c) (map (\<lambda>c. (m, c)) cs) = map (\<lambda>c. (m, c)) (filter (\<lambda>c. P m c) cs)" for cs
    by (induction cs) auto
  with m Cons.IH[OF m(2)] show ?case by simp
qed simp

lemma found_of_filter:
  fixes g :: "'a \<Rightarrow> 'b"
  assumes "distinct (map g all)" "{x \<in> set (map g all). P x} = R"
  shows "case found_of (filter (P \<circ> g) all) of
      Found a \<Rightarrow> R = {g a} | NotFound \<Rightarrow> R = {} | Ambiguous \<Rightarrow> \<not> (\<exists>f. R = {f}) \<and> R \<noteq> {}"
proof -
  have R: "R = g ` set (filter (P \<circ> g) all)" using assms(2) by auto
  have d: "distinct (map g (filter (P \<circ> g) all))" by (rule distinct_map_filter[OF assms(1)])
  show ?thesis
    unfolding R using d
    by (auto simp: found_of_def split: list.splits)
qed

text \<open>
  C31. Help and the bus agree on names. When the commands of all manifests have different fully
  qualified names and the bus has exactly these registered, then help finds a command for a word
  whenever the bus resolves the word, and it is the command the bus would call; help knows no
  command exactly when the bus has no candidate, and where help is ambiguous so is the bus. The one
  difference is a word the bus still holds ambiguous after repeated registrations of one command:
  then this command is its only candidate.
\<close>
theorem help_agrees_with_the_bus:
  assumes "collect_from (\<lambda>m. map (\<lambda>c. (m, c)) (m_Api m)) env (me_nodes env @ [spore_id]) = Some all"
    "distinct (map (\<lambda>(m, c). command_fq m c) all)"
    "idx_holds idx (set (map (\<lambda>(m, c). command_fq m c) all))"
    "idx_resolve idx part = (f, cs, ok)"
  shows "case matchCommand env part of
      Some (Found (m, c)) \<Rightarrow> if ok then f = command_fq m c else set cs = {command_fq m c}
    | Some NotFound \<Rightarrow> \<not> ok \<and> cs = []
    | Some Ambiguous \<Rightarrow> \<not> ok \<and> cs \<noteq> []
    | None \<Rightarrow> False"
proof -
  let ?g = "\<lambda>(m, c). command_fq m c"
  let ?R = "{x \<in> set (map ?g all). dot_suffix part x}"
  have eq: "matchCommand env part = Some (found_of (filter (dot_suffix part \<circ> ?g) all))"
    using collect_from_filter[OF assms(1), of "\<lambda>m c. names part (command_fq m c)"]
    by (simp add: matchCommand_def names_dot_suffix comp_def case_prod_unfold)
  have f: "ok \<Longrightarrow> ?R = {f} \<and> cs = []" "\<not> ok \<Longrightarrow> ?R = set cs"
    using abbr.resolve_found[OF assms(3), of part f cs] abbr.resolve_ambiguous[OF assms(3), of part f cs] assms(4)
    by (cases ok; simp)+
  have none: "\<not> ok \<Longrightarrow> ?R = {} \<longleftrightarrow> cs = []" using f(2) by simp
  from found_of_filter[OF assms(2), of "dot_suffix part" ?R] f none show ?thesis
    unfolding eq
    by (cases "found_of (filter (dot_suffix part \<circ> ?g) all)"; cases ok) auto
qed

text \<open>A node with one command, registered at a bus, beside the Spore node.\<close>

definition one_command :: meta_env where
  "one_command = \<lparr>me_self = empty_manifest\<lparr>m_ID := spore_id\<rparr>, me_nodes = [''dev.x''],
     me_manifest = (\<lambda>i. map_option (\<lambda>man. man\<lparr>m_ID := i\<rparr>) (n_manifest (command_node 2 i ''open''))),
     me_state = (\<lambda>_. Inr \<lparr>Connected = True, Pid = 7\<rparr>), me_goos = ''linux''\<rparr>"

theorem help_agrees_with_the_bus_witness:
  "\<exists>m c. matchCommand one_command ''open'' = Some (Found (m, c)) \<and>
     command_fq m c = fst (idx_resolve (idx_add ''dev.x.open'' newAbbreviationIndex) ''open'')"
proof -
  let ?idx = "idx_add ''dev.x.open'' newAbbreviationIndex"
  let ?m = "empty_manifest\<lparr>m_ID := ''dev.x'', m_Api := m_Api (the (n_manifest (command_node 2 ''dev.x'' ''open'')))\<rparr>"
  let ?c = "hd (m_Api ?m)"
  have all: "collect_from (\<lambda>m. map (\<lambda>c. (m, c)) (m_Api m)) one_command (me_nodes one_command @ [spore_id])
      = Some [(?m, ?c)]"
    by (simp add: one_command_def manifest_of_def command_node_def empty_manifest_def spore_id_def)
  have fq: "command_fq ?m ?c = ''dev.x.open''"
    by (simp add: command_fq_def command_node_def empty_manifest_def)
  have "idx_holds ?idx {''dev.x.open''}" using abbr.holds_add[OF abbr.holds_emp] by simp
  moreover have r: "idx_resolve ?idx ''open'' = (''dev.x.open'', [], True)" by code_simp
  ultimately have a: "case matchCommand one_command ''open'' of
      Some (Found (m, c)) \<Rightarrow> if True then ''dev.x.open'' = command_fq m c else set [] = {command_fq m c}
    | Some NotFound \<Rightarrow> \<not> True \<and> [] = ([] :: string list)
    | Some Ambiguous \<Rightarrow> \<not> True \<and> [] \<noteq> ([] :: string list)
    | None \<Rightarrow> False"
    by (intro help_agrees_with_the_bus[OF all]) (simp_all add: fq fq[simplified])
  then show ?thesis
    by (cases "matchCommand one_command ''open''"; cases "the (matchCommand one_command ''open'')")
      (auto simp: r)
qed

section \<open>Every question has an answer\<close>

lemma answer_outs: "outs \<noteq> [] \<Longrightarrow> answer request what body outs = message_Spore request outs"
  by (simp add: answer_def)

text \<open>
  A question that matches nothing is answered with an empty success. Help, state, list and hint
  end their outputs with the body before they look whether there are any, so the branch that
  reports NoMatches is never taken: whatever the request, the goroutine that returns sends a
  response with at least the body in it.
\<close>
lemma questions_never_report_no_matches:
  "(case spore_help env request of None \<Rightarrow> True
    | Some (m, ws) \<Rightarrow> \<exists>outs. m = message_Spore request (outs @ [Pair ''body'' (ArgIf request ''body'' [])])) \<and>
   (case spore_state env request of None \<Rightarrow> True
    | Some m \<Rightarrow> \<exists>outs. m = message_Spore request (outs @ [Pair ''body'' (ArgIf request ''body'' [])])) \<and>
   (case spore_list env request of None \<Rightarrow> True
    | Some m \<Rightarrow> \<exists>outs. m = message_Spore request (outs @ [Pair ''body'' (ArgIf request ''body'' [])])) \<and>
   (case spore_hint env request of None \<Rightarrow> True
    | Some (m, ws) \<Rightarrow> \<exists>outs. m = message_Spore request (outs @ [Pair ''body'' (ArgIf request ''body'' [])]))"
proof (intro conjI, goal_cases)
  case 1
  show ?case by (auto simp: spore_help_def Let_def answer_outs split: option.split prod.split)
next
  case 2
  show ?case by (auto simp: spore_state_def Let_def answer_outs split: option.split)
next
  case 3
  show ?case by (auto simp: spore_list_def Let_def answer_outs split: option.split)
next
  case 4
  let ?b = "ArgIf request ''body'' []" and ?c = "Atoi_value (ArgIf request ''cursor'' (show_nat (length (ArgIf request ''body'' []))))"
  show ?case
    by (cases "getHelp env ?b ?c"; cases "getState env ?b ?c"; cases "getList env ?b ?c")
      (auto simp: spore_hint_def Let_def answer_outs simp del: append_assoc simp flip: append_assoc)
qed

lemma collect_from_None:
  "collect_from f env nodes = None \<longleftrightarrow> (\<exists>node \<in> set nodes. manifest_of env node = None)"
  by (induction nodes) (auto split: option.splits)

lemma matchNode_listed: "matchNode env part = Found man \<Longrightarrow>
    man = Some (me_self env) \<or> (\<exists>node \<in> set (me_nodes env). man = me_manifest env node)"
proof -
  assume a: "matchNode env part = Found man"
  have "x \<in> set xs" if "found_of xs = Found x" for x and xs :: "string list"
    using that by (auto simp: found_of_def split: list.splits)
  with a show ?thesis by (fastforce simp: matchNode_def split: if_splits found.splits)
qed

lemma collect_from_total:
  assumes "\<forall>node \<in> set (me_nodes env). node \<noteq> spore_id" "\<forall>node \<in> set (me_nodes env). me_manifest env node \<noteq> None"
  shows "collect_from f env (me_nodes env @ [spore_id]) \<noteq> None"
  using assms by (auto simp: collect_from_None manifest_of_def)

lemma getHelp_total:
  assumes "\<And>part man. matchNode env part = Found man \<Longrightarrow> man \<noteq> None"
    "\<And>part. matchCommand env part \<noteq> None" "\<And>part. matchTopic env part \<noteq> None"
    "\<And>part. commandCollisionError env part \<noteq> None" "\<And>part. topicCollisionError env part \<noteq> None"
  shows "getHelp env body c \<noteq> None"
proof (cases "fst (parseBody body c)")
  case (Cons part parts)
  obtain mc mt where m: "matchCommand env part = Some mc" "matchTopic env part = Some mt"
    using assms(2,3) by blast
  obtain w1 w2 where w: "commandCollisionError env part = Some w1" "topicCollisionError env part = Some w2"
    using assms(4,5) by blast
  show ?thesis
  proof (cases "matchNode env part")
    case (Found man)
    with Cons assms(1)[OF Found] show ?thesis by (simp add: getHelp_def)
  next
    case NotFound
    with Cons m w show ?thesis by (cases mc; cases mt; simp add: getHelp_def split: prod.split)
  next
    case Ambiguous
    with Cons m w show ?thesis by (cases mc; cases mt; simp add: getHelp_def split: prod.split)
  qed
qed (simp add: getHelp_def)

text \<open>
  One missing manifest stops the daemon. As long as every node the table lists has a manifest,
  help, state, list and hint return; when a listed node has none, because it was uninstalled
  between the two calls, help for a word that names no node calls a method on a nil manifest, and
  so does hint.
\<close>
lemma help_needs_every_manifest:
  assumes "\<forall>node \<in> set (me_nodes env). node \<noteq> spore_id"
  shows "if \<forall>node \<in> set (me_nodes env). me_manifest env node \<noteq> None
         then spore_help env request \<noteq> None \<and> spore_state env request \<noteq> None \<and>
              spore_list env request \<noteq> None \<and> spore_hint env request \<noteq> None
         else \<forall>part parts. fst (parseBody (ArgIf request ''body'' []) 0) = part # parts \<and>
                 matchNode env part = NotFound \<longrightarrow>
                 spore_help env request = None \<and> spore_hint env request = None"
proof (cases "\<forall>node \<in> set (me_nodes env). me_manifest env node \<noteq> None")
  case True
  note total = collect_from_total[OF assms this]
  have node: "man \<noteq> None" if "matchNode env part = Found man" for part man
    using matchNode_listed[OF that] True by auto
  have h: "getHelp env body c \<noteq> None" for body c
    by (rule getHelp_total) (auto simp: matchCommand_def matchTopic_def commandCollisionError_def
        topicCollisionError_def total dest: node)
  have st: "getState env body c \<noteq> None" for body c
    using node by (auto simp: getState_def Let_def split: list.splits found.splits option.splits)
  have l: "getList env body c \<noteq> None" for body c
    using node by (auto simp: getList_def split: list.splits found.splits option.splits)
  let ?b = "ArgIf request ''body'' []"
  let ?c = "Atoi_value (ArgIf request ''cursor'' (show_nat (length ?b)))"
  obtain helps ws states listed where "getHelp env ?b ?c = Some (helps, ws)" "getState env ?b ?c = Some states"
    "getList env ?b ?c = Some listed"
    using h[of ?b ?c] st[of ?b ?c] l[of ?b ?c] by auto
  then have "spore_hint env request \<noteq> None" by (simp add: spore_hint_def Let_def)
  moreover have "spore_help env request \<noteq> None" using h by (simp add: spore_help_def Let_def)
  moreover have "spore_state env request \<noteq> None" using st by (simp add: spore_state_def Let_def)
  moreover have "spore_list env request \<noteq> None" using l by (simp add: spore_list_def Let_def)
  ultimately show ?thesis using True by simp
next
  case False
  then obtain node where node: "node \<in> set (me_nodes env)" "me_manifest env node = None" by blast
  have none: "matchCommand env part = None" for part
    using node assms by (auto simp: matchCommand_def collect_from_None manifest_of_def)
  have "getHelp env body c = None" if "fst (parseBody body 0) = part # parts" "matchNode env part = NotFound"
    for body c part parts
    using that(2) none[of part] parseBody_cursor[of body c 0] that(1) by (simp add: getHelp_def)
  then show ?thesis using False by (auto simp: spore_help_def spore_hint_def Let_def)
qed

lemma help_needs_every_manifest_witness:
  "spore_help one_command (state_request ''dev.a'' [] ''nothing'') \<noteq> None \<and>
   spore_help (one_command\<lparr>me_manifest := (\<lambda>_. None)\<rparr>) (state_request ''dev.a'' [] ''nothing'') = None"
proof -
  let ?q = "state_request ''dev.a'' [] ''nothing''" and ?gone = "one_command\<lparr>me_manifest := (\<lambda>_. None)\<rparr>"
  have b: "ArgIf ?q ''body'' [] = ''nothing''" by (simp add: state_request_def)
  have n: "\<forall>node \<in> set (me_nodes one_command). node \<noteq> spore_id"
    "\<forall>node \<in> set (me_nodes ?gone). node \<noteq> spore_id"
    by (simp_all add: one_command_def spore_id_def)
  have p: "fst (parseBody ''nothing'' 0) = [''nothing'']" by code_simp
  have "matchNode ?gone ''nothing'' = NotFound"
    by (simp add: matchNode_def one_command_def names_def HasSuffix_def found_of_def suffix_def)
  with help_needs_every_manifest[OF n(2), of ?q] b p have "spore_help ?gone ?q = None"
    by (simp add: one_command_def)
  moreover have "spore_help one_command ?q \<noteq> None"
    using help_needs_every_manifest[OF n(1), of ?q] by (simp add: one_command_def command_node_def)
  ultimately show ?thesis by simp
qed

end
