(* ===== verification/Spore_Dispatch.thy ===== *)
theory Spore_Dispatch
  imports Spore_Meta Parse_Array Node_Delivery
begin

text \<open>
  The Spore node (spored/internal/spore: spore.go, node.go, topic.go, permission.go, security.go):
  which handler answers which command, and the handlers that act on the nodes, the topics and the
  permissions. A goroutine is a function of the daemon's state; its result is the response it
  sends, the messages to the witnesses and the state, or \<open>None\<close> when it blocks or panics.
\<close>

record daemon =
  d_world :: world
  d_data :: data_disk

type_synonym job = "daemon \<Rightarrow> ((message \<times> message list) \<times> daemon) option"

text \<open>What the handlers meet outside the state: clocks, random tokens, the shell and the hyphae.\<close>

record spore_env =
  se_nodes :: nodes_env
  se_meta :: meta_env
  se_dir :: string \<comment> \<open>the data directory\<close>
  se_now :: int
  se_now1 :: int
  se_now2 :: int
  se_token :: "string + string"

section \<open>The node itself\<close>

definition spore_New :: "filesys \<Rightarrow> yaml_decoder \<Rightarrow> string \<Rightarrow> Manifest" where
  "spore_New fs yaml path =
     (manifest_Load fs yaml (empty_manifest\<lparr>m_Path := path, m_ExpectedChecksum := ''n/a''\<rparr>))\<lparr>m_Status := Verified\<rparr>"

definition spore_inode :: "nat \<Rightarrow> Manifest \<Rightarrow> inode" where
  "spore_inode ptr man =
     \<lparr>n_ptr = ptr, n_id = m_ID man, n_manifest = Some man, n_isWitness = False, n_connected = True\<rparr>"

definition spore_Set :: "nat \<Rightarrow> Manifest \<Rightarrow> world \<Rightarrow> world option" where
  "spore_Set ptr man w =
     map_option (\<lambda>b. w\<lparr>w_bus := b, w_perm := RegisterNode (Some man) (w_perm w)\<rparr>)
       (bus_Register (spore_inode ptr man) (w_bus w))"

section \<open>Jobs\<close>

definition acknowledge :: "message \<Rightarrow> error option \<Rightarrow> message" where
  "acknowledge request e =
     (case e of Some err \<Rightarrow> respond_error request err | None \<Rightarrow> message_Spore request [])"

text \<open>Goroutines that only use part of the state.\<close>

definition on_world :: "(world \<Rightarrow> (message \<times> world) option) \<Rightarrow> job" where
  "on_world f d = map_option (\<lambda>(m, w). ((m, []), d\<lparr>d_world := w\<rparr>)) (f (d_world d))"

definition on_data :: "(data_disk \<Rightarrow> message \<times> data_disk) \<Rightarrow> job" where
  "on_data f d = Some (case f (d_data d) of (m, x) \<Rightarrow> ((m, []), d\<lparr>d_data := x\<rparr>))"

definition on_meta :: "(message \<times> message list) option \<Rightarrow> job" where
  "on_meta r d = map_option (\<lambda>mw. (mw, d)) r"

text \<open>A call on the node table whose error or success is the response.\<close>

definition node_job :: "message \<Rightarrow> (world \<Rightarrow> (error option \<times> world) option) \<Rightarrow> job" where
  "node_job request f = on_world (\<lambda>w. map_option (\<lambda>(e, w1). (acknowledge request e, w1)) (f w))"

definition nodeInstall :: "nodes_env \<Rightarrow> message \<Rightarrow> error + job" where
  "nodeInstall env request = with_arg ''path'' request (\<lambda>path.
     Inr (node_job request (nodes_Install env path (FlagOf request ''load'') (Origin request))))"

definition nodeReinstall :: "nodes_env \<Rightarrow> message \<Rightarrow> error + job" where
  "nodeReinstall env request = with_arg ''node'' request (\<lambda>node.
     Inr (node_job request (nodes_Reinstall env node (FlagOf request ''load'') (Origin request))))"

definition nodeUninstall :: "nodes_env \<Rightarrow> message \<Rightarrow> error + job" where
  "nodeUninstall env request = with_arg ''node'' request (\<lambda>node.
     Inr (node_job request (nodes_Uninstall env node)))"

definition nodeReload :: "nodes_env \<Rightarrow> message \<Rightarrow> error + job" where
  "nodeReload env request = with_arg ''node'' request (\<lambda>node.
     Inr (node_job request (\<lambda>w. Some (nodes_Reload env node w))))"

definition spore_nodeSpawn :: "nodes_env \<Rightarrow> message \<Rightarrow> error + job" where
  "spore_nodeSpawn env request = with_arg ''node'' request (\<lambda>node.
     Inr (node_job request (\<lambda>w. Some (nodes_Spawn env node w))))"

definition spore_nodeKill :: "nodes_env \<Rightarrow> message \<Rightarrow> error + job" where
  "spore_nodeKill env request = with_arg ''node'' request (\<lambda>node.
     Inr (node_job request (\<lambda>w. Some (nodes_Kill env node w, w))))"

section \<open>Topics\<close>

definition topicSubscribe :: "hyphae_confirm \<Rightarrow> int \<Rightarrow> message \<Rightarrow> error + job" where
  "topicSubscribe hyphae now request = with_arg ''topic'' request (\<lambda>topic.
     Inr (on_world (\<lambda>w.
       case Can hyphae now request topic (w_perm w) of
         ((allowed, Some err), p) \<Rightarrow> Some (respond_error request err, w\<lparr>w_perm := p\<rparr>)
       | ((False, None), p) \<Rightarrow>
           Some (respond_error request (error_New C_NotPermitted Mod_Spore ''permission required to subscribe''
                   [Pair ''node'' (Origin request), Pair ''topic'' topic]), w\<lparr>w_perm := p\<rparr>)
       | ((True, None), p) \<Rightarrow>
           (case bus_Subscribe (Origin request) topic (w_bus w) of
              (e, b) \<Rightarrow> Some (acknowledge request e, w\<lparr>w_perm := p, w_bus := b\<rparr>)))))"

definition topicUnsubscribe :: "message \<Rightarrow> error + job" where
  "topicUnsubscribe request = with_arg ''topic'' request (\<lambda>topic.
     Inr (on_world (\<lambda>w.
       case bus_Unsubscribe (Origin request) topic (w_bus w) of
         (e, b) \<Rightarrow> Some (acknowledge request e, w\<lparr>w_bus := b\<rparr>))))"

section \<open>Permissions\<close>

definition default_reasons :: string where
  "default_reasons = ''[ '' @ quoted ''No reasons were provided for this request'' @ '', '' @
     quoted ''Our suggestion is to deny this request'' @ '' ] ''"

definition permit_response_raw :: "message \<Rightarrow> string \<Rightarrow> string" where
  "permit_response_raw request token =
     ''~'' @ Handle request @ '':'' @ Capability request @ '' '' @
     out_String (Pair ''permission.token'' token) @ '' ok cast='' @ Cast request"

text \<open>The capability is resolved when the request arrives, on the bus of that moment.\<close>

definition permissionRequest :: "spore_env \<Rightarrow> string \<Rightarrow> bus \<Rightarrow> message \<Rightarrow> error + job" where
  "permissionRequest env self b request = with_arg ''capability'' request (\<lambda>cap0.
     let cap = bus_FullyQualifiedRequest cap0 b;
         reasons = ArrayToStrings (ArgIf request ''reasons'' default_reasons);
         cp = ne_parser (se_nodes env) in
     Inr (on_world (\<lambda>w.
       case RequestPermit cp (ne_ask (se_nodes env)) (se_token env) (se_now1 env) (se_now2 env)
              (Origin request) cap reasons (w_perm w) of
         ((token, granted, Some err), p) \<Rightarrow> Some (respond_error request err, w\<lparr>w_perm := p\<rparr>)
       | ((token, False, None), p) \<Rightarrow> Some (message_Spore request [Flag ''no''], w\<lparr>w_perm := p\<rparr>)
       | ((token, True, None), p) \<Rightarrow>
           (case message_Response cp (permit_response_raw request token) self of
              None \<Rightarrow> Some (respond_error request (error_New C_Generic Mod_Spore
                        ''unable to create permission permit response'' []), w\<lparr>w_perm := p\<rparr>)
            | Some response \<Rightarrow> Some (response, w\<lparr>w_perm := p\<rparr>)))))"

definition permissionGrant :: "message \<Rightarrow> error + job" where
  "permissionGrant request = with_arg ''node'' request (\<lambda>node. with_arg ''capability'' request (\<lambda>cap.
     Inr (on_world (\<lambda>w.
       case Grant node cap (w_perm w) (w_pdisk w) of
         (e, p, pd) \<Rightarrow> Some (acknowledge request e, w\<lparr>w_perm := p, w_pdisk := pd\<rparr>)))))"

definition permissionRevoke :: "message \<Rightarrow> error + job" where
  "permissionRevoke request = with_arg ''node'' request (\<lambda>node. with_arg ''capability'' request (\<lambda>cap.
     Inr (on_world (\<lambda>w.
       case Revoke node cap (w_perm w) (w_pdisk w) of
         (e, p, pd) \<Rightarrow> Some (acknowledge request e, w\<lparr>w_perm := p, w_pdisk := pd\<rparr>)))))"

section \<open>Security\<close>

definition not_implemented :: "string \<Rightarrow> message \<Rightarrow> error + job" where
  "not_implemented what request =
     Inl (WithMessage (error_New C_NotImplemented Mod_Spore what []) request)"

definition securityKeyringGrant :: "message \<Rightarrow> error + job" where
  "securityKeyringGrant = not_implemented ''spore security keyring grant not yet implemented''"

definition securityKeyringRevoke :: "message \<Rightarrow> error + job" where
  "securityKeyringRevoke = not_implemented ''spore security keyring revoke not yet implemented''"

definition securitySignatureSign :: "message \<Rightarrow> error + job" where
  "securitySignatureSign = not_implemented ''spore security signature sign not yet implemented''"

definition securitySignatureVerify :: "message \<Rightarrow> error + job" where
  "securitySignatureVerify = not_implemented ''spore security signature verify not yet implemented''"

section \<open>The dispatch\<close>

definition data_job :: "data_disk handler \<Rightarrow> error + job" where
  "data_job h = (case h of Inl err \<Rightarrow> Inl err | Inr f \<Rightarrow> Inr (on_data f))"

definition no_witness :: "message option \<Rightarrow> (message \<times> message list) option" where
  "no_witness = map_option (\<lambda>m. (m, []))"

definition spore_table :: "spore_env \<Rightarrow> string \<Rightarrow> bus \<Rightarrow> message \<Rightarrow> (string \<times> (error + job)) list" where
  "spore_table env self b request =
     (let ne = se_nodes env; me = se_meta env in
      [(''dev.sporeos.SPORE.help'', Inr (on_meta (spore_help me request))),
       (''dev.sporeos.SPORE.state'', Inr (on_meta (no_witness (spore_state me request)))),
       (''dev.sporeos.SPORE.list'', Inr (on_meta (no_witness (spore_list me request)))),
       (''dev.sporeos.SPORE.complete'', Inr (on_meta (no_witness (Some (spore_complete me request))))),
       (''dev.sporeos.SPORE.hint'', Inr (on_meta (spore_hint me request))),
       (nodeInstallCapability, nodeInstall ne request),
       (''dev.sporeos.SPORE.node.uninstall'', nodeUninstall ne request),
       (nodeReinstallCapability, nodeReinstall ne request),
       (''dev.sporeos.SPORE.node.spawn'', spore_nodeSpawn ne request),
       (''dev.sporeos.SPORE.node.kill'', spore_nodeKill ne request),
       (''dev.sporeos.SPORE.node.reload'', nodeReload ne request),
       (''dev.sporeos.SPORE.topic.subscribe'', topicSubscribe (ne_confirm ne) (se_now env) request),
       (''dev.sporeos.SPORE.topic.unsubscribe'', topicUnsubscribe request),
       (''dev.sporeos.SPORE.permission.request'', permissionRequest env self b request),
       (''dev.sporeos.SPORE.permission.grant'', permissionGrant request),
       (''dev.sporeos.SPORE.permission.revoke'', permissionRevoke request),
       (''dev.sporeos.SPORE.state.persist'', data_job (statePersist (se_dir env) request)),
       (''dev.sporeos.SPORE.state.retrieve'', data_job (stateRetrieve (se_dir env) request)),
       (''dev.sporeos.SPORE.security.keyring.grant'', securityKeyringGrant request),
       (''dev.sporeos.SPORE.security.keyring.revoke'', securityKeyringRevoke request),
       (''dev.sporeos.SPORE.security.signature.sign'', securitySignatureSign request),
       (''dev.sporeos.SPORE.security.signature.verify'', securitySignatureVerify request)])"

definition spore_Receive :: "spore_env \<Rightarrow> string \<Rightarrow> bus \<Rightarrow> message \<Rightarrow> error + job" where
  "spore_Receive env self b request =
     (case map_of (spore_table env self b request)
             (bus_FullyQualifiedRequest (Capability request) b) of
        Some handler \<Rightarrow> handler
      | None \<Rightarrow> Inl (WithMessage (error_New C_Missing Mod_Spore ''spore command unhandled''
                  [Pair ''command'' (Capability request)]) request))"

section \<open>Every command is answered\<close>

text \<open>The three kinds of response a job can send for a request.\<close>

definition reply_to :: "spore_env \<Rightarrow> string \<Rightarrow> message \<Rightarrow> message \<Rightarrow> bool" where
  "reply_to env self request m \<longleftrightarrow>
     (\<exists>outs. m = message_Spore request outs) \<or> (\<exists>err. m = MError (WithMessage err request)) \<or>
     (\<exists>token. message_Response (ne_parser (se_nodes env)) (permit_response_raw request token) self = Some m)"

definition replies :: "spore_env \<Rightarrow> string \<Rightarrow> message \<Rightarrow> error + job \<Rightarrow> bool" where
  "replies env self request h \<longleftrightarrow>
     (case h of
        Inl err \<Rightarrow> emessage err = Some request
      | Inr job \<Rightarrow> \<forall>d m ws d'. job d = Some ((m, ws), d') \<longrightarrow> reply_to env self request m)"

lemma reply_error: "reply_to env self request (respond_error request err)"
  by (auto simp: reply_to_def respond_error_def)

lemma reply_Spore: "reply_to env self request (message_Spore request outs)"
  by (auto simp: reply_to_def)

lemma reply_acknowledge: "reply_to env self request (acknowledge request e)"
  by (auto simp: acknowledge_def reply_error reply_Spore split: option.split)

lemma reply_answer: "reply_to env self request (answer request what body outs)"
  by (auto simp: answer_def reply_to_def)

lemma replies_with_arg: "(\<And>v. replies env self request (h v)) \<Longrightarrow> replies env self request (with_arg name request h)"
  by (auto simp: with_arg_def replies_def split: prod.split bool.split)

lemma replies_world:
  "(\<And>w m w'. f w = Some (m, w') \<Longrightarrow> reply_to env self request m) \<Longrightarrow> replies env self request (Inr (on_world f))"
  by (auto simp: replies_def on_world_def)

lemma replies_node: "replies env self request (Inr (node_job request f))"
  unfolding node_job_def by (rule replies_world) (auto simp: reply_acknowledge)

lemma replies_meta:
  "(\<And>m ws. r = Some (m, ws) \<Longrightarrow> reply_to env self request m) \<Longrightarrow> replies env self request (Inr (on_meta r))"
  by (auto simp: replies_def on_meta_def)

lemma replies_nodes:
  "replies env self request (nodeInstall ne request)" "replies env self request (nodeReinstall ne request)"
  "replies env self request (nodeUninstall ne request)" "replies env self request (nodeReload ne request)"
  "replies env self request (spore_nodeSpawn ne request)" "replies env self request (spore_nodeKill ne request)"
  unfolding nodeInstall_def nodeReinstall_def nodeUninstall_def nodeReload_def spore_nodeSpawn_def spore_nodeKill_def
  by (intro replies_with_arg replies_node)+

lemma replies_topics:
  "replies env self request (topicSubscribe hyphae now request)" "replies env self request (topicUnsubscribe request)"
  unfolding topicSubscribe_def topicUnsubscribe_def
  by (intro replies_with_arg replies_world; auto simp: reply_error reply_acknowledge
      split: prod.splits option.splits bool.splits)+

lemma reply_permit:
  "message_Response (ne_parser (se_nodes env)) (permit_response_raw request token) self = Some m \<Longrightarrow>
     reply_to env self request m"
  by (auto simp: reply_to_def)

lemma replies_permissions:
  "replies env self request (permissionRequest env self b request)"
  "replies env self request (permissionGrant request)" "replies env self request (permissionRevoke request)"
  unfolding permissionRequest_def permissionGrant_def permissionRevoke_def Let_def
  by (intro replies_with_arg replies_world; auto simp: reply_error reply_acknowledge reply_Spore
      dest: reply_permit split: prod.splits option.splits bool.splits)+

lemma replies_security:
  "replies env self request (securityKeyringGrant request)" "replies env self request (securityKeyringRevoke request)"
  "replies env self request (securitySignatureSign request)" "replies env self request (securitySignatureVerify request)"
  by (simp_all add: replies_def not_implemented_def securityKeyringGrant_def securityKeyringRevoke_def
      securitySignatureSign_def securitySignatureVerify_def)

lemma replies_data:
  "replies env self request (data_job (statePersist dir request))"
  "replies env self request (data_job (stateRetrieve dir request))"
  by (auto simp: data_job_def replies_def on_data_def statePersist_def stateRetrieve_def with_arg_def
      persistFileName_def reply_error reply_Spore split: sum.splits prod.splits bool.splits option.splits if_splits)

lemma replies_questions:
  "replies env self request (Inr (on_meta (spore_help me request)))"
  "replies env self request (Inr (on_meta (no_witness (spore_state me request))))"
  "replies env self request (Inr (on_meta (no_witness (spore_list me request))))"
  "replies env self request (Inr (on_meta (no_witness (Some (spore_complete me request)))))"
  "replies env self request (Inr (on_meta (spore_hint me request)))"
  by (rule replies_meta; auto simp: spore_help_def spore_state_def spore_list_def spore_complete_def
      spore_hint_def no_witness_def Let_def reply_answer reply_Spore split: option.splits prod.splits)+

lemmas replies_handlers =
  replies_questions replies_nodes replies_topics replies_permissions replies_data replies_security


text \<open>A daemon to ask, at a bus where the Spore node is registered under its own name.\<close>

definition quiet_spore :: spore_env where
  "quiet_spore = \<lparr>se_nodes = no_hyphae, se_meta = one_command, se_dir = ''/d'', se_now = 0, se_now1 = 0,
     se_now2 = 0, se_token = Inr ''T''\<rparr>"


section \<open>Permits and subscriptions\<close>

text \<open>
  The name is checked as it is spelled, the topic is found by its resolution. Subscribing asks
  the permission manager about the word in the request and the bus about what it resolves to: a
  node may subscribe to a topic of any risk under a short name that some node has announced as
  benign, while the same subscription under the topic's full name needs an allowance for it.
\<close>
lemma subscription_check_depends_on_the_spelling:
  assumes "topicSubscribe hyphae now r1 = Inr job1" "Arg r1 ''topic'' = (topic, True)"
    "topicSubscribe hyphae now r2 = Inr job2" "Arg r2 ''topic'' = (full, True)" "Origin r2 = Origin r1"
    "topic \<in> set (pm_benignTopics (w_perm w))"
    "topic \<notin> set (pm_protectedCommands (w_perm w))" "topic \<notin> set (pm_adminCommands (w_perm w))"
    "resolveTopic topic (bus_broadcast (w_bus w)) = Inr full"
    "\<not> standing_allowance (w_perm w) (Origin r2) full" "full \<notin> set (pm_protectedCommands (w_perm w))"
    "\<not> preauthorised (Origin r2) full" "Arg r2 ''permission.token'' = ([], False)" "d_world d = w"
  shows "\<exists>d1 err. job1 d = Some ((message_Spore r1 [], []), d1) \<and>
           Origin r1 \<in> set (subscribers_of full (bus_broadcast (w_bus (d_world d1)))) \<and>
           job2 d = Some ((respond_error r2 err, []), d) \<and> ecode err = C_NotPermitted"
proof -
  have "standing_allowance (w_perm w) (Origin r1) topic" using assms(6) by (simp add: standing_allowance_def)
  then have c1: "Can hyphae now r1 topic (w_perm w) = ((True, None), w_perm w)"
    using Can_standing[OF assms(7), of r1 hyphae now] Can_preauthorised[OF assms(7), of r1 hyphae now] assms(8)
    by (cases "preauthorised (Origin r1) topic") auto
  have c2: "Can hyphae now r2 full (w_perm w) = ((False, None), w_perm w)"
    using assms(10-13) by (auto simp: Can_def Let_def preauthorised_def)
  obtain b where b: "bus_Subscribe (Origin r1) topic (w_bus w) = (None, b)"
    "Origin r1 \<in> set (subscribers_of full (bus_broadcast b))"
    using assms(9) by (simp add: bus_Subscribe_def broadcast_subscribe_def subscribers_of_def)
  have "job1 d = Some ((message_Spore r1 [], []), d\<lparr>d_world := w\<lparr>w_perm := w_perm w, w_bus := b\<rparr>\<rparr>)"
    using assms(1,2,14) c1 b(1) by (auto simp: topicSubscribe_def with_arg_def on_world_def acknowledge_def)
  moreover have "job2 d = Some ((respond_error r2 (error_New C_NotPermitted Mod_Spore
      ''permission required to subscribe'' [Pair ''node'' (Origin r2), Pair ''topic'' full]), []), d)"
    using assms(3,4,14) c2 by (auto simp: topicSubscribe_def with_arg_def on_world_def)
  ultimately show ?thesis using b(2) by (intro exI conjI) auto
qed

text \<open>The topic tick of the node b, which is not benign, beside a benign topic of that name elsewhere.\<close>

definition tick_request :: "string \<Rightarrow> message" where
  "tick_request topic = MRequest \<lparr>rq_raw = [], rq_id = ''a'', rq_command = ''dev.sporeos.SPORE.topic.subscribe'',
     rq_args = [''topic'' \<mapsto> topic], rq_flags = [], rq_handle = ''h''\<rparr>"

definition tick_world :: world where
  "tick_world = lazy_world\<lparr>w_bus := bus_New\<lparr>bus_broadcast := newBroadcast\<lparr>b_topics :=
       idx_add ''b.tick'' newAbbreviationIndex\<rparr>\<rparr>,
     w_perm := (perm_New FileNotExist)\<lparr>pm_benignTopics := [''tick'']\<rparr>\<rparr>"

lemma subscription_check_depends_on_the_spelling_witness:
  "\<exists>job1 job2 d1 err d. topicSubscribe None 0 (tick_request ''tick'') = Inr job1 \<and>
     topicSubscribe None 0 (tick_request ''b.tick'') = Inr job2 \<and> d_world d = tick_world \<and>
     job1 d = Some ((message_Spore (tick_request ''tick'') [], []), d1) \<and>
     job2 d = Some ((respond_error (tick_request ''b.tick'') err, []), d) \<and> ecode err = C_NotPermitted"
proof -
  let ?r1 = "tick_request ''tick''" and ?r2 = "tick_request ''b.tick''"
  define d where "d = \<lparr>d_world = tick_world, d_data = empty_disk\<rparr>"
  have a: "Arg ?r1 ''topic'' = (''tick'', True)" "Arg ?r2 ''topic'' = (''b.tick'', True)"
    "Arg ?r2 ''permission.token'' = ([], False)" "Origin ?r1 = ''a''" "Origin ?r2 = ''a''"
    by (simp_all add: tick_request_def map_Arg_def castIdentity_def CutByte_def)
  obtain job1 job2 where j: "topicSubscribe None 0 ?r1 = Inr job1" "topicSubscribe None 0 ?r2 = Inr job2"
    by (simp add: topicSubscribe_def with_arg_def a)
  have "idx_resolve (idx_add ''b.tick'' newAbbreviationIndex) ''tick'' = (''b.tick'', [], True)" by code_simp
  then have "resolveTopic ''tick'' (bus_broadcast (w_bus tick_world)) = Inr ''b.tick''"
    by (simp add: resolveTopic_def tick_world_def)
  moreover have "w_perm tick_world = (perm_New FileNotExist)\<lparr>pm_benignTopics := [''tick'']\<rparr>"
    by (simp add: tick_world_def)
  moreover have "\<not> preauthorised ''a'' ''b.tick''" by (simp add: preauthorised_def capability_consts)
  ultimately obtain d1 err where "job1 d = Some ((message_Spore ?r1 [], []), d1)"
    "job2 d = Some ((respond_error ?r2 err, []), d)" "ecode err = C_NotPermitted"
    using subscription_check_depends_on_the_spelling[OF j(1) a(1) j(2) a(2), of tick_world d] a(3-5)
    by (auto simp: perm_New_def perm_load_def standing_allowance_def allowances_of_def d_def)
  with j show ?thesis by (intro exI[of _ job1] exI[of _ job2] exI[of _ d1] exI[of _ err] exI[of _ d]) (simp add: d_def)
qed

lemma RequestPermit_new:
  assumes "RequestPermit cp ask tok now1 now2 nodeid capability reason m = (r, m')"
    "pm_permits m' token = Some p" "pm_permits m token \<noteq> Some p"
  shows "pt_origin p = nodeid \<and> pt_capability p = capability \<and> capability \<notin> set (pm_adminCommands m) \<and>
         capability \<notin> set (pm_protectedCommands m) \<and>
         (\<exists>msg response. ask msg = AskAnswer response \<and> FlagOf response ''yes'' \<and> \<not> FlagOf response ''error'')"
proof -
  have risk: "capability \<notin> set (pm_adminCommands m)" "capability \<notin> set (pm_protectedCommands m)"
    using assms by (auto simp: RequestPermit_def split: if_splits)
  obtain granted err m1 where c: "perm_confirm cp ask nodeid capability reason m = ((granted, err), m1)"
    by (metis surj_pair)
  from perm_confirm_state[OF c] have same: "pm_permits m1 = pm_permits m" by simp
  have g: "granted" "err = None"
    using assms risk c same by (auto simp: RequestPermit_def Let_def split: if_splits)
  then obtain t where t: "newPermitToken tok = Inr t" and m': "pm_permits m' =
      (purge_permits now1 (pm_permits m))(t \<mapsto> \<lparr>pt_origin = nodeid, pt_capability = capability,
         pt_expiresAt = now2 + permissionTokenLifetime\<rparr>)"
    using assms risk c same by (auto simp: RequestPermit_def Let_def split: sum.splits)
  have "purge_permits now1 (pm_permits m) token \<noteq> Some p"
    using assms(3) by (auto simp: purge_permits_def split: option.splits if_splits)
  with m' assms(2) have "pt_origin p = nodeid \<and> pt_capability p = capability" by (auto split: if_splits)
  moreover have "\<exists>msg response. ask msg = AskAnswer response \<and> FlagOf response ''yes'' \<and> \<not> FlagOf response ''error''"
    using c g by (auto simp: perm_confirm_def perm_handle_def Let_def read_confirmation_def
        split: option.splits ask_outcome.splits if_splits)
  ultimately show ?thesis using risk by blast
qed

text \<open>
  C17. A permit is for the node that asked and for what it asked. When handling a permission request
  adds a permit, then the permit names the sender of the request, whoever routed it, and the full
  name of the requested capability as the bus resolved it, the capability is neither administrative
  nor protected, and a prompt to the shell has been answered with yes.
\<close>
theorem permit_belongs_to_its_asker:
  assumes "permissionRequest env self b request = Inr job" "job d = Some (r, d')"
    "pm_permits (w_perm (d_world d')) token = Some p" "pm_permits (w_perm (d_world d)) token \<noteq> Some p"
  shows "pt_origin p = Origin request \<and>
         pt_capability p = bus_FullyQualifiedRequest (fst (Arg request ''capability'')) b \<and>
         pt_capability p \<notin> set (pm_adminCommands (w_perm (d_world d))) \<and>
         pt_capability p \<notin> set (pm_protectedCommands (w_perm (d_world d))) \<and>
         (\<exists>msg response. ne_ask (se_nodes env) msg = AskAnswer response \<and> FlagOf response ''yes'' \<and>
            \<not> FlagOf response ''error'')"
proof -
  obtain cap0 where cap0: "Arg request ''capability'' = (cap0, True)"
    using assms(1) by (cases "Arg request ''capability''" )
      (auto simp: permissionRequest_def with_arg_def split: prod.splits bool.splits)
  obtain r0 p1 where rp: "RequestPermit (ne_parser (se_nodes env)) (ne_ask (se_nodes env)) (se_token env)
      (se_now1 env) (se_now2 env) (Origin request) (bus_FullyQualifiedRequest cap0 b)
      (ArrayToStrings (ArgIf request ''reasons'' default_reasons)) (w_perm (d_world d)) = (r0, p1)"
    by (metis surj_pair)
  have "w_perm (d_world d') = p1"
    using assms(1,2) cap0 rp
    by (auto simp: permissionRequest_def with_arg_def on_world_def Let_def
        split: prod.splits option.splits bool.splits)
  with RequestPermit_new[OF rp, of token p] assms(3,4) cap0 show ?thesis by simp
qed

definition asking_spore :: spore_env where
  "asking_spore = quiet_spore\<lparr>se_nodes := no_hyphae\<lparr>ne_ask := yes_answer\<rparr>\<rparr>"

definition permit_request :: message where
  "permit_request = MRequest \<lparr>rq_raw = [], rq_id = ''a'', rq_command = ''dev.sporeos.SPORE.permission.request'',
     rq_args = [''capability'' \<mapsto> ''x.open'', ''reasons'' \<mapsto> ''[]''], rq_flags = [], rq_handle = ''h''\<rparr>"

theorem permit_belongs_to_its_asker_witness:
  "\<exists>job d r d' p. permissionRequest asking_spore spore_id bus_New permit_request = Inr job \<and>
     job d = Some (r, d') \<and> pm_permits (w_perm (d_world d')) ''T'' = Some p \<and>
     pt_origin p = ''a'' \<and> pt_capability p = ''x.open''"
proof -
  let ?d = "\<lparr>d_world = lazy_world, d_data = empty_disk\<rparr>"
  have a: "Arg permit_request ''capability'' = (''x.open'', True)" "Origin permit_request = ''a''"
    "ArgIf permit_request ''reasons'' default_reasons = ''[]''"
    by (simp_all add: permit_request_def map_Arg_def castIdentity_def CutByte_def)
  have e: "ArrayToStrings ''[]'' = []" by code_simp
  have f: "bus_FullyQualifiedRequest ''x.open'' bus_New = ''x.open''"
    by (simp add: bus_FullyQualifiedRequest_def fullyQualifiedRequest_def bus_New_def newApi_def
        idx_resolve_def newAbbreviationIndex_def)
  have s: "ne_parser (se_nodes asking_spore) = echo_parser" "ne_ask (se_nodes asking_spore) = yes_answer"
    "se_token asking_spore = Inr ''T''" "se_now1 asking_spore = 0" "se_now2 asking_spore = 0"
    "w_perm lazy_world = perm_New FileNotExist"
    by (simp_all add: asking_spore_def quiet_spore_def no_hyphae_def lazy_world_def)
  obtain job where j: "permissionRequest asking_spore spore_id bus_New permit_request = Inr job"
    by (simp add: permissionRequest_def with_arg_def a Let_def)
  have n: "message_Response echo_parser raw i = None" for raw i
    by (auto simp: message_build_defs cparse_def echo_parser_def split: parse_result.splits)
  obtain r d' p where r: "job ?d = Some (r, d')" "pm_permits (w_perm (d_world d')) ''T'' = Some p"
    using j by (auto simp: permissionRequest_def with_arg_def a(1,2) a(3)[unfolded default_reasons_def] a(3) e f s
        Let_def on_world_def RequestPermit_yes n)
  have "pm_permits (w_perm (d_world ?d)) ''T'' \<noteq> Some p" by (simp add: s(6) perm_New_def perm_load_def)
  from permit_belongs_to_its_asker[OF j r this] a(1,2) f have "pt_origin p = ''a''" "pt_capability p = ''x.open''"
    by simp_all
  with j r show ?thesis by blast
qed

end
