(* ===== verification/Node_Verification.thy ===== *)
theory Node_Verification
  imports Node_Listen
begin

text \<open>
  The verification gate of a connection (spored/internal/nodes/node.go: \<open>activateConnection\<close>,
  \<open>finishVerification\<close> and \<open>waitForVerification\<close>), as the handshake and the read loop use it from two
  goroutines. A channel is a number; closing it wakes everyone who waits for it. The steps of the
  two goroutines come in any order.
\<close>

record vnode =
  vn_done :: "nat option" \<comment> \<open>the field verificationDone\<close>
  vn_passed :: bool
  vn_closed :: "nat list"
  vn_next :: nat \<comment> \<open>channels made so far\<close>

definition vnode_New :: vnode where
  "vnode_New = \<lparr>vn_done = None, vn_passed = False, vn_closed = [], vn_next = 0\<rparr>"

definition activateConnection :: "bool \<Rightarrow> vnode \<Rightarrow> vnode" where
  "activateConnection provisional v =
     (if provisional
      then v\<lparr>vn_done := Some (vn_next v), vn_passed := False, vn_next := Suc (vn_next v)\<rparr> else v)"

definition finishVerification :: "bool \<Rightarrow> vnode \<Rightarrow> vnode" where
  "finishVerification passed v =
     (case vn_done v of
        None \<Rightarrow> v
      | Some c \<Rightarrow> v\<lparr>vn_passed := passed, vn_closed := c # vn_closed v, vn_done := None\<rparr>)"

text \<open>
  \<open>waitForVerification\<close> looks at the field, waits without the lock, and reads the verdict afterwards:
  the channel it waits for, or \<open>None\<close> when it returns true at once; and its answer, or \<open>None\<close> while the
  channel is open.
\<close>

definition wait_enter :: "vnode \<Rightarrow> nat option" where
  "wait_enter v = vn_done v"

definition wait_leave :: "nat \<Rightarrow> vnode \<Rightarrow> bool option" where
  "wait_leave c v = (if c \<in> set (vn_closed v) then Some (vn_passed v) else None)"

text \<open>The read loop is reading the next message or holds one back.\<close>

datatype reader = Reading | Held nat string

datatype gate_event =
    GActivate bool
  | GFinish bool
  | GArrive string \<comment> \<open>the loop has read a message\<close>
  | GWake

datatype gate_out = Passed string | Dropped string

fun gate_step :: "gate_event \<Rightarrow> vnode \<Rightarrow> reader \<Rightarrow> (gate_out list \<times> vnode \<times> reader) option" where
  "gate_step (GActivate provisional) v r = Some ([], activateConnection provisional v, r)"
| "gate_step (GFinish passed) v r = Some ([], finishVerification passed v, r)"
| "gate_step (GArrive raw) v Reading =
     (if passes_unverified raw then Some ([Passed raw], v, Reading)
      else case wait_enter v of
             None \<Rightarrow> Some ([Passed raw], v, Reading)
           | Some c \<Rightarrow> Some ([], v, Held c raw))"
| "gate_step GWake v (Held c raw) =
     (case wait_leave c v of
        None \<Rightarrow> None
      | Some passed \<Rightarrow> Some ([if passed then Passed raw else Dropped raw], v, Reading))"
| "gate_step _ v r = None"

fun gate_run :: "gate_event list \<Rightarrow> vnode \<Rightarrow> reader \<Rightarrow> (gate_out list \<times> vnode \<times> reader) option" where
  "gate_run [] v r = Some ([], v, r)"
| "gate_run (e # es) v r =
     (case gate_step e v r of
        None \<Rightarrow> None
      | Some (outs, v1, r1) \<Rightarrow>
          map_option (\<lambda>(outs', vr). (outs @ outs', vr)) (gate_run es v1 r1))"

fun arrival :: "gate_event \<Rightarrow> string option" where
  "arrival (GArrive raw) = Some raw"
| "arrival _ = None"

fun out_text :: "gate_out \<Rightarrow> string" where
  "out_text (Passed raw) = raw"
| "out_text (Dropped raw) = raw"

definition held :: "reader \<Rightarrow> string list" where
  "held r = (case r of Held c raw \<Rightarrow> [raw] | Reading \<Rightarrow> [])"

lemma held_simps [simp]: "held Reading = []" "held (Held c raw) = [raw]"
  by (simp_all add: held_def)

lemma gate_run_Cons_E:
  assumes "gate_run (e # es) v r = Some (outs, v2, r2)"
  obtains outs1 v1 r1 outs2 where "gate_step e v r = Some (outs1, v1, r1)"
    "gate_run es v1 r1 = Some (outs2, v2, r2)" "outs = outs1 @ outs2"
  using assms by (auto split: option.splits prod.splits)

text \<open>Nothing is lost, doubled or reordered between the connection and the loop's decision.\<close>

lemma gate_step_order:
  "gate_step e v r = Some (outs, v1, r1) \<Longrightarrow>
     held r @ (case arrival e of Some raw \<Rightarrow> [raw] | None \<Rightarrow> []) = map out_text outs @ held r1"
  by (cases "(e, v, r)" rule: gate_step.cases) (auto split: if_splits option.splits)

lemma gate_run_order:
  "gate_run es v r = Some (outs, v1, r1) \<Longrightarrow>
     held r @ List.map_filter arrival es = map out_text outs @ held r1"
proof (induction es arbitrary: v r outs)
  case (Cons e es)
  from gate_run_Cons_E[OF Cons.prems] obtain o1 v2 r2 o2 where
    s: "gate_step e v r = Some (o1, v2, r2)" "gate_run es v2 r2 = Some (o2, v1, r1)" "outs = o1 @ o2" .
  have "held r @ List.map_filter arrival (e # es) =
      (held r @ (case arrival e of Some raw \<Rightarrow> [raw] | None \<Rightarrow> [])) @ List.map_filter arrival es"
    by (simp add: List.map_filter_def split: option.split)
  also have "\<dots> = map out_text o1 @ held r2 @ List.map_filter arrival es"
    using gate_step_order[OF s(1)] by simp
  also have "held r2 @ List.map_filter arrival es = map out_text o2 @ held r1"
    by (rule Cons.IH[OF s(2)])
  finally show ?case using s(3) by simp
qed (simp add: List.map_filter_def)

section \<open>Before the verdict\<close>

text \<open>While the field holds a channel that is not closed, only what may pass unverified passes.\<close>

definition channels_ok :: "vnode \<Rightarrow> bool" where
  "channels_ok v \<longleftrightarrow>
     (\<forall>c \<in> set (vn_closed v). c < vn_next v) \<and>
     (\<forall>c. vn_done v = Some c \<longrightarrow> c < vn_next v \<and> c \<notin> set (vn_closed v))"

definition gate_shut :: "vnode \<Rightarrow> reader \<Rightarrow> bool" where
  "gate_shut v r \<longleftrightarrow>
     channels_ok v \<and> vn_done v \<noteq> None \<and>
     (\<forall>c raw. r = Held c raw \<longrightarrow> c < vn_next v \<and> c \<notin> set (vn_closed v))"

lemma channels_ok_New: "channels_ok vnode_New"
  by (simp add: channels_ok_def vnode_New_def)

lemma channels_ok_step: "\<lbrakk>gate_step e v r = Some (outs, v1, r1); channels_ok v\<rbrakk> \<Longrightarrow> channels_ok v1"
  by (cases "(e, v, r)" rule: gate_step.cases)
    (auto simp: channels_ok_def activateConnection_def finishVerification_def less_Suc_eq
      split: if_splits option.splits)

lemma gate_shut_activate: "channels_ok v \<Longrightarrow> gate_shut (activateConnection True v) Reading"
  by (auto simp: channels_ok_def gate_shut_def activateConnection_def less_Suc_eq)

lemma gate_shut_step:
  assumes "gate_step e v r = Some (outs, v1, r1)" "gate_shut v r" "\<forall>b. e \<noteq> GFinish b"
  shows "gate_shut v1 r1 \<and> (\<forall>out \<in> set outs. \<exists>raw. out = Passed raw \<and> passes_unverified raw)"
  using assms
  by (cases "(e, v, r)" rule: gate_step.cases)
    (auto simp: gate_shut_def channels_ok_def activateConnection_def wait_enter_def wait_leave_def less_Suc_eq
      split: if_splits option.splits)

lemma gate_shut_run:
  "\<lbrakk>gate_run es v r = Some (outs, v1, r1); gate_shut v r; \<forall>b. GFinish b \<notin> set es\<rbrakk> \<Longrightarrow>
     gate_shut v1 r1 \<and> (\<forall>out \<in> set outs. \<exists>raw. out = Passed raw \<and> passes_unverified raw)"
proof (induction es arbitrary: v r outs)
  case (Cons e es)
  from gate_run_Cons_E[OF Cons.prems(1)] obtain o1 v2 r2 o2 where
    s: "gate_step e v r = Some (o1, v2, r2)" "gate_run es v2 r2 = Some (o2, v1, r1)" "outs = o1 @ o2" .
  from gate_shut_step[OF s(1) Cons.prems(2)] Cons.prems(3)
  have a: "gate_shut v2 r2" "\<forall>out \<in> set o1. \<exists>raw. out = Passed raw \<and> passes_unverified raw" by auto
  from Cons.IH[OF s(2) a(1)] Cons.prems(3) a(2) s(3) show ?case by auto
qed simp

section \<open>After the verdict\<close>

lemma gate_open_run:
  "\<lbrakk>gate_run es v Reading = Some (outs, v1, r1); vn_done v = None; GActivate True \<notin> set es\<rbrakk> \<Longrightarrow>
     outs = map Passed (List.map_filter arrival es) \<and> r1 = Reading"
proof (induction es arbitrary: v outs)
  case (Cons e es)
  from gate_run_Cons_E[OF Cons.prems(1)] obtain o1 v2 r2 o2 where
    s: "gate_step e v Reading = Some (o1, v2, r2)" "gate_run es v2 r2 = Some (o2, v1, r1)" "outs = o1 @ o2" .
  have "r2 = Reading \<and> vn_done v2 = None \<and> o1 = map Passed (List.map_filter arrival [e])"
    using s(1) Cons.prems(2,3)
    by (cases e) (auto simp: activateConnection_def finishVerification_def wait_enter_def
        List.map_filter_def split: if_splits)
  with Cons.IH[of v2 o2] s Cons.prems(3) show ?case by (simp add: List.map_filter_def split: option.splits)
qed (simp add: List.map_filter_def)

lemma gate_held_run:
  "\<lbrakk>gate_run es v (Held c raw) = Some (outs, v1, r1); vn_done v = None; c \<in> set (vn_closed v);
    GActivate True \<notin> set es\<rbrakk> \<Longrightarrow>
     (if r1 = Reading
      then outs = (if vn_passed v then Passed raw else Dropped raw) # map Passed (List.map_filter arrival es)
      else outs = [])"
proof (induction es arbitrary: v outs)
  case (Cons e es)
  from gate_run_Cons_E[OF Cons.prems(1)] obtain o1 v2 r2 o2 where
    s: "gate_step e v (Held c raw) = Some (o1, v2, r2)" "gate_run es v2 r2 = Some (o2, v1, r1)" "outs = o1 @ o2" .
  show ?case
  proof (cases "e = GWake")
    case True
    with s(1) Cons.prems(3) have w: "r2 = Reading" "v2 = v" "o1 = [if vn_passed v then Passed raw else Dropped raw]"
      by (auto simp: wait_leave_def)
    from gate_open_run[of es v2 o2 v1 r1] s(2,3) w Cons.prems(2,4) True
    show ?thesis by (simp add: List.map_filter_def)
  next
    case False
    then have "r2 = Held c raw \<and> vn_done v2 = None \<and> vn_closed v2 = vn_closed v \<and> vn_passed v2 = vn_passed v \<and>
        o1 = [] \<and> arrival e = None"
      using s(1) Cons.prems(2,4) by (cases e) (auto simp: activateConnection_def finishVerification_def)
    with Cons.IH[of v2 o2] s Cons.prems(3,4) show ?thesis by (simp add: List.map_filter_def)
  qed
qed auto

text \<open>A channel that is no longer in the field is never closed: who waits for it waits for ever.\<close>

lemma gate_lost_run:
  "\<lbrakk>gate_run es v (Held c raw) = Some (outs, v1, r1); vn_done v \<noteq> Some c; c < vn_next v; c \<notin> set (vn_closed v)\<rbrakk>
     \<Longrightarrow> r1 = Held c raw \<and> outs = []"
proof (induction es arbitrary: v outs)
  case (Cons e es)
  from gate_run_Cons_E[OF Cons.prems(1)] obtain o1 v2 r2 o2 where
    s: "gate_step e v (Held c raw) = Some (o1, v2, r2)" "gate_run es v2 r2 = Some (o2, v1, r1)" "outs = o1 @ o2" .
  have "r2 = Held c raw \<and> vn_done v2 \<noteq> Some c \<and> c < vn_next v2 \<and> c \<notin> set (vn_closed v2) \<and> o1 = []"
    using s(1) Cons.prems(2-4)
    by (cases e) (auto simp: activateConnection_def finishVerification_def wait_leave_def
        split: option.splits if_splits)
  with Cons.IH[of v2 o2] s show ?case by simp
qed simp

text \<open>
  C14. The verdict on a binary decides one message. From the activation of a provisional connection to
  the end of the verification, only responses and lines that ask for the hash of a binary pass. When
  the verification ends, the one message that is held back then passes or is dropped by the verdict;
  but every message after it passes, whatever the verdict was, because the field that says that a
  verification is going on is cleared by a failed one too. Between the failure and the closing of the
  connection the loop still reads what is in its buffer, so a peer whose binary was refused can have
  requests carried out in the name of the node.
\<close>
theorem verdict_decides_one_message:
  assumes "channels_ok v" "gate_run pre (activateConnection True v) Reading = Some (outs1, v1, r1)"
    "\<forall>b. GFinish b \<notin> set pre" "gate_run (GFinish verdict # post) v1 r1 = Some (outs2, v2, r2)"
    "GActivate True \<notin> set post"
  shows "(\<forall>out \<in> set outs1. \<exists>raw. out = Passed raw \<and> passes_unverified raw) \<and>
         (if r2 = Reading
          then outs2 = map (if verdict then Passed else Dropped) (held r1) @ map Passed (List.map_filter arrival post)
          else outs2 = [])"
proof -
  from gate_shut_run[OF assms(2) gate_shut_activate[OF assms(1)] assms(3)]
  have shut: "gate_shut v1 r1" "\<forall>out \<in> set outs1. \<exists>raw. out = Passed raw \<and> passes_unverified raw" by auto
  let ?v = "finishVerification verdict v1"
  from shut(1) obtain c where "vn_done v1 = Some c" by (auto simp: gate_shut_def)
  then have v: "vn_done ?v = None" "vn_passed ?v = verdict" "set (vn_closed ?v) = insert c (set (vn_closed v1))"
    by (simp_all add: finishVerification_def)
  have run: "gate_run post ?v r1 = Some (outs2, v2, r2)"
    using assms(4) by (auto split: option.splits)
  show ?thesis
  proof (cases r1)
    case Reading
    with gate_open_run[of post ?v outs2 v2 r2] run v assms(5) shut(2) show ?thesis by simp
  next
    case (Held d raw)
    show ?thesis
    proof (cases "d \<in> set (vn_closed ?v)")
      case True
      with gate_held_run[of post ?v d raw outs2 v2 r2] run v(1,2) Held assms(5) shut(2)
      show ?thesis by simp
    next
      case False
      have "d < vn_next ?v"
        using shut(1) Held by (auto simp: gate_shut_def finishVerification_def split: option.split)
      with gate_lost_run[of post ?v d raw outs2 v2 r2] run v(1) Held False shut(2)
      show ?thesis by simp
    qed
  qed
qed

text \<open>
  Two messages in one packet behind the node's name: the first is held back and dropped, the second
  is a request the loop hands to the bus as the node's.
\<close>

lemma two_messages_loop:
  "\<exists>r. LRequest r \<in> set (listen_loop open_parser (\<lambda>rs. calm_env (rs = [])) empty_manifest ''a''
        (frame_reads ''open ~g'' @ frame_reads ''open x=1 ~h'')) \<and> Cast r = ''a''"
proof -
  have r: "readMessage (frame_reads ''open ~g'' @ frame_reads ''open x=1 ~h'')
      = Some (readOK, ''open ~g'', frame_reads ''open x=1 ~h'')"
    "readMessage (frame_reads ''open x=1 ~h'') = Some (readOK, ''open x=1 ~h'', [])"
    "frame_reads ''open x=1 ~h'' \<noteq> []" by code_simp+
  have p: "\<not> IsPipe ''open x=1 ~h''" "\<not> HasPrefix ''open x=1 ~h'' ''witness''"
    "\<not> HasPrefix ''open x=1 ~h'' ''publish''" "\<not> HasPrefix ''open x=1 ~h'' ''~''"
    "TrimSpace ''open x=1 ~h'' \<noteq> []" "\<not> passes_unverified ''open ~g''" by code_simp+
  obtain q where q: "message_Request open_parser ''open x=1 ~h'' ''a'' = Some q"
    using p(5) by (auto simp: message_Request_def parseRequest_def parsed_of_def Validate_def cparse_def
        open_parser_def)
  have "LRequest q \<in> set (listen_loop open_parser (\<lambda>rs. calm_env (rs = [])) empty_manifest ''a''
      (frame_reads ''open x=1 ~h''))"
    using p q
    by (subst listen_loop.simps) (simp add: r listen_message_def calm_env_def listen_dispatch_def)
  then have "LRequest q \<in> set (listen_loop open_parser (\<lambda>rs. calm_env (rs = [])) empty_manifest ''a''
        (frame_reads ''open ~g'' @ frame_reads ''open x=1 ~h''))"
    by (subst listen_loop.simps) (simp add: r)
  with message_Request_identity[OF q] show ?thesis by blast
qed

theorem verdict_decides_one_message_witness:
  "\<exists>outs v. gate_run [GFinish False, GWake, GArrive ''open x=1 ~h''] (activateConnection True vnode_New)
       (Held 0 ''open ~g'') = Some (outs, v, Reading) \<and>
     outs = [Dropped ''open ~g'', Passed ''open x=1 ~h''] \<and>
     (\<exists>r. LRequest r \<in> set (listen_loop open_parser
        (\<lambda>rs. calm_env (rs = [] \<and> Passed ''open x=1 ~h'' \<in> set outs)) empty_manifest ''a''
        (frame_reads ''open ~g'' @ frame_reads ''open x=1 ~h'')) \<and> Cast r = ''a'')"
proof -
  let ?v0 = "activateConnection True vnode_New"
  have p: "passes_unverified ''open ~g'' = False" "passes_unverified ''open x=1 ~h'' = False"
    by code_simp+
  have pre: "gate_run [GArrive ''open ~g''] ?v0 Reading = Some ([], ?v0, Held 0 ''open ~g'')"
    by (simp add: p wait_enter_def activateConnection_def vnode_New_def)
  let ?post = "[GWake, GArrive ''open x=1 ~h'']"
  obtain outs v where post: "gate_run (GFinish False # ?post) ?v0 (Held 0 ''open ~g'') = Some (outs, v, Reading)"
    by (simp add: p wait_enter_def wait_leave_def activateConnection_def finishVerification_def vnode_New_def)
  from verdict_decides_one_message[OF channels_ok_New pre _ post]
  have outs: "outs = [Dropped ''open ~g'', Passed ''open x=1 ~h'']"
    by (simp add: List.map_filter_def)
  from two_messages_loop post outs show ?thesis by auto
qed

end
