(* ===== verification/Witness_Channel.thy ===== *)
theory Witness_Channel
  imports Bus_Witness "HOL-Library.Sublist"
begin

text \<open>
  The witness stream of the process (spored/internal/witness/witness.go): one channel for all parts of
  the daemon, with room for a hundred messages. \<open>Send\<close> never waits: it drops the message when there is
  no room. One goroutine takes the messages out, one at a time, and shows each to the nodes that are
  on the bus's list of witnesses and connected at that moment.
\<close>

definition messageChan_cap :: nat where "messageChan_cap = 100"

definition witness_Send :: "'m \<Rightarrow> 'm list \<Rightarrow> 'm list" where
  "witness_Send msg chan = (if length chan < messageChan_cap then chan @ [msg] else chan)"

text \<open>The channel, and the list the bus keeps.\<close>

record 'm wstream =
  ws_chan :: "'m list"
  ws_nodes :: "inode list"

datatype 'm stream_op =
    SSend 'm
  | SShow "nat \<Rightarrow> bool" \<comment> \<open>one turn of the goroutine, and who is connected then\<close>
  | SNodes witness_op

text \<open>What is shown to whom; \<open>None\<close> for a turn of the goroutine with nothing to take, which waits.\<close>

fun stream_step :: "'m stream_op \<Rightarrow> 'm wstream \<Rightarrow> ((nat \<times> 'm) list \<times> 'm wstream) option" where
  "stream_step (SSend msg) s = Some ([], s\<lparr>ws_chan := witness_Send msg (ws_chan s)\<rparr>)"
| "stream_step (SShow connected) s =
     (case ws_chan s of
        [] \<Rightarrow> None
      | msg # rest \<Rightarrow>
          Some (map (\<lambda>n. (n_ptr n, msg)) (witness_witness (\<lambda>n. connected (n_ptr n)) (ws_nodes s)),
                s\<lparr>ws_chan := rest\<rparr>))"
| "stream_step (SNodes op) s = Some ([], s\<lparr>ws_nodes := witness_apply op (ws_nodes s)\<rparr>)"

fun stream_run :: "'m stream_op list \<Rightarrow> 'm wstream \<Rightarrow> ((nat \<times> 'm) list \<times> 'm wstream) option" where
  "stream_run [] s = Some ([], s)"
| "stream_run (op # ops) s =
     (case stream_step op s of
        None \<Rightarrow> None
      | Some (shown, s1) \<Rightarrow> map_option (\<lambda>(shown', s2). (shown @ shown', s2)) (stream_run ops s1))"

definition stream_New :: "'m wstream" where
  "stream_New = \<lparr>ws_chan = [], ws_nodes = newWitness\<rparr>"

section \<open>What a witness sees\<close>

definition seen_by :: "nat \<Rightarrow> (nat \<times> 'm) list \<Rightarrow> 'm list" where
  "seen_by p shown = map snd (filter (\<lambda>x. fst x = p) shown)"

lemma seen_by_append [simp]: "seen_by p (xs @ ys) = seen_by p xs @ seen_by p ys"
  by (simp add: seen_by_def)

lemma seen_by_Nil [simp]: "seen_by p [] = []"
  by (simp add: seen_by_def)

lemma seen_by_one:
  "\<lbrakk>distinct (map n_ptr w)\<rbrakk> \<Longrightarrow> seen_by p (map (\<lambda>n. (n_ptr n, msg)) w) = (if p \<in> n_ptr ` set w then [msg] else [])"
  by (induction w) (auto simp: seen_by_def filter_empty_conv)

definition sent :: "'m stream_op list \<Rightarrow> 'm list" where
  "sent ops = List.map_filter (\<lambda>op. case op of SSend m \<Rightarrow> Some m | _ \<Rightarrow> None) ops"

lemma sent_simps [simp]:
  "sent [] = []" "sent (SSend m # ops) = m # sent ops" "sent (SShow c # ops) = sent ops"
  "sent (SNodes op # ops) = sent ops"
  by (simp_all add: sent_def List.map_filter_def)

text \<open>The witness \<open>p\<close> stays: it is not taken off the list and connected whenever something is shown.\<close>

definition attends :: "nat \<Rightarrow> 'm stream_op \<Rightarrow> bool" where
  "attends p op \<longleftrightarrow>
     (case op of
        SSend m \<Rightarrow> True
      | SShow connected \<Rightarrow> connected p
      | SNodes (WReg n) \<Rightarrow> True
      | SNodes (WUnreg n) \<Rightarrow> n_ptr n \<noteq> p)"

lemma witness_rel_holds: "\<lbrakk>witness_rel w S; p \<in> S\<rbrakk> \<Longrightarrow> p \<in> n_ptr ` set w \<and> distinct (map n_ptr w)"
  using witness_rel_facts by blast

lemma attends_spec: "\<lbrakk>attends p (SNodes op :: 'm stream_op); p \<in> S\<rbrakk> \<Longrightarrow> p \<in> witness_spec op S"
  by (cases op) (auto simp: attends_def)

text \<open>One step: what the channel held and takes in is what is shown and what it still holds.\<close>

lemma stream_step_seen:
  assumes "stream_step op s = Some (shown, s1)" "witness_rel (ws_nodes s) S" "p \<in> S" "attends p op"
  shows "ws_chan s @ (if length (ws_chan s) < messageChan_cap then sent [op] else []) = seen_by p shown @ ws_chan s1"
    "\<exists>S'. witness_rel (ws_nodes s1) S' \<and> p \<in> S'"
proof -
  show "ws_chan s @ (if length (ws_chan s) < messageChan_cap then sent [op] else []) = seen_by p shown @ ws_chan s1"
  proof (cases op)
    case (SShow connected)
    with assms(1) obtain msg where m: "ws_chan s = msg # ws_chan s1"
      "shown = map (\<lambda>n. (n_ptr n, msg)) (filter (\<lambda>n. connected (n_ptr n)) (ws_nodes s))"
      by (auto simp: witness_witness_def split: list.splits)
    from witness_rel_holds[OF assms(2,3)] have
      "p \<in> n_ptr ` set (filter (\<lambda>n. connected (n_ptr n)) (ws_nodes s))"
      "distinct (map n_ptr (filter (\<lambda>n. connected (n_ptr n)) (ws_nodes s)))"
      using assms(4) SShow by (auto simp: attends_def distinct_map_filter)
    with m SShow show ?thesis by (simp add: seen_by_one)
  qed (use assms(1) in \<open>auto simp: witness_Send_def\<close>)
  show "\<exists>S'. witness_rel (ws_nodes s1) S' \<and> p \<in> S'"
  proof (cases op)
    case (SNodes wop)
    from SNodes assms(1) have "ws_nodes s1 = witness_apply wop (ws_nodes s)" by auto
    with witness_rel_step[OF assms(2), of wop] attends_spec[OF assms(4)[unfolded SNodes] assms(3)]
    show ?thesis by auto
  qed (use assms in \<open>auto split: list.splits\<close>)
qed

lemma stream_step_bound:
  "\<lbrakk>stream_step op s = Some (shown, s1); length (ws_chan s) \<le> messageChan_cap\<rbrakk> \<Longrightarrow>
     length (ws_chan s1) \<le> messageChan_cap"
  by (cases op) (auto simp: witness_Send_def split: list.splits)

text \<open>The messages that found room.\<close>

fun accepted :: "'m stream_op list \<Rightarrow> 'm wstream \<Rightarrow> 'm list" where
  "accepted [] s = []"
| "accepted (op # ops) s =
     (if length (ws_chan s) < messageChan_cap then sent [op] else []) @
     (case stream_step op s of None \<Rightarrow> [] | Some (shown, s1) \<Rightarrow> accepted ops s1)"

lemma accepted_subseq: "subseq (accepted ops s) (sent ops)"
proof (induction ops arbitrary: s)
  case (Cons op ops)
  have eq: "sent (op # ops) = sent [op] @ sent ops" by (cases op) simp_all
  show ?case
    unfolding eq using Cons.IH by (auto split: option.split intro: list_emb_append_mono)
qed simp

lemma stream_run_seen:
  "\<lbrakk>stream_run ops s = Some (shown, s2); witness_rel (ws_nodes s) S; p \<in> S; \<forall>op \<in> set ops. attends p op\<rbrakk>
     \<Longrightarrow> ws_chan s @ accepted ops s = seen_by p shown @ ws_chan s2"
proof (induction ops arbitrary: s S shown)
  case (Cons op ops)
  from Cons.prems(1) obtain o1 s1 o2 where s: "stream_step op s = Some (o1, s1)"
    "stream_run ops s1 = Some (o2, s2)" "shown = o1 @ o2"
    by (auto split: option.splits)
  from stream_step_seen[OF s(1) Cons.prems(2,3)] Cons.prems(4) obtain S' where
    a: "ws_chan s @ (if length (ws_chan s) < messageChan_cap then sent [op] else []) = seen_by p o1 @ ws_chan s1"
    "witness_rel (ws_nodes s1) S'" "p \<in> S'" by auto
  from Cons.IH[OF s(2) a(2,3)] Cons.prems(4) have "ws_chan s1 @ accepted ops s1 = seen_by p o2 @ ws_chan s2"
    by simp
  with a(1) s show ?case by (metis accepted.simps(2) append.assoc case_prod_conv option.simps(5) seen_by_append)
qed simp

text \<open>The goroutine keeps up: never more than a hundred messages ahead of what it has shown.\<close>

definition turns :: "'m stream_op list \<Rightarrow> nat" where
  "turns ops = length (filter (\<lambda>op. case op of SShow c \<Rightarrow> True | _ \<Rightarrow> False) ops)"

definition keeps_up :: "nat \<Rightarrow> 'm stream_op list \<Rightarrow> bool" where
  "keeps_up waiting ops \<longleftrightarrow>
     (\<forall>k \<le> length ops. waiting + length (sent (take k ops)) \<le> messageChan_cap + turns (take k ops))"

lemma keeps_up_Cons:
  assumes "keeps_up waiting (op # ops)" "stream_step op s = Some (shown, s1)" "length (ws_chan s) = waiting"
  shows "keeps_up (length (ws_chan s1)) ops" "sent [op] \<noteq> [] \<Longrightarrow> length (ws_chan s) < messageChan_cap"
proof -
  have k: "waiting + length (sent (op # take k ops)) \<le> messageChan_cap + turns (op # take k ops)"
    if "k \<le> length ops" for k
    using assms(1) that unfolding keeps_up_def by (metis Suc_le_mono length_Cons take_Suc_Cons)
  show full: "length (ws_chan s) < messageChan_cap" if "sent [op] \<noteq> []"
    using k[of 0] that assms(3) by (cases op) (simp_all add: turns_def)
  show "keeps_up (length (ws_chan s1)) ops"
    unfolding keeps_up_def
  proof (intro allI impI)
    fix k
    assume "k \<le> length ops"
    from k[OF this] full assms(2,3)
    show "length (ws_chan s1) + length (sent (take k ops)) \<le> messageChan_cap + turns (take k ops)"
      by (cases op) (auto simp: turns_def witness_Send_def split: list.splits)
  qed
qed

lemma accepted_all:
  "\<lbrakk>stream_run ops s = Some (shown, s2); keeps_up (length (ws_chan s)) ops\<rbrakk> \<Longrightarrow> accepted ops s = sent ops"
proof (induction ops arbitrary: s shown)
  case (Cons op ops)
  from Cons.prems(1) obtain o1 s1 o2 where s: "stream_step op s = Some (o1, s1)"
    "stream_run ops s1 = Some (o2, s2)"
    by (auto split: option.splits)
  from Cons.IH[OF s(2) keeps_up_Cons(1)[OF Cons.prems(2) s(1) refl]]
    keeps_up_Cons(2)[OF Cons.prems(2) s(1) refl] s(1)
  show ?case by (cases op) auto
qed simp

lemma stream_run_state:
  "\<lbrakk>stream_run ops s = Some (shown, s2); length (ws_chan s) \<le> messageChan_cap; witness_rel (ws_nodes s) S\<rbrakk>
     \<Longrightarrow> length (ws_chan s2) \<le> messageChan_cap \<and> (\<exists>S'. witness_rel (ws_nodes s2) S')"
proof (induction ops arbitrary: s S shown)
  case (Cons op ops)
  from Cons.prems(1) obtain o1 s1 o2 where s: "stream_step op s = Some (o1, s1)"
    "stream_run ops s1 = Some (o2, s2)"
    by (auto split: option.splits)
  have "\<exists>S'. witness_rel (ws_nodes s1) S'"
  proof (cases op)
    case (SNodes wop)
    with s(1) witness_rel_step[OF Cons.prems(3), of wop] show ?thesis by auto
  qed (use s(1) Cons.prems(3) in \<open>auto split: list.splits\<close>)
  with Cons.IH[OF s(2) stream_step_bound[OF s(1) Cons.prems(2)]] show ?case by blast
qed auto

text \<open>
  C33. A witness sees the stream. In every run of the daemon's witness stream, whoever sends, registers
  and leaves meanwhile, a witness that is on the list and stays connected is shown a subsequence of
  the messages, each at most once and in the order in which they were sent; never more than a hundred
  wait, and as long as no more than a hundred are ahead of the goroutine none is lost: those that were
  waiting and those sent are exactly the ones shown and the ones still waiting.
\<close>
theorem witness_sees_the_stream:
  assumes "stream_run before stream_New = Some (earlier, s)" "p \<in> n_ptr ` set (ws_nodes s)"
    "stream_run ops s = Some (shown, s2)" "\<forall>op \<in> set ops. attends p op"
  shows "subseq (seen_by p shown @ ws_chan s2) (ws_chan s @ sent ops) \<and>
         length (ws_chan s2) \<le> 100 \<and>
         (keeps_up (length (ws_chan s)) ops \<longrightarrow> seen_by p shown @ ws_chan s2 = ws_chan s @ sent ops)"
proof -
  have "witness_rel (ws_nodes (stream_New :: 'a wstream)) {}"
    by (simp add: stream_New_def newWitness_def witness_rel_def)
  from stream_run_state[OF assms(1) _ this] obtain S where
    S: "length (ws_chan s) \<le> messageChan_cap" "witness_rel (ws_nodes s) S"
    by (auto simp: stream_New_def)
  with assms(2) witness_rel_facts have p: "p \<in> S" by blast
  from stream_run_seen[OF assms(3) S(2) p assms(4)]
  have seen: "ws_chan s @ accepted ops s = seen_by p shown @ ws_chan s2" .
  then have "subseq (seen_by p shown @ ws_chan s2) (ws_chan s @ sent ops)"
    using accepted_subseq[of ops s] by (metis list_emb_append_mono subseq_order.refl)
  with stream_run_state[OF assms(3) S] accepted_all[OF assms(3)] seen show ?thesis
    by (auto simp: messageChan_cap_def)
qed

theorem witness_sees_the_stream_witness:
  "\<exists>s2. stream_run [SSend (1::int), SSend 2, SShow (\<lambda>_. True)]
       \<lparr>ws_chan = [], ws_nodes = [\<lparr>n_ptr = 5, n_id = ''w'', n_manifest = None, n_isWitness = True,
          n_connected = True\<rparr>]\<rparr> = Some ([(5, 1)], s2) \<and> seen_by 5 [(5, 1)] @ ws_chan s2 = [1, 2]"
proof -
  let ?n = "\<lparr>n_ptr = 5, n_id = ''w'', n_manifest = None, n_isWitness = True, n_connected = True\<rparr>"
  let ?s = "\<lparr>ws_chan = [], ws_nodes = [?n]\<rparr> :: int wstream"
  let ?ops = "[SSend (1::int), SSend 2, SShow (\<lambda>_. True)]"
  have before: "stream_run [SNodes (WReg ?n)] stream_New = Some ([], ?s)"
    by (simp add: stream_New_def newWitness_def witness_register_def holds_node_def)
  obtain s2 where run: "stream_run ?ops ?s = Some ([(5, 1)], s2)"
    by (simp add: witness_Send_def messageChan_cap_def witness_witness_def)
  have up: "keeps_up 0 ?ops"
    by (auto simp: keeps_up_def messageChan_cap_def turns_def take_Cons' intro: le_SucI)
  from witness_sees_the_stream[OF before _ run, of 5] up have "seen_by 5 [(5, 1)] @ ws_chan s2 = [1, 2]"
    by (simp add: attends_def)
  with run show ?thesis by blast
qed

end
