(* ===== verification/Platform.thy ===== *)
theory Platform
  imports Go_Path Msg "HOL-Library.Word"
begin

text \<open>
  The platform layer (spored/internal/pal: pal.go, linux.go, macos.go, windows.go,
  executable_path_other.go, executable_path_windows.go): names and places, the local endpoint, and who is at the other end of a
  connection. What the operating system answers is an argument. On Windows (windows.go) the way the
  system joins, cleans and compares paths is an argument too.
\<close>

section \<open>Names and places\<close>

record pal =
  commandOpenFileManager :: string
  daemonUsername :: string
  directoryLogging :: string
  directoryRoot :: string

definition linux :: pal where
  "linux = \<lparr>commandOpenFileManager = ''xdg-open'', daemonUsername = ''spore'',
     directoryLogging = ''/var/log/spore-os'', directoryRoot = ''/var/lib/spore-os''\<rparr>"

definition macos :: pal where
  "macos = \<lparr>commandOpenFileManager = ''open'', daemonUsername = ''_spore'',
     directoryLogging = ''/Library/Logs/spore-os'', directoryRoot = ''/Library/Application Support/spore-os''\<rparr>"

definition DirectoryStore :: "pal \<Rightarrow> string" where
  "DirectoryStore p = filepath_Join [directoryRoot p, ''store'']"

definition DirectoryData :: "pal \<Rightarrow> string" where
  "DirectoryData p = filepath_Join [directoryRoot p, ''data'']"

definition FileRegistry :: "pal \<Rightarrow> string" where
  "FileRegistry p = filepath_Join [directoryRoot p, ''nodes.registry.yaml'']"

definition FileSocket :: "pal \<Rightarrow> string" where
  "FileSocket p = filepath_Join [directoryRoot p, ''spore.sock'']"

definition FileLog :: "pal \<Rightarrow> string" where
  "FileLog p = filepath_Join [directoryLogging p, ''dev.sporeos.spored.log'']"

definition FilePermissions :: "pal \<Rightarrow> string" where
  "FilePermissions p = filepath_Join [DirectoryData p, ''permissions.yaml'']"

text \<open>\<open>exe\<close> is the path of the running program or the error of asking for it.\<close>

definition FileSporeManifest :: "pal \<Rightarrow> bool \<Rightarrow> string + string \<Rightarrow> (string \<Rightarrow> bool) \<Rightarrow> string" where
  "FileSporeManifest p interactive exe readable =
     (let name = ''spored.manifest.spore.yaml''; installed = filepath_Join [directoryRoot p, name] in
      if interactive then
        (case exe of
           Inl err \<Rightarrow> name
         | Inr path \<Rightarrow>
             (let fp = filepath_Join [filepath_Dir path, name] in if \<not> readable fp then installed else fp))
      else installed)"

definition SameExecutablePath :: "string \<Rightarrow> string \<Rightarrow> bool" where
  "SameExecutablePath expected actual \<longleftrightarrow> expected = actual"

section \<open>The local endpoint\<close>

text \<open>What removing a file and opening a socket answer.\<close>

datatype remove_result = Removed | NotThere | RemoveFailed string

definition removeLocalEndpoint :: "remove_result \<Rightarrow> string option" where
  "removeLocalEndpoint r = (case r of RemoveFailed e \<Rightarrow> Some e | _ \<Rightarrow> None)"

text \<open>
  The listener, or the error; and whether a listener was opened and closed again. \<open>listen\<close> and \<open>chmod\<close>
  are the errors of the two calls.
\<close>

datatype endpoint_call = Listen string | Chmod string | CloseListener

definition listenLocal ::
  "pal \<Rightarrow> string option \<Rightarrow> string option \<Rightarrow> string option \<times> endpoint_call list" where
  "listenLocal p listen chmod =
     (let listened = [Listen (FileSocket p)] in
      case listen of
        Some err \<Rightarrow> (Some err, listened)
      | None \<Rightarrow>
          (case chmod of
             Some err \<Rightarrow> (Some err, listened @ [Chmod (FileSocket p), CloseListener])
           | None \<Rightarrow> (None, listened @ [Chmod (FileSocket p)])))"

section \<open>The peer of a connection\<close>

text \<open>
  What asking for the credentials of a connection gives: whether it is a local connection at all, the
  errors of the three calls, and the process if one is reported.
\<close>

record peer =
  pe_unix :: bool
  pe_raw_err :: "string option"
  pe_control_err :: "string option"
  pe_socket_err :: "string option"
  pe_pid :: "int option"

definition linux_processId :: "peer \<Rightarrow> string + int" where
  "linux_processId c =
     (if \<not> pe_unix c then Inl ''connection casting failure''
      else case pe_raw_err c of
             Some err \<Rightarrow> Inl err
           | None \<Rightarrow>
               (case pe_control_err c of
                  Some err \<Rightarrow> Inl err
                | None \<Rightarrow>
                    (case pe_socket_err c of
                       Some err \<Rightarrow> Inl err
                     | None \<Rightarrow>
                         (case pe_pid c of
                            None \<Rightarrow> Inl ''peer credentials unavailable''
                          | Some pid \<Rightarrow> Inr pid))))"

text \<open>On macOS the errors of the last two calls are dropped; the process is 0 then.\<close>

definition macos_processId :: "peer \<Rightarrow> string + int" where
  "macos_processId c =
     (if \<not> pe_unix c then Inl ''connection casting failure''
      else case pe_raw_err c of
             Some err \<Rightarrow> Inl err
           | None \<Rightarrow>
               Inr (if pe_control_err c = None \<and> pe_socket_err c = None
                    then case pe_pid c of Some pid \<Rightarrow> pid | None \<Rightarrow> 0 else 0))"

definition linux_processPath :: "(string \<Rightarrow> string + string) \<Rightarrow> peer \<Rightarrow> string + string" where
  "linux_processPath readlink c =
     (case linux_processId c of
        Inl err \<Rightarrow> Inl err
      | Inr pid \<Rightarrow> readlink (''/proc/'' @ show_int pid @ ''/exe''))"

text \<open>\<open>proc_pidpath\<close> is the path the system call writes; \<open>None\<close> when it writes none.\<close>

definition macos_processPath :: "(int \<Rightarrow> string option) \<Rightarrow> peer \<Rightarrow> string + string" where
  "macos_processPath proc_pidpath c =
     (case macos_processId c of
        Inl err \<Rightarrow> Inl err
      | Inr pid \<Rightarrow>
          (case proc_pidpath pid of
             None \<Rightarrow> Inl (''proc_pidpath failed for pid '' @ show_int pid)
           | Some path \<Rightarrow> Inr path))"

text \<open>No error of reading from a connection ends it on these systems.\<close>

definition isTerminalPeerReadError :: "string \<Rightarrow> bool" where
  "isTerminalPeerReadError err = False"

section \<open>Windows\<close>

text \<open>\<open>join\<close> is \<open>filepath.Join\<close> of the system, \<open>programData\<close> the environment variable.\<close>

definition windows :: "(string list \<Rightarrow> string) \<Rightarrow> string \<Rightarrow> pal" where
  "windows join programData =
     (let root = join [programData, ''spore-os''] in
      \<lparr>commandOpenFileManager = ''explorer'', daemonUsername = ''NT AUTHORITY'' @ [BSL] @ ''LocalService'',
       directoryLogging = join [root, ''logs''], directoryRoot = root\<rparr>)"

text \<open>The socket file is open to local users by its access list: the descriptor is written out in the code.\<close>

definition socketSecurityDescriptor :: string where
  "socketSecurityDescriptor = ''D:P(A;;GA;;;SY)(A;;GA;;;BA)(A;;GA;;;LS)(A;;GRGW;;;AU)''"

text \<open>\<open>parse\<close> reads a descriptor, \<open>dacl\<close> takes its access list and \<open>apply\<close> sets it on the file.\<close>

definition setSocketAccess ::
  "(string \<Rightarrow> string + 'd) \<Rightarrow> ('d \<Rightarrow> string + 'l) \<Rightarrow> (string \<Rightarrow> 'l \<Rightarrow> string option) \<Rightarrow> string \<Rightarrow> string option" where
  "setSocketAccess parse dacl apply path =
     (case parse socketSecurityDescriptor of
        Inl err \<Rightarrow> Some err
      | Inr descriptor \<Rightarrow>
          (case dacl descriptor of
             Inl err \<Rightarrow> Some err
           | Inr acl \<Rightarrow> apply path acl))"

text \<open>As elsewhere, with the access list as a third call; \<open>access\<close> is the error of \<open>setSocketAccess\<close>.\<close>

datatype windows_call = WinListen string | WinChmod string | WinAccess string | WinClose

definition windows_listenLocal ::
  "string \<Rightarrow> string option \<Rightarrow> string option \<Rightarrow> string option \<Rightarrow> string option \<times> windows_call list" where
  "windows_listenLocal sock listen chmod access =
     (case listen of
        Some err \<Rightarrow> (Some err, [WinListen sock])
      | None \<Rightarrow>
          (case chmod of
             Some err \<Rightarrow> (Some err, [WinListen sock, WinChmod sock, WinClose])
           | None \<Rightarrow>
               (case access of
                  Some err \<Rightarrow> (Some err, [WinListen sock, WinChmod sock, WinAccess sock, WinClose])
                | None \<Rightarrow> (None, [WinListen sock, WinChmod sock, WinAccess sock]))))"

text \<open>The errors of the system the code looks for; an error of Go is the chain of what it wraps.\<close>

datatype winerror = WSAECONNABORTED | WSAECONNRESET | ERROR_OPERATION_ABORTED | ERROR_ACCESS_DENIED | OtherError

record goerror =
  ge_text :: string
  ge_chain :: "winerror list"

definition windows_isTerminalPeerReadError :: "goerror \<Rightarrow> bool" where
  "windows_isTerminalPeerReadError err \<longleftrightarrow>
     WSAECONNABORTED \<in> set (ge_chain err) \<or> WSAECONNRESET \<in> set (ge_chain err) \<or>
     ERROR_OPERATION_ABORTED \<in> set (ge_chain err)"

text \<open>The process id comes as 32 bits with the number of bytes read; \<open>int\<close> has 64 bits there.\<close>

record win_peer =
  wp_unix :: bool
  wp_raw_err :: "goerror option"
  wp_control_err :: "goerror option"
  wp_socket_err :: "goerror option"
  wp_pid :: "32 word"
  wp_bytesRead :: "32 word"

definition plain_error :: "string \<Rightarrow> goerror" where
  "plain_error what = \<lparr>ge_text = what, ge_chain = []\<rparr>"

definition windows_processId :: "win_peer \<Rightarrow> goerror + int" where
  "windows_processId c =
     (if \<not> wp_unix c then Inl (plain_error ''connection casting failure'')
      else case wp_raw_err c of
             Some err \<Rightarrow> Inl err
           | None \<Rightarrow>
               (case wp_control_err c of
                  Some err \<Rightarrow> Inl err
                | None \<Rightarrow>
                    (case wp_socket_err c of
                       Some err \<Rightarrow> Inl err
                     | None \<Rightarrow>
                         if wp_pid c = 0
                         then Inl (plain_error (''AF_UNIX peer PID query returned '' @ show_int (uint (wp_bytesRead c)) @
                                '' bytes and PID '' @ show_int (uint (wp_pid c))))
                         else Inr (uint (wp_pid c)))))"

text \<open>
  Opening the process and asking for its image. The flag of an error is whether it wraps
  \<open>ErrPeerProcessPathAccessDenied\<close>, which sends the check of the binary to the user's session.
\<close>

definition windows_processPath ::
  "(32 word \<Rightarrow> goerror + 'h) \<Rightarrow> ('h \<Rightarrow> goerror + string) \<Rightarrow> win_peer \<Rightarrow> (bool \<times> goerror) + string" where
  "windows_processPath openProcess imageName c =
     (case windows_processId c of
        Inl err \<Rightarrow> Inl (False, err)
      | Inr pid \<Rightarrow>
          (case openProcess (word_of_int pid) of
             Inl err \<Rightarrow>
               if ERROR_ACCESS_DENIED \<in> set (ge_chain err)
               then Inl (True, err\<lparr>ge_text := ''peer process path access denied: '' @ ge_text err\<rparr>)
               else Inl (False, err)
           | Inr process \<Rightarrow>
               (case imageName process of
                  Inl err \<Rightarrow> Inl (False, err)
                | Inr path \<Rightarrow> Inr path)))"

lemma windows_processId_known: "windows_processId c = Inr pid \<Longrightarrow> 0 < pid \<and> pid < 2 ^ 32 \<and> word_of_int pid = wp_pid c"
  using uint_lt2p[of "wp_pid c"]
  by (auto simp: windows_processId_def word_greater_zero_iff less_le uint_0_iff split: if_splits option.splits)

lemma windows_access_denied:
  assumes "windows_processPath openProcess imageName c = Inl (True, err)"
  shows "\<exists>err0. openProcess (wp_pid c) = Inl err0 \<and> ERROR_ACCESS_DENIED \<in> set (ge_chain err0)"
  using assms windows_processId_known[of c]
  by (auto simp: windows_processPath_def split: sum.splits if_splits)

lemma windows_listenLocal_failure:
  "windows_listenLocal sock listen chmod access = (Some err, calls) \<Longrightarrow>
     WinClose \<in> set calls \<or> calls = [WinListen sock] \<and> listen = Some err"
  by (auto simp: windows_listenLocal_def split: option.splits)

text \<open>
  Paths are compared without regard to case there: \<open>clean\<close> is \<open>filepath.Clean\<close> of the system, \<open>folded\<close> the
  case folding of \<open>strings.EqualFold\<close>.
\<close>

definition windows_SameExecutablePath :: "(string \<Rightarrow> string) \<Rightarrow> (string \<Rightarrow> string) \<Rightarrow> string \<Rightarrow> string \<Rightarrow> bool" where
  "windows_SameExecutablePath clean folded expected actual \<longleftrightarrow> folded (clean expected) = folded (clean actual)"

section \<open>Facts\<close>

lemma linux_processId_known: "linux_processId c = Inr pid \<Longrightarrow> pe_pid c = Some pid"
  by (auto simp: linux_processId_def split: if_splits option.splits)

lemma macos_processId_unknown:
  "\<lbrakk>pe_unix c; pe_raw_err c = None; pe_socket_err c \<noteq> None\<rbrakk> \<Longrightarrow> macos_processId c = Inr 0"
  by (auto simp: macos_processId_def)

lemma listenLocal_failure:
  "listenLocal p listen chmod = (Some err, calls) \<Longrightarrow>
     CloseListener \<in> set calls \<or> calls = [Listen (FileSocket p)] \<and> listen = Some err"
  by (auto simp: listenLocal_def Let_def split: option.splits)

lemma daemon_places:
  "FileRegistry linux = ''/var/lib/spore-os/nodes.registry.yaml''"
  "FileSocket linux = ''/var/lib/spore-os/spore.sock''"
  "FileLog linux = ''/var/log/spore-os/dev.sporeos.spored.log''"
  "FilePermissions linux = ''/var/lib/spore-os/data/permissions.yaml''"
  "DirectoryData linux = ''/var/lib/spore-os/data''"
  "FileRegistry macos = ''/Library/Application Support/spore-os/nodes.registry.yaml''"
  "FileSocket macos = ''/Library/Application Support/spore-os/spore.sock''"
  "FileLog macos = ''/Library/Logs/spore-os/dev.sporeos.spored.log''"
  "FilePermissions macos = ''/Library/Application Support/spore-os/data/permissions.yaml''"
  "DirectoryData macos = ''/Library/Application Support/spore-os/data''"
  by code_simp+

end
