(* ===== verification/Hub.thy ===== *)
theory Hub
  imports Platform Spore_Dispatch Nodes_Safety
begin

text \<open>
  The start of the daemon and its accept loop (spored/internal/hub/hub.go, spored/program.go): how the
  parts are created and made known to each other, and what happens to the connections. The
  connections and errors the listener will give are a function of the number of the call.
\<close>

section \<open>Wiring the parts\<close>

definition internal_inode :: "nat \<Rightarrow> string \<Rightarrow> inode" where
  "internal_inode ptr i = \<lparr>n_ptr = ptr, n_id = i, n_manifest = None, n_isWitness = False, n_connected = True\<rparr>"

text \<open>A part takes a fresh identity when it is made known to the bus.\<close>

definition hub_register :: "(nat \<Rightarrow> inode) \<Rightarrow> world \<Rightarrow> world option" where
  "hub_register part w =
     map_option (\<lambda>b. w\<lparr>w_bus := b, w_next := Suc (w_next w)\<rparr>) (bus_Register (part (w_next w)) (w_bus w))"

text \<open>What \<open>New\<close> finds on the disk: the registry, the permissions, and the manifest of the daemon.\<close>

record hub_env =
  hb_nodes :: nodes_env
  hb_registry :: reg_read
  hb_rdisk :: reg_disk
  hb_permissions :: perm_read
  hb_pdisk :: perm_disk
  hb_manifest_path :: string

definition hub_manifest :: "hub_env \<Rightarrow> Manifest" where
  "hub_manifest env = spore_New (ne_fs (hb_nodes env)) (ne_yaml (hb_nodes env)) (hb_manifest_path env)"

text \<open>\<open>bus.Set\<close> gives the bus its gate; the other parts register themselves, in this order.\<close>

definition hub_Set :: "hub_env \<Rightarrow> world \<Rightarrow> world option" where
  "hub_Set env w =
     (case hub_register (\<lambda>ptr. internal_inode ptr protectedCaller) w of
        None \<Rightarrow> None
      | Some w1 \<Rightarrow>
          (case nodes_Set (hb_nodes env) w1 of
             None \<Rightarrow> None
           | Some w2 \<Rightarrow>
               (case hub_register (\<lambda>ptr. internal_inode ptr permissionCaller) w2 of
                  None \<Rightarrow> None
                | Some w3 \<Rightarrow>
                    map_option (\<lambda>w4. w4\<lparr>w_next := Suc (w_next w3)\<rparr>)
                      (spore_Set (w_next w3) (hub_manifest env) w3))))"

text \<open>The exit code when the registry cannot be loaded, or the world with every part in place.\<close>

definition hub_New :: "hub_env \<Rightarrow> int + world option" where
  "hub_New env =
     (case registry_New (ne_goos (hb_nodes env)) (hb_registry env) of
        Inl code \<Rightarrow> Inl code
      | Inr els \<Rightarrow>
          Inr (hub_Set env
                 (world_New (hb_nodes env) els bus_New (perm_New (hb_permissions env)) (hb_pdisk env) (hb_rdisk env))))"

section \<open>Every part is found\<close>

lemma responses_register_nodes:
  "responses_register n r = Some r1 \<Longrightarrow> rp_nodes r1 = (rp_nodes r)(n_id n \<mapsto> n) \<and> rp_locked r1 = rp_locked r"
  by (auto simp: responses_register_def split: if_splits)

lemma bus_Register_tables:
  assumes "bus_Register n b = Some b1"
  shows "rp_nodes (bus_responses b1) = (rp_nodes (bus_responses b))(n_id n \<mapsto> n)"
    "rp_locked (bus_responses b1) = rp_locked (bus_responses b)"
    "a_nodes (bus_api b1) = (a_nodes (bus_api b))(n_id n \<mapsto> n)"
    "a_commands (bus_api b1) f = (if f \<in> set (node_commands n) then Some (n_id n) else a_commands (bus_api b) f)"
  using assms responses_register_nodes
  by (auto simp: bus_Register_def api_register_tables)

lemma hub_register_total:
  "\<not> rp_locked (bus_responses (w_bus w)) \<Longrightarrow>
     \<exists>b. hub_register part w = Some (w\<lparr>w_bus := b, w_next := Suc (w_next w)\<rparr>) \<and>
         bus_Register (part (w_next w)) (w_bus w) = Some b \<and> \<not> rp_locked (bus_responses b)"
  using bus_Register_open[of "w_bus w" "part (w_next w)"]
  by (auto simp: hub_register_def)

lemma register_all_total:
  "\<not> rp_locked (bus_responses (w_bus w)) \<Longrightarrow>
     \<exists>w1. register_all env is w = Some w1 \<and> \<not> rp_locked (bus_responses (w_bus w1)) \<and> w_next w1 = w_next w \<and>
          w_nodes w1 = w_nodes w \<and> w_perm w1 = w_perm w \<and> w_registry w1 = w_registry w \<and>
          (\<forall>j. (\<forall>i n. w_nodes w i = Some n \<longrightarrow> el_ID (nn_registry n) \<noteq> j) \<longrightarrow>
             rp_nodes (bus_responses (w_bus w1)) j = rp_nodes (bus_responses (w_bus w)) j)"
proof (induction "is" arbitrary: w)
  case (Cons i "is")
  show ?case
  proof (cases "w_nodes w i")
    case None
    with Cons.IH[OF Cons.prems] show ?thesis by simp
  next
    case (Some node)
    obtain b where b: "bus_Register (inode_of env node) (w_bus w) = Some b"
      using bus_Register_open[OF Cons.prems] by blast
    let ?w = "w\<lparr>w_bus := b\<rparr>"
    have "\<not> rp_locked (bus_responses (w_bus ?w))" using Cons.prems bus_Register_tables(2)[OF b] by simp
    from Cons.IH[OF this] obtain w1 where w1: "register_all env is ?w = Some w1"
      "\<not> rp_locked (bus_responses (w_bus w1))" "w_next w1 = w_next w" "w_nodes w1 = w_nodes w" "w_perm w1 = w_perm w" "w_registry w1 = w_registry w"
      "\<And>j. (\<forall>i n. w_nodes w i = Some n \<longrightarrow> el_ID (nn_registry n) \<noteq> j) \<Longrightarrow>
             rp_nodes (bus_responses (w_bus w1)) j = rp_nodes (bus_responses b) j"
      by auto
    have "rp_nodes (bus_responses b) j = rp_nodes (bus_responses (w_bus w)) j"
      if "\<forall>i n. w_nodes w i = Some n \<longrightarrow> el_ID (nn_registry n) \<noteq> j" for j
      using bus_Register_tables(1)[OF b] that Some by (auto simp: inode_of_def)
    with w1 Some b show ?thesis by auto
  qed
qed simp

lemma nodes_Set_total:
  assumes "\<not> rp_locked (bus_responses (w_bus w))" "selfNodeId \<notin> ids"
    "\<And>i n. w_nodes w i = Some n \<Longrightarrow> el_ID (nn_registry n) \<in> ids"
  obtains w2 where "nodes_Set env w = Some w2" "\<not> rp_locked (bus_responses (w_bus w2))"
    "w_nodes w2 = w_nodes w" "w_perm w2 = w_perm w" "w_registry w2 = w_registry w"
    "rp_nodes (bus_responses (w_bus w2)) selfNodeId = Some (internal_inode (w_next w) selfNodeId)"
    "\<And>j. j \<notin> insert selfNodeId ids \<Longrightarrow>
       rp_nodes (bus_responses (w_bus w2)) j = rp_nodes (bus_responses (w_bus w)) j"
proof -
  obtain b where b: "bus_Register (nodesSelf (w_next w)) (w_bus w) = Some b" "\<not> rp_locked (bus_responses b)"
    using bus_Register_open[OF assms(1)] by blast
  let ?w = "w\<lparr>w_bus := b, w_next := Suc (w_next w)\<rparr>"
  from register_all_total[of ?w env "ne_order env"] b(2) obtain w2 where
    r: "register_all env (ne_order env) ?w = Some w2" "\<not> rp_locked (bus_responses (w_bus w2))"
    "w_nodes w2 = w_nodes w" "w_perm w2 = w_perm w" "w_registry w2 = w_registry w"
    "\<And>j. (\<forall>i n. w_nodes w i = Some n \<longrightarrow> el_ID (nn_registry n) \<noteq> j) \<Longrightarrow>
       rp_nodes (bus_responses (w_bus w2)) j = rp_nodes (bus_responses b) j"
    by auto
  have free: "\<forall>i n. w_nodes w i = Some n \<longrightarrow> el_ID (nn_registry n) \<noteq> j" if "j \<notin> ids" for j
    using assms(3) that by blast
  have "nodes_Set env w = Some w2" by (simp add: nodes_Set_def b(1) r(1))
  moreover have "rp_nodes (bus_responses (w_bus w2)) selfNodeId = Some (internal_inode (w_next w) selfNodeId)"
    using r(6)[OF free[OF assms(2)]] bus_Register_tables(1)[OF b(1)]
    by (simp add: nodesSelf_def internal_inode_def)
  moreover have "rp_nodes (bus_responses (w_bus w2)) j = rp_nodes (bus_responses (w_bus w)) j"
    if "j \<notin> insert selfNodeId ids" for j
    using r(6)[OF free, of j] bus_Register_tables(1)[OF b(1)] that by (simp add: nodesSelf_def)
  ultimately show thesis using that r(2-5) by blast
qed

lemma register_command_admin:
  "set (pm_adminCommands (register_command i c m)) =
     set (pm_adminCommands m) \<union> (if cm_Risk c = R_Admin then {i @ ''.'' @ cm_Name c} else {})"
  by (simp add: register_command_def Let_def)

lemma fold_register_command_admin:
  "set (pm_adminCommands (fold (register_command i) cs m)) =
     set (pm_adminCommands m) \<union> {i @ ''.'' @ cm_Name c |c. c \<in> set cs \<and> cm_Risk c = R_Admin}"
  by (induction cs arbitrary: m) (auto simp: register_command_admin)

lemma fold_register_topic_admin:
  "pm_adminCommands (fold register_topic ts m) = pm_adminCommands m"
  by (induction ts arbitrary: m) (simp_all add: register_topic_def)

lemma RegisterNode_admin:
  "set (pm_adminCommands (RegisterNode (Some man) m)) =
     set (pm_adminCommands m) \<union> {m_ID man @ ''.'' @ cm_Name c |c. c \<in> set (m_Api man) \<and> cm_Risk c = R_Admin}"
  by (simp add: RegisterNode_def Let_def fold_register_topic_admin fold_register_command_admin)

text \<open>The last two parts, registered one after the other on a world with every node in place.\<close>

lemma last_parts_reach:
  assumes "nodes_reach w" "bus_Register p1 (w_bus w) = Some b1" "bus_Register p2 b1 = Some b2"
    "w_nodes w (n_id p1) = None" "w_nodes w (n_id p2) = None"
  shows "nodes_reach (w\<lparr>w_bus := b2, w_perm := RegisterNode man (w_perm w), w_next := Suc (Suc (w_next w))\<rparr>)"
proof -
  let ?w1 = "w\<lparr>w_bus := b1\<rparr>" and ?w2 = "w\<lparr>w_bus := b2\<rparr>"
  have r1: "nodes_reach ?w1" by (rule nodes_reach.step[OF assms(1) nodes_step.register[OF assms(2,4)]])
  have "nodes_step ?w1 (?w1\<lparr>w_bus := b2\<rparr>)" by (rule nodes_step.register[of p2]) (simp_all add: assms(3,5))
  with r1 have r2: "nodes_reach ?w2" using nodes_reach.step by fastforce
  from nodes_reach.step[OF r2 nodes_step.permissions[OF perm_change.register[of _ _ man]]]
  have "nodes_reach (w\<lparr>w_bus := b2, w_perm := RegisterNode man (w_perm w)\<rparr>)" by simp
  from nodes_reach.step[OF this nodes_step.identity[of _ "Suc (Suc (w_next w))"]] show ?thesis by simp
qed

lemma last_parts_routes:
  assumes "bus_Register (internal_inode k permissionCaller) b = Some b1" "bus_Register p2 b1 = Some b2"
    "n_id p2 \<notin> {protectedCaller, selfNodeId, permissionCaller}"
    "rp_nodes (bus_responses b) protectedCaller = Some (internal_inode k1 protectedCaller)"
    "rp_nodes (bus_responses b) selfNodeId = Some (internal_inode k2 selfNodeId)"
  shows "\<forall>i \<in> {protectedCaller, selfNodeId, permissionCaller}.
     \<exists>k. rp_nodes (bus_responses b2) i = Some (internal_inode k i)"
proof -
  have "rp_nodes (bus_responses b2) =
      (rp_nodes (bus_responses b))(permissionCaller \<mapsto> internal_inode k permissionCaller, n_id p2 \<mapsto> p2)"
    using bus_Register_tables(1)[OF assms(1)] bus_Register_tables(1)[OF assms(2)]
    by (simp add: internal_inode_def)
  with assms(3-5) show ?thesis by auto
qed

text \<open>The installed nodes, all of them, after the hyphae.\<close>

lemma nodes_start:
  fixes els :: "Element list"
  assumes "el_ID ` set els \<subseteq> set (ne_order env)" "selfNodeId \<notin> el_ID ` set els" "protectedCaller \<notin> el_ID ` set els"
    "w0 = world_New env els bus_New p pd rd"
  obtains w1 w2 k1 k2 where
    "hub_register (\<lambda>ptr. internal_inode ptr protectedCaller) w0 = Some w1"
    "nodes_Set env w1 = Some w2" "nodes_reach w2" "\<not> rp_locked (bus_responses (w_bus w2))"
    "w_nodes w2 = fst (nodes_New env els)" "w_registry w2 = els" "w_perm w2 = p"
    "rp_nodes (bus_responses (w_bus w2)) protectedCaller = Some (internal_inode k1 protectedCaller)"
    "rp_nodes (bus_responses (w_bus w2)) selfNodeId = Some (internal_inode k2 selfNodeId)"
proof -
  let ?ids = "el_ID ` set els"
  have "\<not> rp_locked (bus_responses (w_bus w0))" by (simp add: assms(4) world_New_def bus_New_def newResponses_def)
  from hub_register_total[OF this, of "\<lambda>ptr. internal_inode ptr protectedCaller"] obtain b1 where
    b1: "hub_register (\<lambda>ptr. internal_inode ptr protectedCaller) w0 = Some (w0\<lparr>w_bus := b1, w_next := Suc (w_next w0)\<rparr>)"
    "bus_Register (internal_inode (w_next w0) protectedCaller) (w_bus w0) = Some b1" "\<not> rp_locked (bus_responses b1)"
    by blast
  let ?w1 = "w0\<lparr>w_bus := b1, w_next := Suc (w_next w0)\<rparr>"
  have w0: "w_nodes w0 = fst (nodes_New env els)" "w_registry w0 = els" "w_next w0 = snd (nodes_New env els)"
    "w_perm w0 = p"
    by (simp_all add: assms(4) world_New_def)
  have known: "el_ID (nn_registry n) \<in> ?ids" if "w_nodes ?w1 i = Some n" for i n
  proof -
    from that have n: "fst (nodes_New env els) i = Some n" using w0 by simp
    with nodes_New_ids[OF n] nodes_New_dom[of env els i] show ?thesis by auto
  qed
  have free: "\<not> rp_locked (bus_responses (w_bus ?w1))" using b1(3) by simp
  obtain w2 where
    w2: "nodes_Set env ?w1 = Some w2" "\<not> rp_locked (bus_responses (w_bus w2))" "w_nodes w2 = w_nodes ?w1"
    "w_perm w2 = w_perm ?w1" "w_registry w2 = w_registry ?w1"
    "rp_nodes (bus_responses (w_bus w2)) selfNodeId = Some (internal_inode (w_next ?w1) selfNodeId)"
    "\<And>j. j \<notin> insert selfNodeId ?ids \<Longrightarrow>
       rp_nodes (bus_responses (w_bus w2)) j = rp_nodes (bus_responses (w_bus ?w1)) j"
    by (rule nodes_Set_total[OF free assms(2) known]) blast+
  have "nodes_reach w2"
    by (rule nodes_reach.start[OF w2(1), of els]) (use assms(1) w0 in simp_all)
  moreover have "protectedCaller \<noteq> selfNodeId" by (simp add: protectedCaller_def selfNodeId_def)
  then have "rp_nodes (bus_responses (w_bus w2)) protectedCaller = Some (internal_inode (w_next w0) protectedCaller)"
    using w2(7)[of protectedCaller] assms(3) bus_Register_tables(1)[OF b1(2)] by (simp add: internal_inode_def)
  moreover have "w_nodes w2 = fst (nodes_New env els)" "w_registry w2 = els" "w_perm w2 = p"
    using w2(3-5) w0 by simp_all
  ultimately show thesis using that b1(1) w2(1,2,6) by blast
qed

lemma hub_New_complete:
  assumes "hb_registry env = RegElements xs" "el_ID ` set xs \<subseteq> set (ne_order (hb_nodes env))"
    "el_ID ` set xs \<inter> {protectedCaller, selfNodeId, permissionCaller, m_ID (hub_manifest env)} = {}"
    "m_ID (hub_manifest env) \<notin> {protectedCaller, selfNodeId, permissionCaller}"
  shows "\<exists>w ptr. hub_New env = Inr (Some w) \<and> nodes_reach w \<and>
     w_registry w = map (\<lambda>el. el\<lparr>el_Binary := executablePathFor (ne_goos (hb_nodes env)) (el_Binary el)\<rparr>) xs \<and>
     w_nodes w = fst (nodes_New (hb_nodes env) (w_registry w)) \<and>
     w_perm w = RegisterNode (Some (hub_manifest env)) (perm_New (hb_permissions env)) \<and>
     (\<forall>i \<in> {protectedCaller, selfNodeId, permissionCaller}.
        \<exists>k. rp_nodes (bus_responses (w_bus w)) i = Some (internal_inode k i)) \<and>
     a_nodes (bus_api (w_bus w)) (m_ID (hub_manifest env)) = Some (spore_inode ptr (hub_manifest env)) \<and>
     (\<forall>c \<in> set (m_Api (hub_manifest env)).
        a_commands (bus_api (w_bus w)) (m_ID (hub_manifest env) @ ''.'' @ cm_Name c) = Some (m_ID (hub_manifest env)) \<and>
        (cm_Risk c = R_Admin \<longrightarrow>
           m_ID (hub_manifest env) @ ''.'' @ cm_Name c \<in> set (pm_adminCommands (w_perm w))))"
proof -
  let ?ne = "hb_nodes env" and ?man = "hub_manifest env"
  define els where "els = map (\<lambda>el. el\<lparr>el_Binary := executablePathFor (ne_goos ?ne) (el_Binary el)\<rparr>) xs"
  have ids: "el_ID ` set els = el_ID ` set xs" by (auto simp: els_def image_iff)
  define w0 where "w0 = world_New ?ne els bus_New (perm_New (hb_permissions env)) (hb_pdisk env) (hb_rdisk env)"
  have names: "selfNodeId \<notin> el_ID ` set els" "protectedCaller \<notin> el_ID ` set els" using assms(3) ids by auto
  obtain w1 w2 k1 k2 where
    w: "hub_register (\<lambda>ptr. internal_inode ptr protectedCaller) w0 = Some w1"
    "nodes_Set ?ne w1 = Some w2" "nodes_reach w2" "\<not> rp_locked (bus_responses (w_bus w2))"
    "w_nodes w2 = fst (nodes_New ?ne els)" "w_registry w2 = els" "w_perm w2 = perm_New (hb_permissions env)"
    "rp_nodes (bus_responses (w_bus w2)) protectedCaller = Some (internal_inode k1 protectedCaller)"
    "rp_nodes (bus_responses (w_bus w2)) selfNodeId = Some (internal_inode k2 selfNodeId)"
    by (rule nodes_start[OF assms(2)[folded ids] names w0_def]) (rule that; assumption)
  let ?ptr = "w_next w2"
  from hub_register_total[OF w(4), of "\<lambda>ptr. internal_inode ptr permissionCaller"] obtain b3 where
    b3: "hub_register (\<lambda>ptr. internal_inode ptr permissionCaller) w2 = Some (w2\<lparr>w_bus := b3, w_next := Suc ?ptr\<rparr>)"
    "bus_Register (internal_inode ?ptr permissionCaller) (w_bus w2) = Some b3" "\<not> rp_locked (bus_responses b3)"
    by blast
  let ?self = "spore_inode (Suc ?ptr) ?man"
  from bus_Register_open[OF b3(3)] obtain b4 where b4: "bus_Register ?self b3 = Some b4" by blast
  have self: "n_id ?self = m_ID ?man"
    "node_commands ?self = map (\<lambda>c. m_ID ?man @ ''.'' @ cm_Name c) (m_Api ?man)"
    by (simp_all add: spore_inode_def node_commands_def)
  let ?w = "w2\<lparr>w_bus := b4, w_perm := RegisterNode (Some ?man) (w_perm w2), w_next := Suc (Suc ?ptr)\<rparr>"
  have up: "hub_New env = Inr (Some ?w)"
    using assms(1) w(1,2) b3(1) b4
    by (simp add: hub_New_def registry_New_def reg_load_def hub_Set_def spore_Set_def w0_def els_def)
  have free: "w_nodes w2 i = None" if "i \<notin> el_ID ` set xs" for i
    using that w(5) ids nodes_New_dom[of ?ne els i] by simp
  have reach: "nodes_reach ?w"
    by (rule last_parts_reach[OF w(3) b3(2) b4])
      (use free assms(3) self(1) in \<open>simp_all add: internal_inode_def\<close>)
  have "\<forall>i \<in> {protectedCaller, selfNodeId, permissionCaller}.
      \<exists>k. rp_nodes (bus_responses b4) i = Some (internal_inode k i)"
    using assms(4) self(1) by (intro last_parts_routes[OF b3(2) b4 _ w(8,9)]) simp
  moreover have "a_commands (bus_api b4) (m_ID ?man @ ''.'' @ cm_Name c) = Some (m_ID ?man) \<and>
      (cm_Risk c = R_Admin \<longrightarrow> m_ID ?man @ ''.'' @ cm_Name c \<in> set (pm_adminCommands (w_perm ?w)))"
    if "c \<in> set (m_Api ?man)" for c
    using that self by (auto simp: bus_Register_tables(4)[OF b4] RegisterNode_admin)
  moreover have "a_nodes (bus_api b4) (m_ID ?man) = Some ?self"
    using bus_Register_tables(3)[OF b4] self(1) by simp
  moreover have "w_registry ?w = els" "w_nodes ?w = fst (nodes_New ?ne (w_registry ?w))"
    "w_perm ?w = RegisterNode (Some ?man) (perm_New (hb_permissions env))" using w(5-7) by simp_all
  ultimately show ?thesis using up reach unfolding els_def
    by (intro exI[of _ ?w] exI[of _ "Suc ?ptr"]) simp
qed


text \<open>A daemon with one installed node and a manifest of its own with one administrative command.\<close>

definition wipe_command :: Command where
  "wipe_command = \<lparr>cm_Name = ''wipe'', cm_Description = [], cm_Risk = R_Admin, cm_Usage = [], cm_Inputs = None,
     cm_Outputs = None, cm_Notes = None\<rparr>"

definition small_hub :: hub_env where
  "small_hub = \<lparr>hb_nodes = quiet_nodes\<lparr>ne_fs := two_files,
       ne_yaml := (\<lambda>c m. (if c = ''b'' then m\<lparr>m_ID := spore_id, m_Api := [wipe_command]\<rparr> else m, False))\<rparr>,
     hb_registry = RegElements [plain_element], hb_rdisk = working_registry, hb_permissions = FileNotExist,
     hb_pdisk = working_disk, hb_manifest_path = ''b''\<rparr>"


section \<open>The accept loop\<close>

datatype 'c accept_result = Accepted 'c | AcceptFailed string | ListenerClosed

datatype 'c hub_effect =
    HubLog error
  | HubEndpoint endpoint_call
  | HubAutostart
  | HubServe 'c \<comment> \<open>a goroutine for the connection\<close>

definition accept_failed :: "string \<Rightarrow> error" where
  "accept_failed e = error_New C_ConnectionFailure Mod_Hub ''Failed to accept new connection'' [Pair ''error'' e]"

text \<open>\<open>None\<close>: the loop never ends.\<close>

partial_function (option) accept_loop ::
  "(nat \<Rightarrow> 'c accept_result) \<Rightarrow> nat \<Rightarrow> 'c hub_effect list option" where
  "accept_loop accept k =
     (case accept k of
        ListenerClosed \<Rightarrow> Some []
      | AcceptFailed e \<Rightarrow>
          Option.bind (accept_loop accept (Suc k)) (\<lambda>effs. Some (HubLog (accept_failed e) # effs))
      | Accepted conn \<Rightarrow>
          Option.bind (accept_loop accept (Suc k)) (\<lambda>effs. Some (HubServe conn # effs)))"

definition init_failed :: "string \<Rightarrow> string \<Rightarrow> error" where
  "init_failed what e = error_New C_InitializationFailure Mod_Hub what [Pair ''error'' e]"

definition hub_listen ::
  "pal \<Rightarrow> remove_result \<Rightarrow> string option \<Rightarrow> string option \<Rightarrow> (nat \<Rightarrow> 'c accept_result) \<Rightarrow>
     'c hub_effect list option" where
  "hub_listen p remove listen chmod accept =
     (case removeLocalEndpoint remove of
        Some e \<Rightarrow> Some [HubLog (init_failed ''Failed to remove local endpoint'' e)]
      | None \<Rightarrow>
          (case listenLocal p listen chmod of
             (Some e, calls) \<Rightarrow>
               Some (map HubEndpoint calls @ [HubLog (init_failed ''Failed to listen on socket'' e)])
           | (None, calls) \<Rightarrow>
               Option.bind (accept_loop accept 0) (\<lambda>effs.
                 Some (map HubEndpoint calls @ HubAutostart # effs @ [HubEndpoint CloseListener]))))"

fun served :: "'c accept_result \<Rightarrow> 'c hub_effect list" where
  "served (Accepted conn) = [HubServe conn]"
| "served (AcceptFailed e) = [HubLog (accept_failed e)]"
| "served ListenerClosed = []"

lemma accept_loop_closed:
  "\<lbrakk>accept (k + n) = ListenerClosed; \<forall>i<n. accept (k + i) \<noteq> ListenerClosed\<rbrakk> \<Longrightarrow>
     accept_loop accept k = Some (concat (map (\<lambda>i. served (accept (k + i))) [0..<n]))"
proof (induction n arbitrary: k)
  case 0
  then show ?case by (subst accept_loop.simps) simp
next
  case (Suc n)
  have "accept_loop accept (Suc k) = Some (concat (map (\<lambda>i. served (accept (Suc k + i))) [0..<n]))"
    using Suc.prems by (intro Suc.IH) auto
  moreover have "map (\<lambda>i. served (accept (k + i))) [0..<Suc n]
      = served (accept k) # map (\<lambda>i. served (accept (Suc k + i))) [0..<n]"
    by (simp add: map_upt_Suc del: upt_Suc)
  moreover have "accept k \<noteq> ListenerClosed" using Suc.prems(2) by force
  ultimately show ?case
    by (subst accept_loop.simps) (auto split: accept_result.split simp del: upt_Suc)
qed

lemma accept_loop_returns: "accept_loop accept k = Some effs \<Longrightarrow> \<exists>n\<ge>k. accept n = ListenerClosed"
proof (rule accept_loop.raw_induct[where P = "\<lambda>acc k effs. \<exists>n\<ge>k. acc n = ListenerClosed"])
  fix loop :: "(nat \<Rightarrow> 'a accept_result) \<Rightarrow> nat \<Rightarrow> 'a hub_effect list option" and acc k effs
  assume ih: "\<And>acc k effs. loop acc k = Some effs \<Longrightarrow> \<exists>n\<ge>k. acc n = ListenerClosed"
    and eq: "(case acc k of ListenerClosed \<Rightarrow> Some []
      | AcceptFailed e \<Rightarrow> Option.bind (loop acc (Suc k)) (\<lambda>effs. Some (HubLog (accept_failed e) # effs))
      | Accepted conn \<Rightarrow> Option.bind (loop acc (Suc k)) (\<lambda>effs. Some (HubServe conn # effs))) = Some effs"
  show "\<exists>n\<ge>k. acc n = ListenerClosed"
  proof (cases "acc k")
    case ListenerClosed
    then show ?thesis by blast
  next
    case (Accepted conn)
    with eq ih show ?thesis by (fastforce simp: bind_eq_Some_conv dest: Suc_leD)
  next
    case (AcceptFailed e)
    with eq ih show ?thesis by (fastforce simp: bind_eq_Some_conv dest: Suc_leD)
  qed
qed

text \<open>
  C32. The accept loop ends exactly when the listener is closed, and until then it serves everyone. Once
  the endpoint is open, the nodes marked for it are started first; then every accepted connection is
  handed to the node table, once and in its order, whatever other calls of Accept fail, and if the
  listener is closed at some time the loop ends then and closes it. As long as it is not closed the
  loop goes on for ever, without a pause even when every Accept fails. Nothing is accepted when the
  endpoint cannot be opened, and a listener opened by then is closed again.
\<close>
theorem hub_serves_until_closed:
  assumes "removeLocalEndpoint remove = None" "listenLocal p listen chmod = (e, calls)"
  shows "case e of
      Some err \<Rightarrow> hub_listen p remove listen chmod accept
          = Some (map HubEndpoint calls @ [HubLog (init_failed ''Failed to listen on socket'' err)]) \<and>
        (calls = [Listen (FileSocket p)] \<or> last calls = CloseListener)
    | None \<Rightarrow>
        (if \<exists>n. accept n = ListenerClosed
         then hub_listen p remove listen chmod accept
           = Some (map HubEndpoint calls @ HubAutostart #
                   concat (map (served \<circ> accept) [0..<LEAST n. accept n = ListenerClosed]) @ [HubEndpoint CloseListener])
         else hub_listen p remove listen chmod accept = None)"
proof (cases e)
  case (Some err)
  with assms have "calls = [Listen (FileSocket p)] \<or> last calls = CloseListener"
    by (auto simp: listenLocal_def Let_def split: option.splits)
  with Some assms show ?thesis by (simp add: hub_listen_def)
next
  case None
  show ?thesis
  proof (cases "\<exists>n. accept n = ListenerClosed")
    case True
    define n where "n = (LEAST n. accept n = ListenerClosed)"
    have "accept n = ListenerClosed" "\<forall>i<n. accept i \<noteq> ListenerClosed"
      using LeastI_ex[OF True] not_less_Least unfolding n_def by blast+
    then have "accept_loop accept 0 = Some (concat (map (served \<circ> accept) [0..<n]))"
      using accept_loop_closed[of accept 0 n] by (simp add: comp_def)
    with True None assms show ?thesis by (simp add: hub_listen_def n_def[symmetric])
  next
    case False
    with accept_loop_returns[of accept 0] have "accept_loop accept 0 = None" by (cases "accept_loop accept 0") auto
    with False None assms show ?thesis by (simp add: hub_listen_def)
  qed
qed

theorem hub_serves_until_closed_witness:
  "hub_listen linux NotThere None None (\<lambda>k. if k = 0 then Accepted ''a'' else ListenerClosed) =
     Some (map HubEndpoint [Listen (FileSocket linux), Chmod (FileSocket linux)] @
           [HubAutostart, HubServe ''a'', HubEndpoint CloseListener])"
proof -
  let ?acc = "\<lambda>k::nat. if k = 0 then Accepted ''a'' else ListenerClosed"
  have l: "(LEAST n. ?acc n = ListenerClosed) = 1"
    by (rule Least_equality) (auto intro: Suc_leI split: if_splits)
  have r: "removeLocalEndpoint NotThere = None" by (simp add: removeLocalEndpoint_def)
  have c: "listenLocal linux None None = (None, [Listen (FileSocket linux), Chmod (FileSocket linux)])"
    by (simp add: listenLocal_def)
  have ex: "\<exists>n. ?acc n = ListenerClosed" by (rule exI[of _ 1]) simp
  from hub_serves_until_closed[OF r c, of ?acc] ex l show ?thesis by simp
qed

section \<open>The end\<close>

text \<open>
  \<open>Close\<close> takes the hyphae and the daemon's own node off the bus; the bus, the node table and the
  permission manager have nothing to close. \<open>None\<close> is a call that blocks on the bus.
\<close>

definition hub_Close ::
  "nat \<Rightarrow> nat \<Rightarrow> Manifest \<Rightarrow> bool \<Rightarrow> remove_result \<Rightarrow> world \<Rightarrow> (world \<times> 'c hub_effect list) option" where
  "hub_Close hyphae self man listening remove w =
     (case bus_Unregister (internal_inode hyphae protectedCaller) (w_bus w) of
        None \<Rightarrow> None
      | Some b \<Rightarrow>
          map_option (\<lambda>b1. (w\<lparr>w_bus := b1\<rparr>,
              (if listening then [HubEndpoint CloseListener] else []) @
              (case removeLocalEndpoint remove of
                 None \<Rightarrow> []
               | Some e \<Rightarrow> [HubLog (error_New C_ConnectionFailure Mod_Hub
                             ''Failed to remove local endpoint'' [Pair ''error'' e])])))
            (bus_Unregister (spore_inode self man) b))"

text \<open>
  The program around the hub: a stop before the start has set the hub is a call on nil, a panic; so
  is \<open>None\<close> here.
\<close>

record program = pg_hub :: "world option"

definition program_Start :: "hub_env \<Rightarrow> program \<Rightarrow> int + program" where
  "program_Start env p =
     (case hub_New env of Inl code \<Rightarrow> Inl code | Inr hub \<Rightarrow> Inr (p\<lparr>pg_hub := hub\<rparr>))"

definition program_Stop :: "(world \<Rightarrow> 'r option) \<Rightarrow> program \<Rightarrow> 'r option" where
  "program_Stop Close p = (case pg_hub p of None \<Rightarrow> None | Some hub \<Rightarrow> Close hub)"

text \<open>After the end no command of the daemon has an answer any more, and nothing was routed elsewhere.\<close>

lemma hub_Close_routes:
  assumes "hub_Close hyphae self man listening remove w = Some (w1, effs)" "c \<in> set (m_Api man)"
  shows "a_commands (bus_api (w_bus w1)) (m_ID man @ ''.'' @ cm_Name c) = None"
proof -
  obtain b where "bus_Unregister (spore_inode self man) b = Some (w_bus w1)"
    using assms(1) by (auto simp: hub_Close_def split: option.splits)
  from bus_Unregister_parts[OF this] have "bus_api (w_bus w1) = api_unregister (spore_inode self man) (bus_api b)" .
  with assms(2) show ?thesis
    by (auto simp: api_unregister_tables spore_inode_def node_commands_def)
qed

end
