(* ===== verification/Program.thy ===== *)
theory Program
  imports Platform
begin

text \<open>
  The command line of the daemon (spored/main.go): its subcommands, and how the daemon is run without
  one. What the program does to the system is the list of its effects, in order; what the system
  answers is the environment. The library that talks to the service manager and the logging library
  are only called.
\<close>

text \<open>
  \<open>StartCommand\<close> does not wait for the process, \<open>RunCommand\<close> does. \<open>LogFatal\<close> ends the program with
  status 1.
\<close>

datatype main_effect =
    StartCommand string "string list"
  | RunCommand string "string list"
  | ServiceControl string
  | LogFatal string
  | LogPrint string
  | LogTo "string list"
  | RunConsole
  | StopConsole
  | RunService
  | ExitWith int

record main_env =
  mn_goos :: string
  mn_pal :: pal
  mn_service_new :: "string option"
  mn_start :: "string option"
  mn_launchctl :: "string list \<Rightarrow> (string \<times> string) option" \<comment> \<open>its error and its output\<close>
  mn_control :: "string option"
  mn_interactive :: bool
  mn_logfile :: "string option"
  mn_run :: "string option"

definition serviceName :: string where "serviceName = ''dev.sporeos.spored''"

definition darwinLaunchctl :: "main_env \<Rightarrow> string list \<Rightarrow> string option" where
  "darwinLaunchctl env args =
     map_option (\<lambda>(err, out). ''launchctl ['' @ Join args '' '' @ '']: '' @ err @ [NL] @ out)
       (mn_launchctl env args)"

definition control_failed :: "string \<Rightarrow> string \<Rightarrow> string" where
  "control_failed cmd err = ''Service control failed ('' @ cmd @ ''): '' @ err"

definition service_control :: "main_env \<Rightarrow> string \<Rightarrow> main_effect list" where
  "service_control env cmd =
     ServiceControl cmd # (case mn_control env of None \<Rightarrow> [] | Some err \<Rightarrow> [LogFatal (control_failed cmd err)])"

definition plist :: string where
  "plist = ''/Library/LaunchDaemons/'' @ serviceName @ ''.plist''"

definition bootstrapScript :: string where
  "bootstrapScript = ''sleep 1 && launchctl bootstrap system '' @ plist @ '' &>/dev/null''"

text \<open>The subcommands macOS handles itself; \<open>None\<close> for one that goes on to the service manager.\<close>

definition darwin_command :: "main_env \<Rightarrow> string \<Rightarrow> main_effect list \<times> bool" where
  "darwin_command env cmd =
     (let bootout = RunCommand ''launchctl'' [''bootout'', ''system'', plist] in
      if cmd = ''start'' then
        (RunCommand ''launchctl'' [''bootstrap'', ''system'', plist] #
         (case darwinLaunchctl env [''bootstrap'', ''system'', plist] of
            None \<Rightarrow> [] | Some err \<Rightarrow> [LogFatal (control_failed ''start'' err)]), False)
      else if cmd = ''stop'' then
        (bootout #
         (case darwinLaunchctl env [''bootout'', ''system'', plist] of
            None \<Rightarrow> []
          | Some err \<Rightarrow> [LogPrint (''Service stop may have failed (not running?): '' @ err)]), False)
      else if cmd = ''restart'' then
        ([RunCommand ''/bin/sh'' [''-c'', bootstrapScript @ '' &''], bootout], False)
      else if cmd = ''uninstall'' then ([bootout], True)
      else ([], True))"

definition main_command :: "main_env \<Rightarrow> string \<Rightarrow> main_effect list" where
  "main_command env cmd =
     (case mn_service_new env of
        Some err \<Rightarrow> [LogFatal (''Failed to create service: '' @ err)]
      | None \<Rightarrow>
          if cmd = ''home'' then
            StartCommand (commandOpenFileManager (mn_pal env)) [directoryRoot (mn_pal env)] #
            (case mn_start env of None \<Rightarrow> [] | Some err \<Rightarrow> [LogFatal (''Could not open file manager: '' @ err)])
          else if mn_goos env = ''darwin'' then
            (case darwin_command env cmd of
               (effs, goes_on) \<Rightarrow> effs @ (if goes_on then service_control env cmd else []))
          else service_control env cmd)"

definition main_daemon :: "main_env \<Rightarrow> main_effect list" where
  "main_daemon env =
     (if mn_interactive env then [LogTo [''stdout''], RunConsole, StopConsole]
      else case mn_logfile env of
             Some err \<Rightarrow>
               [LogFatal (''CRITICAL: Failed to open daemon log file '' @ FileLog (mn_pal env) @ '': '' @ err)]
           | None \<Rightarrow>
               LogTo [''stdout'', FileLog (mn_pal env)] #
               (case mn_service_new env of
                  Some err \<Rightarrow> [ExitWith 1]
                | None \<Rightarrow> RunService # (case mn_run env of None \<Rightarrow> [] | Some err \<Rightarrow> [ExitWith 1])))"

definition main :: "main_env \<Rightarrow> string list \<Rightarrow> main_effect list" where
  "main env args = (if length args > 1 then main_command env (args ! 1) else main_daemon env)"

section \<open>Lemmas\<close>

text \<open>
  A subcommand never becomes the daemon. Start, stop and restart are handled on macOS without the
  service manager, uninstall unloads the service before its file is removed, and everything else but
  home is passed on as it is.
\<close>

definition is_run :: "main_effect \<Rightarrow> bool" where
  "is_run e \<longleftrightarrow> (case e of RunConsole \<Rightarrow> True | RunService \<Rightarrow> True | ServiceControl c \<Rightarrow> True | _ \<Rightarrow> False)"

lemma darwin_command_effects: "e \<in> set (fst (darwin_command env cmd)) \<Longrightarrow> \<not> is_run e"
  by (cases e) (simp_all add: darwin_command_def Let_def is_run_def split: if_splits option.splits)

lemma darwin_command_goes_on:
  "snd (darwin_command env cmd) \<longleftrightarrow> cmd \<notin> {''start'', ''stop'', ''restart''}"
  by (simp add: darwin_command_def Let_def)

lemma service_control_effects:
  "e \<in> set (service_control env cmd) \<Longrightarrow> is_run e \<Longrightarrow> e = ServiceControl cmd"
  by (auto simp: service_control_def is_run_def split: option.splits)

lemma subcommands_are_passed_on:
  assumes "mn_service_new env = None" "cmd \<noteq> ''home''"
  shows "filter is_run (main_command env cmd) =
     (if mn_goos env = ''darwin'' \<and> cmd \<in> {''start'', ''stop'', ''restart''} then [] else [ServiceControl cmd])"
proof -
  have "filter is_run (service_control env cmd) = [ServiceControl cmd]"
    by (simp add: service_control_def is_run_def split: option.split)
  moreover have "filter is_run (fst (darwin_command env cmd)) = []"
    using darwin_command_effects by (auto simp: filter_empty_conv)
  moreover obtain effs goes_on where d: "darwin_command env cmd = (effs, goes_on)" by (metis surj_pair)
  moreover have "goes_on \<longleftrightarrow> cmd \<notin> {''start'', ''stop'', ''restart''}"
    using darwin_command_goes_on[of env cmd] d by simp
  ultimately show ?thesis
    using assms by (cases goes_on) (simp_all add: main_command_def)
qed

text \<open>The daemon is only run with a place to log to.\<close>

lemma daemon_logs:
  "main_daemon env = effs \<Longrightarrow> RunService \<in> set effs \<or> RunConsole \<in> set effs \<Longrightarrow>
     \<exists>ws rest. effs = LogTo (''stdout'' # ws) # rest"
  by (auto simp: main_daemon_def split: if_splits option.splits)

end
