(* ===== verification/Logging.thy ===== *)
theory Logging
  imports Prelude
begin

text \<open>
  The log records of the daemon (spored/internal/logging/logging.go): the handler of package slog that
  prints a record as one line, and the lines of many goroutines on one writer. A level is an integer; the
  value of an attribute is the text the formatter prints for it, and so is the time. The line that names
  a place of the source (spored/internal/utilities/loc/loc.go) is here too.
\<close>

definition color :: "string \<Rightarrow> string" where
  "color code = CHR 0x1B # ''['' @ code @ ''m''"

definition Reset :: string where "Reset = color ''0''"
definition Red :: string where "Red = color ''31''"
definition Green :: string where "Green = color ''32''"
definition Yellow :: string where "Yellow = color ''33''"
definition Blue :: string where "Blue = color ''34''"

record attr =
  at_Key :: string
  at_Value :: string

record PlainHandler =
  ph_level :: int
  ph_attrs :: "attr list"

definition NewPlainHandler :: "int \<Rightarrow> PlainHandler" where
  "NewPlainHandler level = \<lparr>ph_level = level, ph_attrs = []\<rparr>"

definition Enabled :: "int \<Rightarrow> PlainHandler \<Rightarrow> bool" where
  "Enabled level h \<longleftrightarrow> ph_level h \<le> level"

text \<open>The name of a level, as slog prints it: levels between the named ones carry their distance.\<close>

definition level_String :: "int \<Rightarrow> string" where
  "level_String l =
     (let str = (\<lambda>base d. if d = 0 then base else base @ (if d < 0 then [] else ''+'') @ show_int d)
      in if l < 0 then str ''DEBUG'' (l + 4)
         else if l < 4 then str ''INFO'' l
         else if l < 8 then str ''WARN'' (l - 4)
         else str ''ERROR'' (l - 8))"

definition level_mark :: "string \<Rightarrow> string" where
  "level_mark levelStr =
     (if levelStr = ''DEBUG'' then Blue @ ''  [DEBUG]  '' @ Reset
      else if levelStr = ''INFO'' then Green @ '' -[.INFO]- '' @ Reset
      else if levelStr = ''WARN'' then Yellow @ ''!-[.WARN]-!'' @ Reset
      else if levelStr = ''ERROR'' then Red @ ''X=[ERROR]=X'' @ Reset
      else levelStr)"

definition attr_text :: "attr \<Rightarrow> string" where
  "attr_text a = '' '' @ at_Key a @ ''='' @ at_Value a"

definition Handle_record :: "string \<Rightarrow> int \<Rightarrow> string \<Rightarrow> attr list \<Rightarrow> PlainHandler \<Rightarrow> string" where
  "Handle_record timeStr level message attrs h =
     timeStr @ '' '' @ level_mark (level_String level) @ '' '' @ message @
     concat (map attr_text (ph_attrs h)) @ concat (map attr_text attrs) @ [NL]"

definition WithAttrs :: "attr list \<Rightarrow> PlainHandler \<Rightarrow> PlainHandler" where
  "WithAttrs attrs h = h\<lparr>ph_attrs := ph_attrs h @ attrs\<rparr>"

definition WithGroup :: "string \<Rightarrow> PlainHandler \<Rightarrow> PlainHandler" where
  "WithGroup name h = h"

text \<open>
  Attributes given to the handler and to the record print alike, in the order they were given, and a
  handler with more attributes lets through the same records.
\<close>

lemma attributes_in_order:
  "Handle_record t l m bs (WithAttrs as h) = Handle_record t l m (as @ bs) h"
  "WithAttrs bs (WithAttrs as h) = WithAttrs (as @ bs) h"
  "Enabled l (WithAttrs as h) = Enabled l h"
  by (simp_all add: Handle_record_def WithAttrs_def Enabled_def)

text \<open>What \<open>Print\<close> of package loc prints; \<open>None\<close>: the runtime does not know the caller.\<close>

definition loc_Print :: "(string \<times> int) option \<Rightarrow> string" where
  "loc_Print caller = (case caller of None \<Rightarrow> ''unknown: -1'' | Some (f, l) \<Rightarrow> f @ '': '' @ show_int l) @ [NL]"

section \<open>Many goroutines, one writer\<close>

text \<open>
  A handler and every handler made from it share a mutex and a writer. \<open>lo_holder\<close> is the goroutine that
  holds the mutex and what it has still to write; the writer may take its line in pieces.
  \<open>lo_lines\<close> are the lines of the records so far, in the order in which they got the mutex.
\<close>

record log_output =
  lo_written :: string
  lo_holder :: "(nat \<times> string) option"
  lo_lines :: "string list"

definition log_New :: log_output where
  "log_New = \<lparr>lo_written = [], lo_holder = None, lo_lines = []\<rparr>"

inductive log_step :: "log_output \<Rightarrow> log_output \<Rightarrow> bool" where
  lock: "\<lbrakk>lo_holder o1 = None; line = Handle_record t level message attrs h\<rbrakk> \<Longrightarrow>
     log_step o1 (o1\<lparr>lo_holder := Some (g, line), lo_lines := lo_lines o1 @ [line]\<rparr>)"
| piece: "lo_holder o1 = Some (g, now @ later) \<Longrightarrow>
     log_step o1 (o1\<lparr>lo_written := lo_written o1 @ now, lo_holder := Some (g, later)\<rparr>)"
| unlock: "lo_holder o1 = Some (g, []) \<Longrightarrow> log_step o1 (o1\<lparr>lo_holder := None\<rparr>)"

inductive log_reach :: "log_output \<Rightarrow> bool" where
  new: "log_reach log_New"
| step: "\<lbrakk>log_reach o1; log_step o1 o2\<rbrakk> \<Longrightarrow> log_reach o2"

text \<open>
  Lines stay whole. Whatever goroutines log at the same time, what is written is the lines of the records
  one after the other, each once and in the order in which they got the mutex, but for the part of the
  last one that is still to be written.
\<close>

lemma log_lines_stay_whole:
  assumes "log_reach o1"
  shows "lo_written o1 @ (case lo_holder o1 of Some (g, later) \<Rightarrow> later | None \<Rightarrow> []) = concat (lo_lines o1)"
  using assms
proof (induction rule: log_reach.induct)
  case (step o1 o2)
  from step(2,3) show ?case by cases auto
qed (simp add: log_New_def)

end
