(* ===== verification/Bus_Tables.thy ===== *)
theory Bus_Tables
  imports Bus
begin

text \<open>
  The tables of the bus in step with each other (spored/internal/bus): the request, the broadcast and
  the response side each keep a table of the registered nodes, and the witness list one of those that
  watch.
\<close>

section \<open>Runs of the bus\<close>

datatype bus_op =
    BusRegister inode
  | BusUnregister inode
  | BusSubscribe string string
  | BusUnsubscribe string string
  | BusRequest int int message
  | BusResponse message

text \<open>\<open>None\<close> when the operation waits for the mutex of the response table for ever.\<close>

fun bus_step :: "'p can option \<Rightarrow> receive_with \<Rightarrow> bus_op \<Rightarrow> bus \<times> 'p \<Rightarrow> (bus \<times> 'p) option" where
  "bus_step can receive (BusRegister n) (b, p) = map_option (\<lambda>b'. (b', p)) (bus_Register n b)"
| "bus_step can receive (BusUnregister n) (b, p) = map_option (\<lambda>b'. (b', p)) (bus_Unregister n b)"
| "bus_step can receive (BusSubscribe cast topic) (b, p) = Some (snd (bus_Subscribe cast topic b), p)"
| "bus_step can receive (BusUnsubscribe cast topic) (b, p) = Some (snd (bus_Unsubscribe cast topic b), p)"
| "bus_step can receive (BusRequest now1 now2 msg) (b, p) =
     map_option snd (bus_Request can receive now1 now2 msg b p)"
| "bus_step can receive (BusResponse msg) (b, p) = map_option (\<lambda>(_, b'). (b', p)) (bus_Response msg b)"

fun bus_run :: "'p can option \<Rightarrow> receive_with \<Rightarrow> bus_op list \<Rightarrow> bus \<times> 'p \<Rightarrow> (bus \<times> 'p) option" where
  "bus_run can receive [] s = Some s"
| "bus_run can receive (op # ops) s = Option.bind (bus_step can receive op s) (bus_run can receive ops)"

section \<open>The tables agree\<close>

text \<open>
  \<open>pipes\<close> is the id of the pipe runner, the one node that only the response side knows; a node that
  registered under its id hides it there.
\<close>

definition tables_agree :: "bus \<Rightarrow> bool" where
  "tables_agree b \<longleftrightarrow>
     nodes_by_id (a_nodes (bus_api b)) \<and>
     b_nodes (bus_broadcast b) = a_nodes (bus_api b) \<and>
     (\<forall>i. i \<noteq> n_id pipe_inode \<longrightarrow> rp_nodes (bus_responses b) i = a_nodes (bus_api b) i) \<and>
     api_inv (bus_api b) \<and>
     distinct (map n_ptr (bus_witness b)) \<and> (\<forall>w \<in> set (bus_witness b). n_isWitness w)"

text \<open>\<open>receive\<close> answers requests, and registers nobody.\<close>

definition keeps_nodes :: "receive_with \<Rightarrow> bool" where
  "keeps_nodes receive \<longleftrightarrow> (\<forall>n msg r e r'. receive n msg r = Some (e, r') \<longrightarrow> rp_nodes r' = rp_nodes r)"

lemma broadcast_nodes:
  "broadcast_subscribe cast topic b = (e, b1) \<Longrightarrow> b_nodes b1 = b_nodes b"
  "broadcast_unsubscribe cast topic b = (e, b1) \<Longrightarrow> b_nodes b1 = b_nodes b"
  by (auto simp: broadcast_subscribe_def broadcast_unsubscribe_def split: sum.splits if_splits)

lemma responses_nodes:
  "responses_register n r = Some r1 \<Longrightarrow> rp_nodes r1 = (rp_nodes r)(n_id n \<mapsto> n)"
  "responses_unregister n r = Some r1 \<Longrightarrow> rp_nodes r1 = (rp_nodes r)(n_id n := None)"
  "responses_request now1 now2 msg r = Some (e, r1) \<Longrightarrow> rp_nodes r1 = rp_nodes r"
  "responses_cancel h r = Some r1 \<Longrightarrow> rp_nodes r1 = rp_nodes r"
  "responses_response msg r = Some (e, t, r1) \<Longrightarrow> rp_nodes r1 = rp_nodes r"
  by (auto simp: resp_defs split: if_splits option.splits)

lemma witness_ptrs:
  assumes "distinct (map n_ptr w)" "\<forall>x \<in> set w. n_isWitness x"
  shows "distinct (map n_ptr (witness_register n w)) \<and> (\<forall>x \<in> set (witness_register n w). n_isWitness x)"
    "distinct (map n_ptr (witness_unregister n w)) \<and> (\<forall>x \<in> set (witness_unregister n w). n_isWitness x)"
proof -
  show "distinct (map n_ptr (witness_register n w)) \<and> (\<forall>x \<in> set (witness_register n w). n_isWitness x)"
    using assms by (auto simp: witness_register_def holds_node_def)
  have "distinct (map n_ptr v) \<and> (\<forall>x \<in> set v. n_isWitness x)" if "mset v \<subseteq># mset w" for v
  proof -
    obtain rest where "mset rest = mset w - mset v" using ex_mset by blast
    with that have "mset (v @ rest) = mset w" by (simp add: subset_mset.add_diff_inverse)
    then have "mset (map n_ptr (v @ rest)) = mset (map n_ptr w)" by (metis mset_map)
    with assms(1) have "distinct (map n_ptr (v @ rest))" using mset_eq_imp_distinct_iff by blast
    then have "distinct (map n_ptr v)" by simp
    with set_mset_mono[OF that] assms(2) show ?thesis by auto
  qed
  moreover have "mset (witness_unregister n w) \<subseteq># mset w"
    using index_of_less[of "n_ptr n" w] mset_swap_remove[of "index_of (n_ptr n) w" w]
    by (simp add: witness_unregister_def holds_node_def)
  ultimately show "distinct (map n_ptr (witness_unregister n w)) \<and>
      (\<forall>x \<in> set (witness_unregister n w). n_isWitness x)" by blast
qed

lemma tables_agree_step:
  assumes "bus_step can receive op (b, p) = Some (b', p')" "keeps_nodes receive" "tables_agree b"
  shows "tables_agree b'"
proof (cases op)
  case (BusRegister n)
  then obtain r where r: "responses_register n (bus_responses b) = Some r"
    "b' = \<lparr>bus_api = api_register n (bus_api b), bus_broadcast = broadcast_register n (bus_broadcast b),
       bus_responses = r, bus_witness = witness_register n (bus_witness b)\<rparr>"
    using assms(1) by (auto simp: bus_Register_def)
  from assms(3) show ?thesis
    unfolding tables_agree_def r(2) bus.select_convs
    using witness_ptrs(1)[of "bus_witness b" n]
    by (simp add: responses_nodes(1)[OF r(1)] api_register_tables api_inv_register broadcast_register_def
        nodes_by_id_def)
next
  case (BusUnregister n)
  then obtain r where r: "responses_unregister n (bus_responses b) = Some r"
    "b' = \<lparr>bus_api = api_unregister n (bus_api b), bus_broadcast = broadcast_unregister n (bus_broadcast b),
       bus_responses = r, bus_witness = witness_unregister n (bus_witness b)\<rparr>"
    using assms(1) by (auto simp: bus_Unregister_def)
  from assms(3) show ?thesis
    unfolding tables_agree_def r(2) bus.select_convs
    using witness_ptrs(2)[of "bus_witness b" n]
    by (simp add: responses_nodes(2)[OF r(1)] api_unregister_tables api_inv_unregister broadcast_unregister_def
        nodes_by_id_def)
next
  case (BusSubscribe cast topic)
  with assms(1,3) show ?thesis
    by (auto simp: tables_agree_def bus_Subscribe_def split: prod.splits dest!: broadcast_nodes)
next
  case (BusUnsubscribe cast topic)
  with assms(1,3) show ?thesis
    by (auto simp: tables_agree_def bus_Unsubscribe_def split: prod.splits dest!: broadcast_nodes)
next
  case (BusRequest now1 now2 msg)
  then obtain r where q: "bus_Request can receive now1 now2 msg b p = Some (r, b', p')"
    using assms(1) by auto
  from bus_Request_parts[OF q] obtain rs where "b' = b\<lparr>bus_responses := rs\<rparr>" by blast
  moreover have "rp_nodes (bus_responses b') = rp_nodes (bus_responses b)"
    using q assms(2) unfolding bus_Request_def keeps_nodes_def
    by (auto split: option.splits prod.splits dest!: responses_nodes(3,4))
  ultimately show ?thesis using assms(3) by (simp add: tables_agree_def)
next
  case (BusResponse msg)
  with assms(1,3) show ?thesis
    by (auto simp: tables_agree_def bus_Response_def dest!: responses_nodes(5))
qed

lemma tables_agree_New: "tables_agree bus_New"
  by (simp add: tables_agree_def bus_New_def nodes_by_id_def newApi_def newBroadcast_def newResponses_def
      newWitness_def api_inv_new[unfolded newApi_def])

lemma tables_agree_run:
  "\<lbrakk>bus_run can receive ops s = Some s'; keeps_nodes receive; tables_agree (fst s)\<rbrakk> \<Longrightarrow> tables_agree (fst s')"
proof (induction ops arbitrary: s)
  case (Cons op ops)
  then obtain s1 where s1: "bus_step can receive op s = Some s1" "bus_run can receive ops s1 = Some s'"
    by (auto split: bind_splits)
  with tables_agree_step[of can receive op "fst s" "snd s" "fst s1" "snd s1"] Cons.IH[of s1] Cons.prems(2,3)
  show ?case by simp
qed simp



end
