(* ===== verification/Lock_Order.thy ===== *)
theory Lock_Order
  imports Main
begin

text \<open>
  Goroutines that take and release read-write mutexes (package sync of Go), and why an order on the
  mutexes keeps them from waiting for each other for ever. A writer first announces itself, which
  stops new readers, and then waits for the readers that are left: a goroutine that reads a mutex it
  already reads may wait for a writer that waits for it.
\<close>

section \<open>Goroutines\<close>

datatype 'l act = RLock 'l | RUnlock 'l | Lock 'l | Unlock 'l

text \<open>
  What a goroutine holds (with True for writing), whether it has announced the \<open>Lock\<close> its program
  starts with, and what it still has to do.
\<close>

record 'l routine =
  g_held :: "('l \<times> bool) list"
  g_waits :: bool
  g_todo :: "'l act list"

definition routine_of :: "'l act list \<Rightarrow> 'l routine" where
  "routine_of todo = \<lparr>g_held = [], g_waits = False, g_todo = todo\<rparr>"

definition reads :: "'l \<Rightarrow> 'l routine \<Rightarrow> bool" where
  "reads l g \<longleftrightarrow> (l, False) \<in> set (g_held g)"

text \<open>A writer, or one that has announced itself.\<close>

definition claims :: "'l \<Rightarrow> 'l routine \<Rightarrow> bool" where
  "claims l g \<longleftrightarrow> (l, True) \<in> set (g_held g) \<or>
     g_waits g \<and> (case g_todo g of Lock l' # _ \<Rightarrow> l' = l | _ \<Rightarrow> False)"

text \<open>The next step of a goroutine among all of them; \<open>None\<close> when it has to wait or is done.\<close>

fun g_step :: "'l routine list \<Rightarrow> 'l routine \<Rightarrow> 'l routine option" where
  "g_step gs \<lparr>g_held = held, g_waits = waits, g_todo = []\<rparr> = None"
| "g_step gs \<lparr>g_held = held, g_waits = waits, g_todo = RLock l # todo\<rparr> =
     (if list_ex (claims l) gs then None
      else Some \<lparr>g_held = (l, False) # held, g_waits = waits, g_todo = todo\<rparr>)"
| "g_step gs \<lparr>g_held = held, g_waits = False, g_todo = Lock l # todo\<rparr> =
     (if list_ex (claims l) gs then None
      else Some \<lparr>g_held = held, g_waits = True, g_todo = Lock l # todo\<rparr>)"
| "g_step gs \<lparr>g_held = held, g_waits = True, g_todo = Lock l # todo\<rparr> =
     (if list_ex (reads l) gs then None
      else Some \<lparr>g_held = (l, True) # held, g_waits = False, g_todo = todo\<rparr>)"
| "g_step gs \<lparr>g_held = held, g_waits = waits, g_todo = RUnlock l # todo\<rparr> =
     Some \<lparr>g_held = remove1 (l, False) held, g_waits = waits, g_todo = todo\<rparr>"
| "g_step gs \<lparr>g_held = held, g_waits = waits, g_todo = Unlock l # todo\<rparr> =
     Some \<lparr>g_held = remove1 (l, True) held, g_waits = waits, g_todo = todo\<rparr>"

definition go :: "nat \<Rightarrow> 'l routine list \<Rightarrow> 'l routine list option" where
  "go i gs = (if i < length gs then map_option (\<lambda>g. gs[i := g]) (g_step gs (gs ! i)) else None)"

text \<open>A run is the list of the goroutines that make the steps; \<open>None\<close> when one of them cannot.\<close>

fun run :: "nat list \<Rightarrow> 'l routine list \<Rightarrow> 'l routine list option" where
  "run [] gs = Some gs"
| "run (i # is) gs = Option.bind (go i gs) (run is)"

definition stuck :: "'l routine list \<Rightarrow> bool" where
  "stuck gs \<longleftrightarrow> list_all (\<lambda>g. g_step gs g = None) gs"

definition finished :: "'l routine list \<Rightarrow> bool" where
  "finished gs \<longleftrightarrow> list_all (\<lambda>g. g_todo g = []) gs"

section \<open>Programs that respect an order\<close>

text \<open>Each mutex taken is above those held, only what is held is released, and nothing is kept.\<close>

fun ordered :: "('l \<Rightarrow> nat) \<Rightarrow> ('l \<times> bool) list \<Rightarrow> 'l act list \<Rightarrow> bool" where
  "ordered rank held [] \<longleftrightarrow> held = []"
| "ordered rank held (RLock l # todo) \<longleftrightarrow>
     (\<forall>h \<in> set held. rank (fst h) < rank l) \<and> ordered rank ((l, False) # held) todo"
| "ordered rank held (Lock l # todo) \<longleftrightarrow>
     (\<forall>h \<in> set held. rank (fst h) < rank l) \<and> ordered rank ((l, True) # held) todo"
| "ordered rank held (RUnlock l # todo) \<longleftrightarrow>
     (l, False) \<in> set held \<and> ordered rank (remove1 (l, False) held) todo"
| "ordered rank held (Unlock l # todo) \<longleftrightarrow>
     (l, True) \<in> set held \<and> ordered rank (remove1 (l, True) held) todo"

definition good :: "('l \<Rightarrow> nat) \<Rightarrow> 'l routine \<Rightarrow> bool" where
  "good rank g \<longleftrightarrow> ordered rank (g_held g) (g_todo g) \<and>
     (g_waits g \<longrightarrow> (\<exists>l todo. g_todo g = Lock l # todo))"

lemma good_start: "ordered rank [] todo \<Longrightarrow> good rank (routine_of todo)"
  by (simp add: good_def routine_of_def)

lemma g_step_good: "\<lbrakk>g_step gs g = Some g'; good rank g\<rbrakk> \<Longrightarrow> good rank g'"
  by (cases "(gs, g)" rule: g_step.cases) (auto simp: good_def split: if_splits)

definition work :: "'l routine \<Rightarrow> nat" where
  "work g = 2 * length (g_todo g) - (if g_waits g then 1 else 0)"

lemma g_step_work: "\<lbrakk>g_step gs g = Some g'; good rank g\<rbrakk> \<Longrightarrow> work g' < work g"
  by (cases "(gs, g)" rule: g_step.cases) (auto simp: good_def work_def split: if_splits)

lemma go_good:
  assumes "go i gs = Some gs'" "\<forall>g \<in> set gs. good rank g"
  shows "(\<forall>g \<in> set gs'. good rank g) \<and> sum_list (map work gs') < sum_list (map work gs)"
proof -
  from assms(1) obtain g where g: "i < length gs" "g_step gs (gs ! i) = Some g" "gs' = gs[i := g]"
    by (auto simp: go_def split: if_splits)
  have i: "gs ! i \<in> set gs" using g(1) by simp
  then have "good rank g" "work g < work (gs ! i)"
    using g_step_good[OF g(2)] g_step_work[OF g(2)] assms(2) by blast+
  moreover from this(1) assms(2) have "\<forall>g' \<in> set gs'. good rank g'"
    unfolding g(3) by (auto dest!: set_update_subset_insert[THEN subsetD])
  moreover have "sum_list (map work gs') = sum_list (map work gs) + work g - work (gs ! i)"
    unfolding g(3) map_update using sum_list_update[of i "map work gs" "work g"] g(1) by simp
  moreover have "work (gs ! i) \<le> sum_list (map work gs)" using i by (simp add: member_le_sum_list)
  ultimately show ?thesis by simp
qed

lemma run_good:
  "\<lbrakk>run is gs = Some gs'; \<forall>g \<in> set gs. good rank g\<rbrakk> \<Longrightarrow>
     (\<forall>g \<in> set gs'. good rank g) \<and> length is + sum_list (map work gs') \<le> sum_list (map work gs)"
proof (induction "is" arbitrary: gs)
  case (Cons i "is")
  then obtain gs1 where gs1: "go i gs = Some gs1" "run is gs1 = Some gs'"
    by (auto split: bind_splits)
  from go_good[OF gs1(1) Cons.prems(2)] Cons.IH[OF gs1(2)] show ?case by auto
qed simp

section \<open>No deadlock\<close>

text \<open>Whoever waits wants a mutex; whoever is in its way holds it, or has announced it and waits too.\<close>

definition wants :: "'l routine \<Rightarrow> 'l option" where
  "wants g = (case g_todo g of RLock l # _ \<Rightarrow> Some l | Lock l # _ \<Rightarrow> Some l | _ \<Rightarrow> None)"

lemma blocked_wants:
  assumes "g_step gs g = None" "good rank g" "g_todo g \<noteq> []"
  shows "\<exists>l. wants g = Some l \<and> (\<forall>h \<in> set (g_held g). rank (fst h) < rank l) \<and>
    ((\<exists>o' \<in> set gs. claims l o') \<or> (\<exists>o' \<in> set gs. reads l o'))"
  using assms
  by (cases "(gs, g)" rule: g_step.cases) (auto simp: wants_def good_def list_ex_iff split: if_splits)

lemma announced_blocked:
  assumes "g_step gs g = None" "g_waits g" "g_todo g = Lock l # todo"
  shows "\<exists>o' \<in> set gs. reads l o'"
  using assms
  by (cases "(gs, g)" rule: g_step.cases) (auto simp: list_ex_iff split: if_splits)

lemma good_unfinished: "\<lbrakk>good rank g; g_held g \<noteq> []\<rbrakk> \<Longrightarrow> g_todo g \<noteq> []"
  by (auto simp: good_def)

lemma stuck_finished:
  assumes "\<forall>g \<in> set gs. good rank g" "stuck gs"
  shows "finished gs"
proof (rule ccontr)
  assume "\<not> finished gs"
  have blocked: "g_step gs g = None" if "g \<in> set gs" for g
    using assms(2) that by (simp add: stuck_def list_all_iff)
  define W where "W = {g \<in> set gs. g_todo g \<noteq> []}"
  define height where "height g = rank (the (wants g))" for g
  have higher: "\<exists>g' \<in> W. height g < height g'" if "o' \<in> set gs" "(l, m) \<in> set (g_held o')" "height g = rank l"
    for g o' l m
  proof -
    have o: "good rank o'" "o' \<in> W" using that(1,2) assms(1) good_unfinished by (fastforce simp: W_def)+
    from blocked_wants[OF blocked[OF that(1)] o(1)] o(2) obtain k where
      "wants o' = Some k" "\<forall>h \<in> set (g_held o'). rank (fst h) < rank k" by (auto simp: W_def)
    with that(2,3) have "height g < height o'" by (auto simp: height_def)
    with o(2) show ?thesis ..
  qed
  have "W \<noteq> {}" "finite W" using \<open>\<not> finished gs\<close> by (auto simp: W_def finished_def list_all_iff)
  then have "Max (height ` W) \<in> height ` W" by (intro Max_in) simp_all
  then obtain g where g: "g \<in> W" "height g = Max (height ` W)" by auto
  with \<open>finite W\<close> have top: "\<And>g'. g' \<in> W \<Longrightarrow> height g' \<le> height g" by simp
  from g(1) have "g \<in> set gs" "g_todo g \<noteq> []" by (auto simp: W_def)
  with blocked_wants[OF blocked, of g] assms(1) obtain l where l: "wants g = Some l"
    "(\<exists>o' \<in> set gs. claims l o') \<or> (\<exists>o' \<in> set gs. reads l o')" by blast
  have h: "height g = rank l" using l(1) by (simp add: height_def)
  have "\<exists>o' \<in> set gs. \<exists>m. (l, m) \<in> set (g_held o')"
  proof (cases "\<exists>o' \<in> set gs. reads l o'")
    case True
    then show ?thesis by (auto simp: reads_def)
  next
    case False
    with l(2) obtain o' where o: "o' \<in> set gs" "claims l o'" by blast
    show ?thesis
    proof (cases "(l, True) \<in> set (g_held o')")
      case True
      with o(1) show ?thesis by blast
    next
      case False
      with o(2) obtain todo where "g_waits o'" "g_todo o' = Lock l # todo"
        by (auto simp: claims_def split: list.splits act.splits)
      from announced_blocked[OF blocked[OF o(1)] this] show ?thesis by (auto simp: reads_def)
    qed
  qed
  with higher h obtain g' where "g' \<in> W" "height g < height g'" by blast
  with top show False by fastforce
qed

lemma ordered_runs_finish:
  assumes "\<forall>todo \<in> set todos. ordered rank [] todo" "run is (map routine_of todos) = Some gs"
  shows "length is \<le> 2 * length (concat todos) \<and> (stuck gs \<longrightarrow> finished gs)"
proof -
  have start: "\<forall>g \<in> set (map routine_of todos). good rank g" using assms(1) good_start by auto
  have "sum_list (map work (map routine_of todos)) = 2 * length (concat todos)"
    by (induction todos) (simp_all add: work_def routine_of_def)
  with run_good[OF assms(2) start] stuck_finished[of gs rank] show ?thesis by auto
qed

text \<open>What a family of operations owes: those that are \<open>safe\<close> take their mutexes in the order of \<open>rank\<close>.\<close>

locale ordered_operations =
  fixes rank :: "'l \<Rightarrow> nat"
    and locks :: "'op \<Rightarrow> 'l act list"
    and safe :: "'op \<Rightarrow> bool"
  assumes safe_ordered: "safe op \<Longrightarrow> ordered rank [] (locks op)"
begin

lemma runs_finish:
  assumes "\<forall>op \<in> set ops. safe op" "run is (map (routine_of \<circ> locks) ops) = Some gs"
  shows "length is \<le> 2 * length (concat (map locks ops)) \<and> (stuck gs \<longrightarrow> finished gs)"
  using ordered_runs_finish[of "map locks ops" rank "is" gs] assms safe_ordered by simp

end

section \<open>A mutex excludes\<close>

text \<open>Whoever writes is alone with the mutex, and one goroutine at a time claims it.\<close>

definition apart :: "'l routine \<Rightarrow> 'l routine \<Rightarrow> bool" where
  "apart g h \<longleftrightarrow> (\<forall>l. claims l g \<longrightarrow> \<not> claims l h \<and> ((l, True) \<in> set (g_held g) \<longrightarrow> \<not> reads l h))"

definition exclusive :: "'l routine list \<Rightarrow> bool" where
  "exclusive gs \<longleftrightarrow> (\<forall>i < length gs. \<forall>j < length gs. i \<noteq> j \<longrightarrow> apart (gs ! i) (gs ! j))"

lemma g_step_claims:
  assumes "g_step gs g = Some g'" "good rank g"
  shows "claims l g' \<Longrightarrow> claims l g \<or> \<not> list_ex (claims l) gs"
    "reads l g' \<Longrightarrow> reads l g \<or> \<not> list_ex (claims l) gs"
    "(l, True) \<in> set (g_held g') \<Longrightarrow> (l, True) \<in> set (g_held g) \<or> claims l g \<and> \<not> list_ex (reads l) gs"
  using assms
  by (cases "(gs, g)" rule: g_step.cases;
      auto simp: good_def claims_def reads_def dest: set_remove1_subset[THEN subsetD] split: if_splits)+

lemma g_step_apart:
  assumes "g_step gs g = Some g'" "good rank g" "h \<in> set gs"
  shows "apart g h \<Longrightarrow> apart g' h" "apart h g \<Longrightarrow> apart h g'"
proof -
  note steps = g_step_claims[OF assms(1,2), unfolded list_ex_iff]
  show "apart g h \<Longrightarrow> apart g' h"
    using steps assms(3) unfolding apart_def by (metis claims_def)
  show "apart h g \<Longrightarrow> apart h g'"
    using steps(1,2) assms(3) unfolding apart_def by (metis claims_def)
qed

lemma go_exclusive:
  assumes "go i gs = Some gs'" "\<forall>g \<in> set gs. good rank g" "exclusive gs"
  shows "exclusive gs'"
  unfolding exclusive_def
proof (intro allI impI)
  from assms(1) obtain g where g: "i < length gs" "g_step gs (gs ! i) = Some g" "gs' = gs[i := g]"
    by (auto simp: go_def split: if_splits)
  fix j k
  assume jk: "j < length gs'" "k < length gs'" "j \<noteq> k"
  then have "apart (gs ! j) (gs ! k)" using assms(3) g(3) by (simp add: exclusive_def)
  moreover have "good rank (gs ! i)" "gs ! j \<in> set gs" "gs ! k \<in> set gs" using assms(2) g jk by simp_all
  ultimately show "apart (gs' ! j) (gs' ! k)"
    using g_step_apart[OF g(2)] jk(3) g(1) unfolding g(3) by (cases "j = i"; cases "k = i") simp_all
qed

lemma run_exclusive:
  "\<lbrakk>run is gs = Some gs'; \<forall>g \<in> set gs. good rank g; exclusive gs\<rbrakk> \<Longrightarrow> exclusive gs'"
proof (induction "is" arbitrary: gs)
  case (Cons i "is")
  then obtain gs1 where gs1: "go i gs = Some gs1" "run is gs1 = Some gs'"
    by (auto split: bind_splits)
  from Cons.IH[OF gs1(2)] go_good[OF gs1(1) Cons.prems(2)] go_exclusive[OF gs1(1) Cons.prems(2,3)]
  show ?case by blast
qed simp

lemma exclusive_start: "exclusive (map routine_of todos)"
  by (simp add: exclusive_def apart_def claims_def routine_of_def)

end
