(* ===== verification/Node_Locks.thy ===== *)
theory Node_Locks
  imports Lock_Order Bus_Types
begin

text \<open>
  The mutexes that the operations of the installed nodes take (spored/internal/nodes/nodes.go,
  node.go, and what they call in bus, permissions, registry, hyphae and utilities/await), in the
  order they take them. A call that waits for an answer of the hyphae ends by its timeout and takes
  no part in this. Witness messages go through a channel and need no mutex; the mutexes that guard one
  status value are held for one read or write only and left out.
\<close>

section \<open>The mutexes\<close>

datatype mutex =
    NodesMu \<comment> \<open>nodes.go, the table of nodes\<close>
  | NodeMu string \<comment> \<open>node.go, the connection of one node\<close>
  | WriterMu string
  | NodePendingMu string
  | HyphaePendingMu
  | ApiMu
  | CommandsMu \<comment> \<open>the index of the commands\<close>
  | BroadcastMu
  | TopicsMu \<comment> \<open>the index of the topics\<close>
  | ResponsesMu
  | WitnessesMu
  | RegistryMu
  | PermissionsMu

definition locked :: "mutex \<Rightarrow> mutex act list \<Rightarrow> mutex act list" where
  "locked m body = Lock m # body @ [Unlock m]"

definition rlocked :: "mutex \<Rightarrow> mutex act list \<Rightarrow> mutex act list" where
  "rlocked m body = RLock m # body @ [RUnlock m]"

section \<open>The bus\<close>

definition api_register_locks :: "inode \<Rightarrow> mutex act list" where
  "api_register_locks n = locked ApiMu (concat (map (\<lambda>command. locked CommandsMu []) (node_commands n)))"

definition broadcast_register_locks :: "inode \<Rightarrow> mutex act list" where
  "broadcast_register_locks n = locked BroadcastMu (concat (map (\<lambda>topic. locked TopicsMu []) (node_topics n)))"

definition witness_register_locks :: "inode \<Rightarrow> mutex act list" where
  "witness_register_locks n = (if n_isWitness n then locked WitnessesMu [] else [])"

definition bus_Register_locks :: "inode \<Rightarrow> mutex act list" where
  "bus_Register_locks n =
     api_register_locks n @ broadcast_register_locks n @ locked ResponsesMu [] @ witness_register_locks n"

text \<open>Leaving the bus takes the same mutexes.\<close>

definition bus_Unregister_locks :: "inode \<Rightarrow> mutex act list" where
  "bus_Unregister_locks n =
     api_register_locks n @ broadcast_register_locks n @ locked ResponsesMu [] @ witness_register_locks n"

text \<open>
  A request: its route, its name, the permissions, and then \<open>Receive\<close> of the node that answers it,
  without any mutex of the bus; a failed request takes its route back.
\<close>

definition bus_Request_locks :: "mutex act list \<Rightarrow> bool \<Rightarrow> mutex act list" where
  "bus_Request_locks receive failed =
     locked ResponsesMu [] @ rlocked ApiMu (rlocked CommandsMu []) @ rlocked PermissionsMu [] @ receive @
     (if failed then locked ResponsesMu [] else [])"

section \<open>Nodes\<close>

definition resolveId_locks :: "mutex act list" where
  "resolveId_locks = rlocked NodesMu []"

text \<open>
  The node that a request goes to is connected and answers, is connected and does not, is not connected
  and stays so, or is started on demand.
\<close>

datatype receiver = IsThere | IsSilent | IsAway | StartsOnDemand

fun Receive_locks :: "string \<Rightarrow> receiver \<Rightarrow> mutex act list" where
  "Receive_locks i IsThere = rlocked (NodeMu i) [] @ rlocked (NodeMu i) (locked (WriterMu i) [])"
| "Receive_locks i IsSilent = rlocked (NodeMu i) [] @ rlocked (NodeMu i) (locked (WriterMu i) [])"
| "Receive_locks i IsAway = rlocked (NodeMu i) []"
| "Receive_locks i StartsOnDemand =
     rlocked (NodeMu i) [] @ locked (NodePendingMu i) [] @ locked (NodePendingMu i) [] @
     resolveId_locks @ rlocked NodesMu [] @ \<comment> \<open>Spawn of a readable binary\<close>
     rlocked (NodeMu i) (locked (WriterMu i) [])"

definition hyphae_node :: string where "hyphae_node = ''dev.sporeos.HYPHAE''"

text \<open>
  A call of the hyphae; \<open>None\<close> where the operation makes no such call on its path. A call that is not
  answered takes its handle out of the waiting table.
\<close>

fun hyphae_locks :: "receiver option \<Rightarrow> mutex act list" where
  "hyphae_locks None = []"
| "hyphae_locks (Some r) =
     locked HyphaePendingMu [] @ bus_Request_locks (Receive_locks hyphae_node r) (r = IsAway) @
     (if r = IsThere then [] else locked HyphaePendingMu [])"

definition Spawn_locks :: "receiver option \<Rightarrow> mutex act list" where
  "Spawn_locks call = resolveId_locks @ rlocked NodesMu (hyphae_locks call)"

definition Kill_locks :: "receiver option \<Rightarrow> mutex act list" where
  "Kill_locks call = resolveId_locks @ hyphae_locks call"

definition Uninstall_locks :: "inode \<Rightarrow> receiver option \<Rightarrow> mutex act list" where
  "Uninstall_locks n call =
     resolveId_locks @ Kill_locks call @
     locked NodesMu (bus_Unregister_locks n @ locked RegistryMu [] @ locked PermissionsMu [])"

text \<open>The calls for the content and the digest of the manifest; neither holds the table.\<close>

definition GetManifest_locks :: "inode \<Rightarrow> receiver option \<Rightarrow> receiver option \<Rightarrow> mutex act list" where
  "GetManifest_locks n content digest =
     resolveId_locks @ rlocked NodesMu [] @ hyphae_locks content @ hyphae_locks digest @ bus_Register_locks n"

text \<open>
  The handshake, under the read lock of the table from its first line to its end: the digest of the
  manifest, the registration, and the digest of the process over the provisional connection, if the
  hyphae has to compute them.
\<close>

definition handleConnection_locks :: "inode \<Rightarrow> receiver option \<Rightarrow> receiver option \<Rightarrow> mutex act list" where
  "handleConnection_locks n file binary =
     (let i = n_id n in
      hyphae_locks file @ bus_Register_locks n @ locked (WriterMu i) [] @ locked (NodeMu i) [] @
      hyphae_locks binary @ locked PermissionsMu [] @
      (if binary = None then [] else locked (NodeMu i) []) @ locked (NodePendingMu i) [] @
      (if binary = None then [] else locked (NodeMu i) []))"

definition HandleConnection_locks :: "inode \<Rightarrow> receiver option \<Rightarrow> receiver option \<Rightarrow> mutex act list" where
  "HandleConnection_locks n file binary = rlocked NodesMu (handleConnection_locks n file binary)"

datatype nodes_op =
    OpSpawn "receiver option"
  | OpKill "receiver option"
  | OpReload "receiver option" "receiver option"
  | OpUninstall inode "receiver option"
  | OpGetManifest inode "receiver option" "receiver option"
  | OpConnect inode "receiver option" "receiver option"

fun op_locks :: "nodes_op \<Rightarrow> mutex act list" where
  "op_locks (OpSpawn call) = Spawn_locks call"
| "op_locks (OpKill call) = Kill_locks call"
| "op_locks (OpReload kill spawn) = Kill_locks kill @ Spawn_locks spawn"
| "op_locks (OpUninstall n call) = Uninstall_locks n call"
| "op_locks (OpGetManifest n content digest) = GetManifest_locks n content digest"
| "op_locks (OpConnect n file binary) = HandleConnection_locks n file binary"

fun op_calls :: "nodes_op \<Rightarrow> receiver option set" where
  "op_calls (OpSpawn call) = {call}"
| "op_calls (OpKill call) = {call}"
| "op_calls (OpReload kill spawn) = {kill, spawn}"
| "op_calls (OpUninstall n call) = {call}"
| "op_calls (OpGetManifest n content digest) = {content, digest}"
| "op_calls (OpConnect n file binary) = {file, binary}"

section \<open>The order\<close>

fun mutex_rank :: "mutex \<Rightarrow> nat" where
  "mutex_rank NodesMu = 0"
| "mutex_rank CommandsMu = 2"
| "mutex_rank TopicsMu = 2"
| "mutex_rank (WriterMu i) = 2"
| "mutex_rank _ = 1"

text \<open>A piece of a program that only takes mutexes from \<open>r\<close> on, and gives back all it takes.\<close>

definition piece :: "nat \<Rightarrow> mutex act list \<Rightarrow> bool" where
  "piece r s \<longleftrightarrow> (\<forall>held t. (\<forall>h \<in> set held. mutex_rank (fst h) < r) \<longrightarrow> ordered mutex_rank held t \<longrightarrow>
     ordered mutex_rank held (s @ t))"

named_theorems pieces

lemma piece_Nil [pieces]: "piece r []"
  by (simp add: piece_def)

lemma piece_append [pieces]: "\<lbrakk>piece r s; piece r t\<rbrakk> \<Longrightarrow> piece r (s @ t)"
  by (auto simp: piece_def)

lemma piece_concat [pieces]: "(\<And>x. x \<in> set xs \<Longrightarrow> piece r (f x)) \<Longrightarrow> piece r (concat (map f xs))"
  by (induction xs) (simp_all add: piece_Nil piece_append)

lemma piece_locked [pieces]:
  assumes "r \<le> mutex_rank m" "piece (Suc (mutex_rank m)) body"
  shows "piece r (locked m body)" "piece r (rlocked m body)"
proof -
  have "ordered mutex_rank ((m, w) # held) (body @ (if w then Unlock m else RUnlock m) # t)"
    if "\<forall>h \<in> set held. mutex_rank (fst h) < r" "ordered mutex_rank held t" for w held t
  proof -
    have "\<forall>h \<in> set ((m, w) # held). mutex_rank (fst h) < Suc (mutex_rank m)"
      using that(1) assms(1) by (auto simp: less_Suc_eq dest: less_le_trans)
    moreover have "ordered mutex_rank ((m, w) # held) ((if w then Unlock m else RUnlock m) # t)"
      using that(2) by simp
    ultimately show ?thesis using assms(2) unfolding piece_def by blast
  qed
  from this[of _ _ True] this[of _ _ False] assms(1)
  show "piece r (locked m body)" "piece r (rlocked m body)"
    by (auto simp: piece_def locked_def rlocked_def dest: less_le_trans)
qed

lemma piece_ordered: "piece r s \<Longrightarrow> ordered mutex_rank [] s"
  using piece_def[of r s] by (metis append_Nil2 empty_iff list.set(1) ordered.simps(1))

lemma piece_register [pieces]: "piece (Suc 0) (bus_Register_locks n)" "piece (Suc 0) (bus_Unregister_locks n)"
  by (auto simp: bus_Register_locks_def bus_Unregister_locks_def api_register_locks_def
      broadcast_register_locks_def witness_register_locks_def intro!: pieces)

lemma piece_hyphae [pieces]:
  assumes "call \<noteq> Some StartsOnDemand"
  shows "piece (Suc 0) (hyphae_locks call)"
proof (cases call)
  case (Some r)
  with assms have "r \<noteq> StartsOnDemand" by simp
  then have "piece (Suc 0) (Receive_locks hyphae_node r)"
    by (cases r) (auto intro!: pieces)
  then show ?thesis by (auto simp: Some bus_Request_locks_def intro!: pieces)
qed (simp add: piece_Nil)

declare hyphae_locks.simps [simp del]

lemma piece_mono: "\<lbrakk>piece r s; r' \<le> r\<rbrakk> \<Longrightarrow> piece r' s"
  by (fastforce simp: piece_def)

lemma op_ordered:
  assumes "Some StartsOnDemand \<notin> op_calls op"
  shows "ordered mutex_rank [] (op_locks op)"
proof (rule piece_ordered)
  have hyphae: "piece 0 (hyphae_locks call)" if "call \<noteq> Some StartsOnDemand" for call
    using piece_hyphae[OF that] by (rule piece_mono) simp
  have bus: "piece 0 (bus_Register_locks n)" for n
    by (rule piece_mono[OF piece_register(1)]) simp
  show "piece 0 (op_locks op)"
    using assms
    by (cases op)
      (auto simp: Spawn_locks_def Kill_locks_def Uninstall_locks_def GetManifest_locks_def
        HandleConnection_locks_def handleConnection_locks_def resolveId_locks_def Let_def
        intro!: pieces hyphae bus)
qed

interpretation node_order: ordered_operations mutex_rank op_locks "\<lambda>op. Some StartsOnDemand \<notin> op_calls op"
  by unfold_locales (rule op_ordered)

text \<open>
  C7. Without a start on demand the operations on the nodes never wait for each other for ever. Let any
  number of connections, installs being taken back, starts, kills, reloads and manifest reads run at
  the same time, each step of a goroutine in any order, with the hyphae connected or away: every run
  is bounded, and it can only stop when each of them has finished.
\<close>
theorem node_operations_finish:
  assumes "\<forall>op \<in> set ops. Some StartsOnDemand \<notin> op_calls op"
    "run is (map (routine_of \<circ> op_locks) ops) = Some gs"
  shows "length is \<le> 2 * length (concat (map op_locks ops)) \<and> (stuck gs \<longrightarrow> finished gs)"
  using assms by (rule node_order.runs_finish)

theorem node_operations_finish_witness:
  "\<exists>gs. run [0, 1, 1, 0, 0] (map (routine_of \<circ> op_locks) [OpSpawn None, OpKill None]) = Some gs \<and>
     \<not> finished gs \<and> \<not> stuck gs"
proof -
  let ?ops = "[OpSpawn None, OpKill None]"
  obtain gs where r: "run [0, 1, 1, 0, 0] (map (routine_of \<circ> op_locks) ?ops) = Some gs" "\<not> finished gs"
    by (simp add: Spawn_locks_def Kill_locks_def resolveId_locks_def rlocked_def routine_of_def go_def
        hyphae_locks.simps claims_def finished_def)
  from node_operations_finish[OF _ r(1)] r show ?thesis by auto
qed

section \<open>A start on demand under the read lock\<close>

lemma op_starts: "\<exists>todo. op_locks op = RLock NodesMu # todo"
  by (cases op) (simp_all add: Spawn_locks_def Kill_locks_def Uninstall_locks_def GetManifest_locks_def
      HandleConnection_locks_def resolveId_locks_def rlocked_def)

lemma fresh_routines:
  "list_ex (claims l) (map (routine_of \<circ> f) xs) = False" "list_ex (reads l) (map (routine_of \<circ> f) xs) = False"
  by (induction xs) (simp_all add: claims_def reads_def routine_of_def)

text \<open>The removal finds its node, the handshake gets to the start of the hyphae, the removal announces itself.\<close>

definition wedging :: "nat list" where
  "wedging = [1, 1, 1, 1] @ [0, 0, 0, 0, 0, 0, 0, 0, 0, 0, 0, 0, 0, 0, 0, 0, 0, 0, 0, 0, 0] @ [1]"

lemma wedging_steps:
  assumes "\<And>l. \<not> list_ex (claims l) rest" "\<And>l. \<not> list_ex (reads l) rest"
  shows "\<exists>t0. run wedging (routine_of (RLock NodesMu # hyphae_locks (Some StartsOnDemand) @ t) #
       routine_of (RLock NodesMu # RUnlock NodesMu # RLock NodesMu # RUnlock NodesMu # Lock NodesMu # u) # rest)
     = Some (\<lparr>g_held = [(NodesMu, False)], g_waits = False, g_todo = RLock NodesMu # t0\<rparr> #
         \<lparr>g_held = [], g_waits = True, g_todo = Lock NodesMu # u\<rparr> # rest)"
  using assms
  by (simp add: wedging_def routine_of_def claims_def reads_def hyphae_locks.simps bus_Request_locks_def
      resolveId_locks_def rlocked_def locked_def go_def)

text \<open>
  C39. A handshake that has the hyphae started on demand, and the removal of a node, can stop the daemon
  for good. The handshake holds the read lock of the node table while it asks the hyphae; the start on
  demand reads the table again, and a removal that comes in between waits for the first read lock and
  keeps the second from being granted. From then on nothing moves: neither the two, nor any other
  connection, start, kill, removal, reload or manifest read, however many there are.
\<close>
theorem removal_during_a_handshake_stops_the_nodes:
  "\<exists>is gs. run is (map (routine_of \<circ> op_locks)
       (OpConnect n (Some StartsOnDemand) binary # OpUninstall m None # ops)) = Some gs \<and>
     length gs = length ops + 2 \<and> stuck gs \<and> list_all (\<lambda>g. g_todo g \<noteq> []) gs"
proof -
  let ?rest = "map (routine_of \<circ> op_locks) ops"
  obtain t where c: "op_locks (OpConnect n (Some StartsOnDemand) binary)
      = RLock NodesMu # hyphae_locks (Some StartsOnDemand) @ t"
    by (simp add: HandleConnection_locks_def handleConnection_locks_def rlocked_def Let_def)
  obtain u where u: "op_locks (OpUninstall m None)
      = RLock NodesMu # RUnlock NodesMu # RLock NodesMu # RUnlock NodesMu # Lock NodesMu # u"
    by (simp add: Uninstall_locks_def Kill_locks_def resolveId_locks_def rlocked_def locked_def hyphae_locks.simps)
  let ?gs = "\<lambda>t0. \<lparr>g_held = [(NodesMu, False)], g_waits = False, g_todo = RLock NodesMu # t0\<rparr> #
      \<lparr>g_held = [], g_waits = True, g_todo = Lock NodesMu # u\<rparr> # ?rest"
  obtain t0 where r: "run wedging (routine_of (op_locks (OpConnect n (Some StartsOnDemand) binary)) #
      routine_of (op_locks (OpUninstall m None)) # ?rest) = Some (?gs t0)"
    unfolding c u using wedging_steps[of ?rest t u] by (auto simp: fresh_routines simp del: op_locks.simps)
  have "list_ex (claims NodesMu) (?gs t0)" "list_ex (reads NodesMu) (?gs t0)"
    by (simp_all add: claims_def reads_def)
  moreover have "\<exists>todo. g = routine_of (RLock NodesMu # todo)" if "g \<in> set ?rest" for g
    using that op_starts by (auto simp del: op_locks.simps) metis
  ultimately have "stuck (?gs t0)" "list_all (\<lambda>g. g_todo g \<noteq> []) (?gs t0)"
    by (force simp: stuck_def list_all_iff routine_of_def)+
  moreover have "length (?gs t0) = length ops + 2" by simp
  ultimately show ?thesis
    using r by (intro exI[of _ wedging] exI[of _ "?gs t0"] conjI) (simp_all del: op_locks.simps)
qed

end
