(* ===== verification/Saved_State.thy ===== *)
theory Saved_State
  imports Hub
begin

text \<open>
  What is on the disk while the daemon runs: with files that can be written, every operation leaves the
  registry and the allowances in their files as they are in memory (spored/internal/registry,
  spored/internal/permissions, spored/internal/nodes).
\<close>

definition reg_saved :: "Element list \<Rightarrow> reg_disk \<Rightarrow> bool" where
  "reg_saved els d \<longleftrightarrow> rd_marshal_err d = None \<and> rd_write_err d = None \<and> rd_file d = els"

text \<open>Until something is granted there may be no file of allowances.\<close>

definition perm_saved :: "Manager \<Rightarrow> perm_disk \<Rightarrow> bool" where
  "perm_saved m d \<longleftrightarrow> pd_marshal_err d = None \<and> pd_mkdir_err d = None \<and> pd_write_err d = None \<and>
     (case pd_file d of Some a \<Rightarrow> a = pm_allowances m | None \<Rightarrow> pm_allowances m = (\<lambda>_. None))"

definition saved :: "world \<Rightarrow> bool" where
  "saved w \<longleftrightarrow> reg_saved (w_registry w) (w_rdisk w) \<and> perm_saved (w_perm w) (w_pdisk w)"

section \<open>The registry\<close>

lemma reg_Add_saved: "\<lbrakk>reg_Add el els d = (e, els1, d1); reg_saved els d\<rbrakk> \<Longrightarrow> e = None \<and> reg_saved els1 d1"
  by (auto simp: reg_Add_def reg_save_def reg_saved_def Let_def)

lemma reg_Remove_saved: "\<lbrakk>reg_Remove i els d = (e, els1, d1); reg_saved els d\<rbrakk> \<Longrightarrow> reg_saved els1 d1"
  by (auto simp: reg_Remove_def reg_save_def reg_saved_def Let_def split: option.splits)

section \<open>The allowances\<close>

lemma perm_saved_cong: "\<lbrakk>perm_saved m d; pm_allowances m' = pm_allowances m\<rbrakk> \<Longrightarrow> perm_saved m' d"
  by (simp add: perm_saved_def split: option.splits)

lemma perm_save_saved: "\<lbrakk>perm_save m' d = (e, d'); perm_saved m d\<rbrakk> \<Longrightarrow> perm_saved m' d'"
  by (auto simp: perm_save_def perm_saved_def split: option.splits)

lemma Grant_saved: "\<lbrakk>Grant i c m d = (e, m', d'); perm_saved m d\<rbrakk> \<Longrightarrow> perm_saved m' d'"
  by (auto simp: Grant_def Let_def split: if_splits prod.splits intro: perm_save_saved)

lemma perm_Request_saved:
  assumes "perm_Request cp ask i c reason m d = (r, m', d')" "perm_saved m d"
  shows "perm_saved m' d'"
proof -
  obtain granted err m1 where c: "perm_confirm cp ask i c reason m = ((granted, err), m1)" by (metis surj_pair)
  have "perm_saved m1 d" by (rule perm_saved_cong[OF assms(2)]) (simp add: perm_confirm_state[OF c])
  with assms(1) c Grant_saved[of i c m1 d] show ?thesis
    by (auto simp: perm_Request_def Let_def split: if_splits prod.splits option.splits)
qed

lemma perm_change_saved: "\<lbrakk>perm_change m d m' d'; perm_saved m d\<rbrakk> \<Longrightarrow> perm_saved m' d'"
proof (induction rule: perm_change.induct)
  case (can hyphae now msg capability m r m' d)
  with Can_allowances show ?case by (metis perm_saved_cong)
next
  case (permit cp ask tok now1 now2 nodeid capability reason m r m' d)
  with RequestPermit_allowances show ?case by (metis perm_saved_cong)
next
  case (revoke nodeid capability m d e m' d')
  then show ?case by (auto simp: Revoke_def Let_def split: prod.splits intro: perm_save_saved)
next
  case (remove nodeid m d e m' d')
  then show ?case by (auto simp: RemoveNode_def Let_def split: prod.splits intro: perm_save_saved)
next
  case (register m d man)
  then show ?case by (rule perm_saved_cong) (simp add: RegisterNode_allowances)
next
  case (install cp quote ask hyphae origin nodeid capability developer m r m' d)
  obtain granted err where r: "r = (granted, err)" by (cases r)
  from AuthorizeInstallation_state[OF install(1)[unfolded r]] install(2) show ?case
    by (auto elim: perm_saved_cong)
qed (auto intro: Grant_saved perm_Request_saved)

lemma request_permissions_saved:
  "\<lbrakk>request_permissions env i ps p d = (p', d'); perm_saved p d\<rbrakk> \<Longrightarrow> perm_saved p' d'"
proof (induction ps arbitrary: p d)
  case (Cons el ps)
  obtain r p1 d1 where r: "perm_Request (ne_parser env) (ne_ask env) i (pr_Name el) (pr_Reasons el) p d = (r, p1, d1)"
    by (metis surj_pair)
  from Cons.IH[of p1 d1] Cons.prems r perm_Request_saved[OF r] show ?case by simp
qed simp

section \<open>The operations on the nodes\<close>

lemma saved_cong:
  "\<lbrakk>saved w; w_registry w' = w_registry w; w_rdisk w' = w_rdisk w; w_pdisk w' = w_pdisk w;
    pm_allowances (w_perm w') = pm_allowances (w_perm w)\<rbrakk> \<Longrightarrow> saved w'"
  by (auto simp: saved_def elim: perm_saved_cong)

lemma authorizeInstallation_saved: "\<lbrakk>authorizeInstallation env man origin cap w = (e, w1); saved w\<rbrakk> \<Longrightarrow> saved w1"
  by (drule authorizeInstallation_result(1)) (auto elim: saved_cong)

lemma nodes_Spawn_saved: "\<lbrakk>nodes_Spawn env i w = (e, w1); saved w\<rbrakk> \<Longrightarrow> saved w1"
  by (drule nodes_Spawn_world) (auto elim: saved_cong)

lemma completeInstallation_saved:
  assumes "completeInstallation env cand load w = Some (e, w')" "saved w"
  shows "saved w'"
proof -
  obtain e0 els rd where add: "reg_Add (snd cand) (w_registry w) (w_rdisk w) = (e0, els, rd)" by (metis surj_pair)
  with assms(2) reg_Add_saved have rd: "e0 = None" "reg_saved els rd" by (auto simp: saved_def)
  define node where "node = newNode env (w_next w) (snd cand) (fst cand)"
  obtain b where b: "bus_Register (inode_of env node) (w_bus w) = Some b"
    using assms(1) add rd(1) by (auto simp: completeInstallation_def Let_def node_def split: option.splits)
  obtain p pd where p: "request_permissions env (el_ID (snd cand)) (m_Permissions (nn_manifest node))
      (RegisterNode (Some (nn_manifest node)) (w_perm w)) (w_pdisk w) = (p, pd)" by (metis surj_pair)
  define w1 where "w1 = w\<lparr>w_registry := els, w_rdisk := rd, w_nodes := (w_nodes w)(el_ID (snd cand) \<mapsto> node),
      w_next := Suc (w_next w), w_bus := b, w_perm := p, w_pdisk := pd\<rparr>"
  have "perm_saved (RegisterNode (Some (nn_manifest node)) (w_perm w)) (w_pdisk w)"
    using assms(2) by (auto simp: saved_def RegisterNode_allowances elim: perm_saved_cong)
  with request_permissions_saved[OF p] rd(2) have "saved w1" by (simp add: saved_def w1_def)
  moreover have "(if load then nodes_Spawn env (el_ID (snd cand)) w1 else (None, w1)) = (e, w')"
    using assms(1) unfolding completeInstallation_def add rd(1) Let_def node_def[symmetric]
    by (simp add: b p w1_def split: if_splits)
  ultimately show ?thesis by (auto split: if_splits intro: nodes_Spawn_saved)
qed

lemma nodes_Install_saved:
  assumes "nodes_Install env path load origin w = Some (e, w')" "saved w"
  shows "saved w'"
  using assms completeInstallation_saved authorizeInstallation_saved
  by (auto simp: nodes_Install_def split: sum.splits prod.splits option.splits)

lemma nodes_Uninstall_saved:
  assumes "nodes_Uninstall env i w = Some (e, w')" "saved w"
  shows "saved w'"
proof -
  have "perm_saved m1 d1" if "RemoveNode j (w_perm w) (w_pdisk w) = (e1, m1, d1)" for j e1 m1 d1
    using perm_change_saved[OF perm_change.remove[OF that]] assms(2) by (simp add: saved_def)
  moreover have "reg_saved els rd" if "reg_Remove j (w_registry w) (w_rdisk w) = (e1, els, rd)" for j e1 els rd
    using reg_Remove_saved[OF that] assms(2) by (simp add: saved_def)
  ultimately show ?thesis
    using assms by (auto simp: nodes_Uninstall_def Let_def saved_def split: option.splits prod.splits)
qed

lemma nodes_Reinstall_saved:
  assumes "nodes_Reinstall env i load origin w = Some (e, w')" "saved w"
  shows "saved w'"
  using assms nodes_Uninstall_saved completeInstallation_saved authorizeInstallation_saved
  by (auto simp: nodes_Reinstall_def Let_def split: option.splits sum.splits prod.splits)

lemma nodes_GetManifest_saved:
  assumes "nodes_GetManifest env i w = Some (man, w')" "saved w"
  shows "saved w'"
  using assms
  by (auto simp: nodes_GetManifest_def Let_def split: option.splits if_splits sum.splits elim!: saved_cong)

lemma nodes_HandleConnection_saved:
  assumes "nodes_HandleConnection env hs deadline first w = Some (effs, w')" "saved w"
  shows "saved w'"
  using assms(1)
proof (cases rule: nodes_HandleConnection_cases)
  case (handshake line n e man heffs w1)
  have "pm_allowances (fold (\<lambda>m. RegisterNode (Some m)) ms p) = pm_allowances p" for ms p
    by (induction ms arbitrary: p) (simp_all add: RegisterNode_allowances)
  with apply_hs_parts[OF handshake(4)] handshake(5) show ?thesis by (intro saved_cong[OF assms(2)]) simp_all
qed (use assms(2) in simp)

text \<open>Every step of the daemon keeps its files in step with its memory.\<close>

lemma nodes_step_saved: "\<lbrakk>nodes_step w w'; saved w\<rbrakk> \<Longrightarrow> saved w'"
proof (induction rule: nodes_step.induct)
  case (reload env i w e w')
  then show ?case by (auto simp: nodes_Reload_def split: option.splits intro: nodes_Spawn_saved)
next
  case (autostart env "is" w ms w')
  from nodes_Autostart_world[OF autostart(1)] autostart(2) show ?case by (auto elim: saved_cong)
next
  case (permissions w p pd)
  from perm_change_saved[OF permissions(1)] permissions(2) show ?case by (simp add: saved_def)
qed (auto intro: nodes_Install_saved nodes_Uninstall_saved nodes_Reinstall_saved nodes_Spawn_saved
      nodes_GetManifest_saved nodes_HandleConnection_saved elim: saved_cong)

inductive nodes_steps :: "world \<Rightarrow> world \<Rightarrow> bool" where
  stay: "nodes_steps w w"
| more: "\<lbrakk>nodes_steps w w1; nodes_step w1 w2\<rbrakk> \<Longrightarrow> nodes_steps w w2"

lemma nodes_steps_saved: "\<lbrakk>nodes_steps w w'; saved w; nodes_reach w\<rbrakk> \<Longrightarrow> saved w' \<and> nodes_reach w'"
  by (induction rule: nodes_steps.induct) (auto intro: nodes_step_saved nodes_reach.step)

text \<open>What the next start reads.\<close>

definition next_start :: "world \<Rightarrow> hub_env \<Rightarrow> hub_env" where
  "next_start w env = env\<lparr>hb_registry := RegElements (rd_file (w_rdisk w)), hb_rdisk := w_rdisk w,
     hb_permissions := (case pd_file (w_pdisk w) of Some a \<Rightarrow> FileAllowances a | None \<Rightarrow> FileNotExist),
     hb_pdisk := w_pdisk w\<rparr>"

lemma next_start_allowances:
  "perm_saved (w_perm w) (w_pdisk w) \<Longrightarrow>
     pm_allowances (perm_New (hb_permissions (next_start w env))) = pm_allowances (w_perm w)"
  by (auto simp: next_start_def perm_saved_def perm_New_def perm_load_def split: option.splits)

end
