(* ===== verification/Questions.thy ===== *)
theory Questions
  imports Hyphae_Calls Node_Listen Node_Delivery
begin

text \<open>
  The questions the daemon's own parts ask over the bus: the hyphae part (spored/internal/hyphae) and
  the permission manager send a request with a handle from their counter, wait in their table of
  pending responses, and believe the response. Here the table, the bus and the connections are put
  together: what the argument \<open>ask\<close> of the calls stands for, and who can decide what it returns.
\<close>

section \<open>A part and its open calls\<close>

text \<open>
  A part on the bus: its id, the text its handles start with, its counter and its table.
  \<open>pa_calls\<close> are the calls in progress, each with its handle and its channel; they are the local
  variables of the goroutines that wait.
\<close>

record part =
  pa_id :: string
  pa_prefix :: string
  pa_index :: nat
  pa_pending :: Pending
  pa_calls :: "(string \<times> nat) list"

definition part_New :: "string \<Rightarrow> string \<Rightarrow> Pending \<Rightarrow> part" where
  "part_New i start pending =
     \<lparr>pa_id = i, pa_prefix = start, pa_index = 0, pa_pending = pending, pa_calls = []\<rparr>"

definition hyphae_New :: part where
  "hyphae_New = part_New protectedCaller ''hyphae-'' (WithTimeout (12 * 1000000000) (await_New Mod_Hyphae))"

definition part_handle :: "part \<Rightarrow> string \<times> part" where
  "part_handle p = (pa_prefix p @ show_nat (Suc (pa_index p)), p\<lparr>pa_index := Suc (pa_index p)\<rparr>)"

text \<open>A call draws its handle and registers it, before it sends its request.\<close>

definition part_begin :: "part \<Rightarrow> (string \<times> nat) \<times> part" where
  "part_begin p =
     (case part_handle p of
        (h, p1) \<Rightarrow>
          (case AwaitHandle h (pa_pending p1) of
             (ch, pending) \<Rightarrow> ((h, ch), p1\<lparr>pa_pending := pending, pa_calls := (h, ch) # pa_calls p1\<rparr>)))"

definition end_call :: "string \<Rightarrow> part \<Rightarrow> part" where
  "end_call h p = p\<lparr>pa_calls := filter (\<lambda>c. fst c \<noteq> h) (pa_calls p)\<rparr>"

text \<open>The bus refused the request.\<close>

definition part_refused :: "string \<Rightarrow> part \<Rightarrow> part" where
  "part_refused h p = end_call h (p\<lparr>pa_pending := DeleteHandle h (pa_pending p)\<rparr>)"

text \<open>\<open>Receive\<close> of a part: its table takes the message, whoever sent it.\<close>

definition part_Receive :: "message \<Rightarrow> part \<Rightarrow> (error option \<times> part) option" where
  "part_Receive msg p =
     map_option (\<lambda>(pending, e). (e, p\<lparr>pa_pending := pending\<rparr>)) (pending_Receive msg (pa_pending p))"

text \<open>What a call makes of the end of its wait.\<close>

fun ask_result :: "wait_result \<Rightarrow> ask_outcome" where
  "ask_result (WGot msg) = AskAnswer msg"
| "ask_result (WTimedOut e) = AskWaitError e"

datatype part_op = QDraw | QBegin | QRefused string | QReceive message | QReturn string

inductive part_step :: "part_op \<Rightarrow> part \<Rightarrow> part \<Rightarrow> bool" where
  draw: "part_step QDraw p (snd (part_handle p))" \<comment> \<open>the request could not be built\<close>
| begin_call: "part_begin p = (c, p') \<Longrightarrow> part_step QBegin p p'"
| refused: "(h, ch) \<in> set (pa_calls p) \<Longrightarrow> part_step (QRefused h) p (part_refused h p)"
| receive: "part_Receive msg p = Some (e, p') \<Longrightarrow> part_step (QReceive msg) p p'"
| return: "\<lbrakk>(h, ch) \<in> set (pa_calls p); waits h ch override elapsed (pa_pending p) r pending\<rbrakk> \<Longrightarrow>
     part_step (QReturn h) p (end_call h (p\<lparr>pa_pending := pending\<rparr>))"

inductive_cases part_stepE: "part_step op p p'"

inductive part_reach :: "part \<Rightarrow> part \<Rightarrow> bool" for p0 where
  init: "part_reach p0 p0"
| step: "\<lbrakk>part_reach p0 p; part_step op p p'\<rbrakk> \<Longrightarrow> part_reach p0 p'"

section \<open>Calls do not get in each other's way\<close>

definition part_inv :: "part \<Rightarrow> bool" where
  "part_inv p \<longleftrightarrow> pending_inv (pa_pending p) \<and>
     (\<forall>(h, ch) \<in> set (pa_calls p). (\<exists>j \<le> pa_index p. h = pa_prefix p @ show_nat j) \<and> ch < aw_next (pa_pending p)) \<and>
     distinct (map fst (pa_calls p)) \<and> distinct (map snd (pa_calls p))"

text \<open>What a part never changes.\<close>

definition same_part :: "part \<Rightarrow> part \<Rightarrow> bool" where
  "same_part p p' \<longleftrightarrow> pa_id p' = pa_id p \<and> pa_prefix p' = pa_prefix p \<and>
     aw_timeout (pa_pending p') = aw_timeout (pa_pending p)"

lemma distinct_map_filter': "distinct (map f xs) \<Longrightarrow> distinct (map f (filter P xs))"
  by (simp add: distinct_map inj_on_def)

lemma part_inv_end_call:
  "\<lbrakk>part_inv p; pending_inv pending; aw_next pending = aw_next (pa_pending p)\<rbrakk> \<Longrightarrow>
     part_inv (end_call h (p\<lparr>pa_pending := pending\<rparr>))"
  by (auto simp: part_inv_def end_call_def distinct_map_filter')

lemma part_inv_pending:
  "\<lbrakk>part_inv p; pending_inv pending; aw_next pending = aw_next (pa_pending p)\<rbrakk> \<Longrightarrow>
     part_inv (p\<lparr>pa_pending := pending\<rparr>)"
  by (auto simp: part_inv_def)

lemma waits_next: "waits h ch override elapsed p r p' \<Longrightarrow> aw_next p' = aw_next p \<and> aw_timeout p' = aw_timeout p"
  by (auto elim!: waitsE simp: DeleteHandle_def)

lemma pending_Receive_next:
  "pending_Receive msg p = Some (p', e) \<Longrightarrow> aw_next p' = aw_next p \<and> aw_timeout p' = aw_timeout p"
  by (auto simp: pending_defs split: option.splits)

lemma part_inv_begin:
  assumes "part_inv p" "part_begin p = (c, p')"
  shows "part_inv p'"
proof -
  let ?h = "pa_prefix p @ show_nat (Suc (pa_index p))"
  have p': "p' = p\<lparr>pa_index := Suc (pa_index p), pa_pending := snd (AwaitHandle ?h (pa_pending p)),
      pa_calls := (?h, aw_next (pa_pending p)) # pa_calls p\<rparr>"
    using assms(2) by (auto simp: part_begin_def part_handle_def AwaitHandle_def)
  from assms(1) have old: "pending_inv (pa_pending p)" "distinct (map fst (pa_calls p))" "distinct (map snd (pa_calls p))"
    "\<And>h ch. (h, ch) \<in> set (pa_calls p) \<Longrightarrow> (\<exists>j \<le> pa_index p. h = pa_prefix p @ show_nat j) \<and> ch < aw_next (pa_pending p)"
    by (auto simp: part_inv_def)
  have "?h \<notin> fst ` set (pa_calls p)" using old(4) by fastforce
  moreover have "aw_next (pa_pending p) \<notin> snd ` set (pa_calls p)" using old(4) by fastforce
  ultimately show ?thesis
    using old pending_inv_await[OF old(1), of ?h]
    by (auto simp: part_inv_def p' AwaitHandle_def) (metis le_SucI less_SucI)+
qed

lemma part_step_inv: "\<lbrakk>part_step op p p'; part_inv p\<rbrakk> \<Longrightarrow> part_inv p' \<and> same_part p p'"
proof (erule part_stepE)
  assume "part_inv p" "p' = snd (part_handle p)"
  then show ?thesis by (auto simp: part_inv_def part_handle_def same_part_def intro: le_SucI)
next
  fix c assume "part_inv p" "part_begin p = (c, p')"
  with part_inv_begin[of p c p'] show ?thesis
    by (auto simp: part_begin_def part_handle_def AwaitHandle_def same_part_def)
next
  fix h ch assume "part_inv p" "p' = part_refused h p"
  then show ?thesis
    using part_inv_end_call[of p "DeleteHandle h (pa_pending p)" h] pending_inv_delete[of "pa_pending p" h]
    by (simp add: part_refused_def part_inv_def same_part_def end_call_def DeleteHandle_def)
next
  fix msg e assume "part_inv p" "part_Receive msg p = Some (e, p')"
  then show ?thesis
    using part_inv_pending[of p] pending_inv_receive[of "pa_pending p" msg] pending_Receive_next[of msg "pa_pending p"]
    by (fastforce simp: part_Receive_def part_inv_def same_part_def)
next
  fix h ch override elapsed r pending
  assume "part_inv p" "p' = end_call h (p\<lparr>pa_pending := pending\<rparr>)" "waits h ch override elapsed (pa_pending p) r pending"
  then show ?thesis
    using part_inv_end_call[of p pending h] pending_inv_waits[of h ch override elapsed "pa_pending p" r pending]
      waits_next[of h ch override elapsed "pa_pending p" r pending]
    by (simp add: part_inv_def same_part_def end_call_def)
qed

lemma part_reach_inv:
  "part_reach p0 p \<Longrightarrow> part_inv p0 \<Longrightarrow> part_inv p \<and> same_part p0 p"
  by (induction rule: part_reach.induct) (auto simp: same_part_def dest: part_step_inv)

lemma part_inv_New: "part_inv (part_New i start (WithTimeout t (await_New m)))"
  by (simp add: part_inv_def part_New_def pending_inv_init)

text \<open>A step of the part that neither ends the call of a handle nor hands it a message.\<close>

fun leaves_open :: "string \<Rightarrow> part_op \<Rightarrow> bool" where
  "leaves_open h (QRefused h') = (h' \<noteq> h)"
| "leaves_open h (QReceive m) = (Handle m \<noteq> h)"
| "leaves_open h (QReturn h') = (h' \<noteq> h)"
| "leaves_open h _ = True"

definition waiting_call :: "part \<Rightarrow> string \<Rightarrow> nat \<Rightarrow> bool" where
  "waiting_call p h ch \<longleftrightarrow> (h, ch) \<in> set (pa_calls p) \<and> aw_channels (pa_pending p) h = Some ch"

lemma part_begin_waits: "part_begin p = ((h, ch), p') \<Longrightarrow> waiting_call p' h ch"
  by (auto simp: part_begin_def part_handle_def AwaitHandle_def waiting_call_def)

lemma waiting_call_step:
  assumes "part_step op p p'" "part_inv p" "leaves_open h op" "waiting_call p h ch"
  shows "waiting_call p' h ch"
  using assms(1)
proof cases
  case (begin_call c)
  from assms(2,4) have "pa_prefix p @ show_nat (Suc (pa_index p)) \<noteq> h"
    by (fastforce simp: part_inv_def waiting_call_def)
  with begin_call(2) assms(4) show ?thesis
    by (auto simp: part_begin_def part_handle_def AwaitHandle_def waiting_call_def)
next
  case (receive msg e)
  with assms(3,4) show ?thesis
    by (auto simp: part_Receive_def waiting_call_def pending_defs split: option.splits)
next
  case (return h' ch' override elapsed r pending)
  with assms(3,4) show ?thesis
    by (auto elim!: waitsE simp: waiting_call_def end_call_def DeleteHandle_def)
qed (use assms(3,4) in \<open>auto simp: waiting_call_def part_handle_def part_refused_def end_call_def DeleteHandle_def\<close>)

section \<open>An open question\<close>

text \<open>
  A question is open when a part has sent its request and nothing but the waiting has happened to it
  since: the bus and the part go on, in any order, but nobody cancels or answers this handle, asks for
  it after its ten seconds, or takes the part itself off the bus. \<open>t\<close> is the time until which the bus
  keeps the handle.
\<close>

fun keeps_node :: "string \<Rightarrow> resp_op \<Rightarrow> bool" where
  "keeps_node i (RReg n) = (n_id n \<noteq> i)"
| "keeps_node i (RUnreg n) = (n_id n \<noteq> i)"
| "keeps_node i _ = True"

inductive question_open :: "part \<Rightarrow> message \<Rightarrow> string \<Rightarrow> nat \<Rightarrow> int \<Rightarrow> responses \<Rightarrow> part \<Rightarrow> bool"
  for p0 msg h ch t where
  sent: "\<lbrakk>part_reach p0 p; part_begin p = ((h, ch), p'); Handle msg = h; Actor msg = pa_id p;
    bus_Request permissions receive now1 now2 msg b (m :: Manager) = Some ((None, Some node), b', m');
    \<forall>x. receive node msg x = Some (None, x); rp_nodes (bus_responses b') (pa_id p) = Some self;
    t = now2 + responseHandleTimeout\<rbrakk>
     \<Longrightarrow> question_open p0 msg h ch t (bus_responses b') p'"
| bus: "\<lbrakk>question_open p0 msg h ch t rs p; resp_step op rs = Some (evs, rs'); spares h t op;
    keeps_node (pa_id p) op\<rbrakk> \<Longrightarrow> question_open p0 msg h ch t rs' p"
| part: "\<lbrakk>question_open p0 msg h ch t rs p; part_step op p p'; leaves_open h op\<rbrakk>
     \<Longrightarrow> question_open p0 msg h ch t rs p'"

definition open_inv :: "part \<Rightarrow> string \<Rightarrow> nat \<Rightarrow> int \<Rightarrow> responses \<Rightarrow> part \<Rightarrow> bool" where
  "open_inv p0 h ch t rs p \<longleftrightarrow> part_inv p \<and> same_part p0 p \<and> waiting_call p h ch \<and>
     rp_responses rs h = Some \<lparr>rt_nodeid = pa_id p, rt_expiresAt = t\<rparr> \<and>
     (\<exists>self. rp_nodes rs (pa_id p) = Some self)"

lemma resp_step_keeps_node:
  "\<lbrakk>resp_step op rs = Some (evs, rs'); keeps_node i op\<rbrakk> \<Longrightarrow> rp_nodes rs' i = rp_nodes rs i"
  by (cases op) (auto simp: resp_defs split: if_splits option.splits)

lemma question_open_inv: "\<lbrakk>question_open p0 msg h ch t rs p; part_inv p0\<rbrakk> \<Longrightarrow> open_inv p0 h ch t rs p"
proof (induction rule: question_open.induct)
  case (sent p p' permissions receive now1 now2 b m node b' m' self)
  from part_reach_inv[OF sent(1,9)] have p: "part_inv p" "same_part p0 p" by simp_all
  from part_step_inv[OF part_step.begin_call[OF sent(2)] p(1)] have p': "part_inv p'" "same_part p p'" by simp_all
  have "responses_request now1 now2 msg (bus_responses b) = Some (None, bus_responses b')"
    by (rule handed_request_is_recorded[OF sent(5)]) (simp add: sent(6))
  then have "rp_responses (bus_responses b') h = Some \<lparr>rt_nodeid = pa_id p, rt_expiresAt = t\<rparr>"
    using sent(3,4,8) by (auto simp: responses_request_def Let_def dest!: sym[of _ "bus_responses b'"] split: if_splits)
  with p p' sent(7) part_begin_waits[OF sent(2)] show ?case by (simp add: open_inv_def same_part_def)
next
  case (bus rs p op evs rs')
  then have i: "open_inv p0 h ch t rs p" by simp
  then have "rp_responses rs' h = Some \<lparr>rt_nodeid = pa_id p, rt_expiresAt = t\<rparr>"
    using resp_step_keeps_route[OF bus(2), of h "\<lparr>rt_nodeid = pa_id p, rt_expiresAt = t\<rparr>"] bus(3)
    by (simp add: open_inv_def)
  with i resp_step_keeps_node[OF bus(2,4)] show ?case by (simp add: open_inv_def)
next
  case (part rs p op p')
  then have i: "open_inv p0 h ch t rs p" by simp
  with part_step_inv[OF part(2)] waiting_call_step[OF part(2) _ part(3)] show ?case
    by (auto simp: open_inv_def same_part_def)
qed

text \<open>
  A call that can end with this answer and, before its time is over, with nothing else.
\<close>

definition ends_with :: "part \<Rightarrow> string \<Rightarrow> nat \<Rightarrow> int option \<Rightarrow> message \<Rightarrow> bool" where
  "ends_with p h ch override answer \<longleftrightarrow>
     (\<exists>pending. waits h ch override 0 (pa_pending p) (WGot answer) pending) \<and>
     (\<forall>elapsed r pending. waits h ch override elapsed (pa_pending p) r pending \<and>
        elapsed < effective_timeout (pa_pending p) override \<longrightarrow> r = WGot answer)"

lemma ends_with_buffer: "aw_bufs (pa_pending p) ch = Some answer \<Longrightarrow> ends_with p h ch override answer"
  by (auto simp: ends_with_def elim!: waitsE intro!: exI waits.got)

text \<open>
  The first response with the handle goes to the part, whatever node it comes from, and the call gets it.
\<close>

lemma first_answer_is_taken:
  assumes "question_open p0 msg h ch t rs p" "part_inv p0" "\<not> rp_locked rs" "Handle answer = h" "h \<noteq> ''n/a''"
  shows "\<exists>self rs' p'. responses_response answer rs = Some (None, Some self, rs') \<and>
     rp_nodes rs (pa_id p0) = Some self \<and> part_Receive answer p = Some (None, p') \<and>
     aw_timeout (pa_pending p') = aw_timeout (pa_pending p0) \<and> (\<forall>override. ends_with p' h ch override answer)"
proof -
  from question_open_inv[OF assms(1,2)] obtain self where i: "part_inv p" "same_part p0 p" "waiting_call p h ch"
    "rp_responses rs h = Some \<lparr>rt_nodeid = pa_id p, rt_expiresAt = t\<rparr>" "rp_nodes rs (pa_id p) = Some self"
    by (auto simp: open_inv_def)
  have empty: "aw_bufs (pa_pending p) ch = None"
    using i(1,3) by (auto simp: part_inv_def pending_inv_def waiting_call_def)
  let ?pending = "(DeleteHandle h (pa_pending p))\<lparr>aw_bufs := (aw_bufs (pa_pending p))(ch \<mapsto> answer)\<rparr>"
  let ?p = "p\<lparr>pa_pending := ?pending\<rparr>"
  have "pending_Receive answer (pa_pending p) = Some (?pending, None)"
    using i(3) empty assms(4) by (simp add: pending_defs waiting_call_def)
  then have r: "part_Receive answer p = Some (None, ?p)" by (simp add: part_Receive_def)
  have "\<exists>rs'. responses_response answer rs = Some (None, Some self, rs')"
    using i(4,5) assms(3-5) by (simp add: responses_response_def Let_def)
  moreover have "aw_timeout (pa_pending ?p) = aw_timeout (pa_pending p0)" "pa_id p = pa_id p0"
    using i(2) by (simp_all add: same_part_def DeleteHandle_def)
  moreover have "ends_with ?p h ch override answer" for override by (rule ends_with_buffer) simp
  ultimately show ?thesis using r i(5) by auto
qed

section \<open>Who answers for the user\<close>

definition confirm_timeout :: int where "confirm_timeout = 2 * 60 * 1000000000"

lemma hyphae_handle_text: "fst (hyphae_handle k) \<noteq> ''n/a''"
  by (simp add: hyphae_handle_def)

lemma hyphae_New_inv: "part_inv hyphae_New"
  unfolding hyphae_New_def by (rule part_inv_New)

lemma first_answer_to_hyphae:
  assumes "h = fst (hyphae_handle k)" "question_open hyphae_New msg h ch t rs p" "\<not> rp_locked rs" "Handle answer = h"
  obtains self rs' p' where "responses_response answer rs = Some (None, Some self, rs')"
    "part_Receive answer p = Some (None, p')" "ends_with p' h ch override answer"
    "aw_timeout (pa_pending p') = 12 * 1000000000"
proof -
  have "h \<noteq> ''n/a''" unfolding assms(1) by (rule hyphae_handle_text)
  moreover have "aw_timeout (pa_pending hyphae_New) = 12 * 1000000000"
    by (simp add: hyphae_New_def part_New_def WithTimeout_def)
  ultimately show thesis using first_answer_is_taken[OF assms(2) hyphae_New_inv assms(3,4)] that by metis
qed


text \<open>
  The prompts of the permission manager are answered in the same way: the permit goes to whoever gets a
  yes under the handle of the prompt first. Their wait has no time limit.
\<close>

definition permissions_New :: part where
  "permissions_New = part_New permissionCaller ''permission-'' (await_New Mod_Permission)"

lemma prompt_is_answered_first:
  assumes "h = fst (perm_handle m)"
    "message_Request cp (confirm_raw nodeid capability reason h) permissionCaller = Some msg"
    "question_open permissions_New msg h ch t rs p" "\<not> rp_locked rs"
    "Handle answer = h" "FlagOf answer ''yes''" "\<not> FlagOf answer ''error''"
  shows "(\<exists>self rs' p'. responses_response answer rs = Some (None, Some self, rs') \<and>
       part_Receive answer p = Some (None, p') \<and> ends_with p' h ch None answer) \<and>
    perm_confirm cp (\<lambda>_. ask_result (WGot answer)) nodeid capability reason m = ((True, None), snd (perm_handle m))"
proof -
  have "h \<noteq> ''n/a''" unfolding assms(1) by (simp add: perm_handle_def)
  moreover have "part_inv permissions_New"
    using part_inv_New[of permissionCaller "''permission-''" 0 Mod_Permission]
    by (simp add: permissions_New_def WithTimeout_def await_New_def)
  ultimately have "\<exists>self rs' p'. responses_response answer rs = Some (None, Some self, rs') \<and>
      part_Receive answer p = Some (None, p') \<and> ends_with p' h ch None answer"
    using first_answer_is_taken[OF assms(3) _ assms(4,5)] by metis
  moreover have "perm_confirm cp (\<lambda>_. ask_result (WGot answer)) nodeid capability reason m =
      ((True, None), snd (perm_handle m))"
    using assms(1,2,6,7) by (cases "perm_handle m") (simp add: perm_confirm_def read_confirmation_def)
  ultimately show ?thesis by blast
qed

section \<open>Who vouches for a binary\<close>

lemma verified_binary_registers:
  assumes "he_pid hs = Inr pid" "he_hash_binary hs pid = Inr (el_BinaryChecksum reg)"
  shows "HPermRegister man \<in> set (snd (provisional_binary hs reg man b))"
  using assms
  by (simp add: provisional_binary_def settle_binary_def finish_handshake_def checkBinaryForFailure_def Let_def)

lemma response_line_passes:
  assumes "HasPrefix raw ''~''" "\<not> IsPipe raw" "message_Response cp raw i = Some answer"
  shows "LResponse answer \<in> set (listen_message cp env man i raw)"
proof -
  obtain s where raw: "raw = CHR ''~'' # s" using assms(1) by (cases raw) (auto simp: HasPrefix_def)
  have "\<not> HasPrefix raw ''witness''" "\<not> HasPrefix raw ''publish''" by (simp_all add: raw HasPrefix_def)
  with assms show ?thesis
    by (simp add: listen_message_def passes_unverified_def listen_dispatch_def)
qed

text \<open>
  C5. A binary can vouch for itself. A connection whose binary the daemon cannot check is let in
  provisionally while the hyphae is asked for the digest of its process. A line of this connection that
  starts with a tilde passes the gate although the verification is not over; when it is a response with
  the handle of that question, the bus hands it to the hyphae, and before the twelve seconds are over
  the call ends with nothing else. The digest in it is taken for the hyphae's: if it is the registered
  one, the handshake goes on and the permissions of the node's manifest are registered.
\<close>
theorem binary_can_vouch_for_itself:
  assumes "h = fst (hyphae_handle k)"
    "message_Request cp (''dev.sporeos.HYPHAE.binary.hash pid='' @ show_int pid @ '' ~'' @ h) protectedCaller = Some msg"
    "question_open hyphae_New msg h ch t rs p" "\<not> rp_locked rs"
    "HasPrefix raw ''~''" "\<not> IsPipe raw" "message_Response cp' raw i = Some answer" "Handle answer = h"
    "\<not> FlagOf answer ''error''" "Arg answer ''hash'' = (el_BinaryChecksum reg, True)"
  shows "LResponse answer \<in> set (listen_message cp' (env\<lparr>le_verified := False\<rparr>) man i raw) \<and>
    (\<exists>self rs' p'. responses_response answer rs = Some (None, Some self, rs') \<and>
       part_Receive answer p = Some (None, p') \<and> ends_with p' h ch None answer \<and>
       effective_timeout (pa_pending p') None = 12 * 1000000000) \<and>
    (\<forall>hs b. he_pid hs = Inr pid \<and>
       he_hash_binary hs pid = fst (binaryHash cp (\<lambda>_. ask_result (WGot answer)) pid k) \<longrightarrow>
       HPermRegister man \<in> set (snd (provisional_binary hs reg man b)))"
proof -
  have "LResponse answer \<in> set (listen_message cp' (env\<lparr>le_verified := False\<rparr>) man i raw)"
    by (rule response_line_passes[OF assms(5-7)])
  moreover have "fst (binaryHash cp (\<lambda>_. ask_result (WGot answer)) pid k) = Inr (el_BinaryChecksum reg)"
    using assms(1,2,9,10) by (simp add: binaryHash_def hyphae_handle_def hyphae_call_def required_arg_def)
  then have "\<forall>hs b. he_pid hs = Inr pid \<and>
      he_hash_binary hs pid = fst (binaryHash cp (\<lambda>_. ask_result (WGot answer)) pid k) \<longrightarrow>
      HPermRegister man \<in> set (snd (provisional_binary hs reg man b))"
    using verified_binary_registers by simp
  moreover obtain self rs' p' where "responses_response answer rs = Some (None, Some self, rs')"
    "part_Receive answer p = Some (None, p')" "ends_with p' h ch None answer"
    "effective_timeout (pa_pending p') None = 12 * 1000000000"
    using first_answer_to_hyphae[OF assms(1,3,4,8), of None] by (auto simp: effective_timeout_def)
  ultimately show ?thesis by blast
qed

section \<open>A question and an answer of another node\<close>

text \<open>A bus with the hyphae part and the node that carries out one of its requests.\<close>

definition hyphae_bus :: "string \<Rightarrow> bus" where
  "hyphae_bus command = the (Option.bind (bus_Register (sample_node protectedCaller) bus_New)
     (bus_Register (command_node 1 ''dev.sporeos.HYPHAE'' command)))"

definition question_parser :: "string \<Rightarrow> c_parser" where
  "question_parser command raw validate =
     Some \<lparr>c_error = None, c_type = (if HasPrefix raw ''~'' then TypeResponse else TypeRequest),
       c_capability = Some (''dev.sporeos.HYPHAE.'' @ command), c_handle = Some ''hyphae-1'',
       c_args = [(''hash'', ''sha'')], c_flags = [''yes'']\<rparr>"

lemma hyphae_bus_lookup:
  assumes "command \<in> {''confirm'', ''binary.hash''}" "Capability msg = ''dev.sporeos.HYPHAE.'' @ command"
  shows "api_lookup msg (bus_api (hyphae_bus command)) =
    Inr (''dev.sporeos.HYPHAE.'' @ command, command_node 1 ''dev.sporeos.HYPHAE'' command)"
proof -
  let ?n = "command_node 1 ''dev.sporeos.HYPHAE'' command" and ?s = "sample_node protectedCaller"
  have api: "bus_api (hyphae_bus command) = api_register ?n (api_register ?s newApi)"
    by (simp add: hyphae_bus_def bus_Register_def bus_New_def responses_register_def newResponses_def)
  have "idx_resolve (a_abbrevs (api_register ?n (api_register ?s newApi))) (''dev.sporeos.HYPHAE.'' @ command)
      = (''dev.sporeos.HYPHAE.'' @ command, [], True)"
    using assms(1) by (elim insertE emptyE; simp only:) (code_simp+)
  with assms(2) show ?thesis
    by (simp add: api_lookup_def Let_def api api_register_tables node_commands_def command_node_def sample_node_def)
qed

lemma hyphae_bus_responses:
  "\<not> rp_locked (bus_responses (hyphae_bus command))" "rp_responses (bus_responses (hyphae_bus command)) h = None"
  "rp_nodes (bus_responses (hyphae_bus command)) protectedCaller = Some (sample_node protectedCaller)"
  by (simp_all add: hyphae_bus_def bus_Register_def bus_New_def responses_register_def newResponses_def
      sample_node_def command_node_def protectedCaller_def)

lemma first_handle: "fst (hyphae_handle 0) = ''hyphae-1''"
  by code_simp

lemma hyphae_question:
  assumes "command \<in> {''confirm'', ''binary.hash''}" "\<exists>s. raw = CHR ''d'' # s"
  obtains msg rs p where "message_Request (question_parser command) raw protectedCaller = Some msg"
    "question_open hyphae_New msg (fst (hyphae_handle 0)) 0 responseHandleTimeout rs p" "\<not> rp_locked rs"
proof -
  obtain msg where msg: "message_Request (question_parser command) raw protectedCaller = Some msg"
    and m: "Capability msg = ''dev.sporeos.HYPHAE.'' @ command" "Handle msg = ''hyphae-1''"
    using assms(2)
    by (auto simp: message_build_defs cparse_def question_parser_def TrimSpace_dev HasPrefix_def)
  from request_identity[OF msg] have i: "Actor msg = protectedCaller" "Origin msg = protectedCaller"
    by (simp_all add: protectedCaller_def)
  let ?m = "perm_New FileNotExist"
  define f where "f = ''dev.sporeos.HYPHAE.'' @ command"
  define node where "node = command_node 1 ''dev.sporeos.HYPHAE'' command"
  note found = hyphae_bus_lookup[OF assms(1) m(1), folded f_def node_def]
  have "preauthorised protectedCaller f"
    using assms(1) by (auto simp: preauthorised_def capability_consts f_def)
  with i(2) Can_preauthorised[of f ?m msg None 0] have can: "Can None 0 msg f ?m = ((True, None), ?m)"
    by (simp add: perm_New_def perm_load_def)
  have "\<exists>b'. bus_Request (Some (Can None 0)) answering 0 0 msg (hyphae_bus command) ?m
      = Some ((None, Some node), b', ?m)"
    by (simp add: bus_Request_def api_request_def found can
        answering_def responses_request_def Let_def hyphae_bus_responses)
  then obtain b' where b': "bus_Request (Some (Can None 0)) answering 0 0 msg (hyphae_bus command) ?m
      = Some ((None, Some node), b', ?m)" by blast
  have ans: "answering n x r = Some (None, r)" for n x r by (simp add: answering_def)
  have rs: "responses_request 0 0 msg (bus_responses (hyphae_bus command)) = Some (None, bus_responses b')"
    by (rule handed_request_is_recorded[OF b' ans])
  then have self: "rp_nodes (bus_responses b') protectedCaller = Some (sample_node protectedCaller)"
    using hyphae_bus_responses(3)[of command]
    by (auto simp: responses_request_def Let_def dest!: sym[of _ "bus_responses b'"] split: if_splits)
  obtain p' where p': "part_begin hyphae_New = ((''hyphae-1'', 0), p')"
    using first_handle
    by (simp add: part_begin_def part_handle_def hyphae_New_def part_New_def AwaitHandle_def WithTimeout_def
        await_New_def hyphae_handle_def)
  have "question_open hyphae_New msg ''hyphae-1'' 0 responseHandleTimeout (bus_responses b') p'"
    by (rule question_open.sent[OF part_reach.init p' m(2) _ b'])
      (use self in \<open>simp_all add: ans i(1) hyphae_New_def part_New_def\<close>)
  with msg responses_request_lock[OF rs] that show thesis unfolding first_handle by blast
qed

text \<open>Node a answers in the place of the hyphae's node.\<close>

lemma answer_of_another_node:
  obtains answer where "message_Response (question_parser command) ''~hyphae-1 yes'' ''a'' = Some answer"
    "Handle answer = fst (hyphae_handle 0)" "FlagOf answer ''yes''" "\<not> FlagOf answer ''error''"
    "Arg answer ''hash'' = (''sha'', True)"
proof -
  have "TrimSpace ''~hyphae-1 yes'' \<noteq> []" "HasPrefix ''~hyphae-1 yes'' ''~''" "unquoteValue ''sha'' = ''sha''"
    by code_simp+
  then show thesis
    using that by (simp add: message_build_defs cparse_def question_parser_def first_handle args_of_def map_Arg_def)
qed


theorem binary_can_vouch_for_itself_witness:
  "\<exists>answer msg rs p self rs' p'.
     LResponse answer \<in> set (listen_message (question_parser ''binary.hash'') ((calm_env True)\<lparr>le_verified := False\<rparr>)
       plain_manifest ''a'' ''~hyphae-1 yes'') \<and>
     question_open hyphae_New msg ''hyphae-1'' 0 responseHandleTimeout rs p \<and>
     responses_response answer rs = Some (None, Some self, rs') \<and> part_Receive answer p = Some (None, p') \<and>
     HPermRegister plain_manifest \<in> set (snd (provisional_binary
       (plain_env\<lparr>he_pid := Inr 7, he_hash_binary := (\<lambda>pid. fst (binaryHash (question_parser ''binary.hash'')
          (\<lambda>_. AskAnswer answer) pid 0))\<rparr>) (plain_element\<lparr>el_BinaryChecksum := ''sha''\<rparr>) plain_manifest
       \<lparr>bn_status = RequiresUserSpace, bn_path = [], bn_expectedChecksum = []\<rparr>))"
proof -
  let ?cp = "question_parser ''binary.hash''" and ?h = "fst (hyphae_handle 0)"
  let ?reg = "plain_element\<lparr>el_BinaryChecksum := ''sha''\<rparr>"
  obtain answer where a: "message_Response ?cp ''~hyphae-1 yes'' ''a'' = Some answer" "Handle answer = ?h"
    "\<not> FlagOf answer ''error''" "Arg answer ''hash'' = (el_BinaryChecksum ?reg, True)"
    by (rule answer_of_another_node) simp
  have line: "HasPrefix ''~hyphae-1 yes'' ''~''" "\<not> IsPipe ''~hyphae-1 yes''" by code_simp+
  define raw where "raw = ''dev.sporeos.HYPHAE.binary.hash pid='' @ show_int 7 @ '' ~'' @ ?h"
  then have "\<exists>s. raw = CHR ''d'' # s" by simp
  then obtain msg rs p where q: "message_Request ?cp raw protectedCaller = Some msg"
    "question_open hyphae_New msg ?h 0 responseHandleTimeout rs p" "\<not> rp_locked rs"
    using hyphae_question[of "''binary.hash''" raw] by blast
  let ?hs = "plain_env\<lparr>he_pid := Inr 7,
      he_hash_binary := (\<lambda>pid. fst (binaryHash ?cp (\<lambda>_. AskAnswer answer) pid 0))\<rparr>"
  note taken = binary_can_vouch_for_itself[OF refl q(1)[unfolded raw_def] q(2,3) line a, of "calm_env True" plain_manifest]
  from taken obtain self rs' p' where r: "responses_response answer rs = Some (None, Some self, rs')"
    "part_Receive answer p = Some (None, p')" by blast
  from taken have "HPermRegister plain_manifest \<in> set (snd (provisional_binary ?hs ?reg plain_manifest
      \<lparr>bn_status = RequiresUserSpace, bn_path = [], bn_expectedChecksum = []\<rparr>))" by simp
  with taken[THEN conjunct1] r q(2) show ?thesis unfolding first_handle by (intro exI conjI)
qed

end
