(* ===== verification/Node_Writer.thy ===== *)
theory Node_Writer
  imports Node_Delivery
begin

text \<open>
  The writer of a node's connection (spored/internal/nodes/writer.go): a buffer of package bufio in
  front of the connection, flushed after every message under a deadline. The buffer is the one of the
  standard library: it holds 4096 bytes, hands them on whenever it is full, and remembers the first
  error for good. \<open>None\<close> is a write that never returns.
\<close>

section \<open>The connection and the buffer\<close>

text \<open>
  The peer takes \<open>co_room\<close> more bytes and then stops reading; \<open>None\<close> when it never stops. A write that
  does not fit fails at the deadline, if one is set, after the bytes that fit.
\<close>

record conn_out =
  co_deadline :: bool
  co_room :: "nat option"
  co_taken :: string

definition conn_Write :: "string \<Rightarrow> conn_out \<Rightarrow> (nat \<times> bool \<times> conn_out) option" where
  "conn_Write b c =
     (case co_room c of
        None \<Rightarrow> Some (length b, False, c\<lparr>co_taken := co_taken c @ b\<rparr>)
      | Some k \<Rightarrow>
          if length b \<le> k
          then Some (length b, False, c\<lparr>co_taken := co_taken c @ b, co_room := Some (k - length b)\<rparr>)
          else if co_deadline c then Some (k, True, c\<lparr>co_taken := co_taken c @ take k b, co_room := Some 0\<rparr>)
          else None)"

definition bufio_size :: nat where "bufio_size = 4096"

record writer =
  wr_conn :: conn_out
  wr_buf :: string
  wr_err :: bool

definition newWriter :: "conn_out \<Rightarrow> writer" where
  "newWriter c = \<lparr>wr_conn = c, wr_buf = [], wr_err = False\<rparr>"

definition bufio_Flush :: "writer \<Rightarrow> writer option" where
  "bufio_Flush w =
     (if wr_err w \<or> wr_buf w = [] then Some w
      else case conn_Write (wr_buf w) (wr_conn w) of
             None \<Rightarrow> None
           | Some (n, failed, c) \<Rightarrow>
               Some (w\<lparr>wr_conn := c, wr_buf := drop n (wr_buf w), wr_err := failed\<rparr>))"

text \<open>As long as the text does not fit, the buffer is filled and written to the connection.\<close>

definition full_first :: "writer \<Rightarrow> nat" where
  "full_first w = (if \<not> wr_err w \<and> bufio_size \<le> length (wr_buf w) then 1 else 0)"

lemma bufio_Flush_not_full: "bufio_Flush w = Some w' \<Longrightarrow> full_first w' = 0"
  by (auto simp: bufio_Flush_def conn_Write_def full_first_def bufio_size_def
      split: if_splits option.splits)

function bufio_WriteString :: "string \<Rightarrow> writer \<Rightarrow> writer option" where
  "bufio_WriteString s w =
     (if wr_err w then Some w
      else let n = bufio_size - length (wr_buf w) in
           if length s > n then
             (case bufio_Flush (w\<lparr>wr_buf := wr_buf w @ take n s\<rparr>) of
                None \<Rightarrow> None
              | Some w1 \<Rightarrow> bufio_WriteString (drop n s) w1)
           else Some (w\<lparr>wr_buf := wr_buf w @ s\<rparr>))"
  by pat_completeness auto
termination
proof (relation "measure (\<lambda>(s, w). 2 * length s + full_first w)", simp, goal_cases)
  case (1 s w n w1)
  from bufio_Flush_not_full[OF 1(4)] 1(1-3) show ?case
    by (cases "n = 0") (auto simp: full_first_def)
qed

declare bufio_WriteString.simps [simp del]

section \<open>The writer\<close>

text \<open>The deadline is set for the flush and taken away after it; an error is only logged.\<close>

definition set_deadline :: "bool \<Rightarrow> writer \<Rightarrow> writer" where
  "set_deadline d w = w\<lparr>wr_conn := (wr_conn w)\<lparr>co_deadline := d\<rparr>\<rparr>"

definition flush :: "writer \<Rightarrow> writer option" where
  "flush w = map_option (set_deadline False) (bufio_Flush (set_deadline True w))"

definition write_line :: "string \<Rightarrow> writer \<Rightarrow> writer option" where
  "write_line s w =
     Option.bind (bufio_WriteString s w) (\<lambda>w1. Option.bind (bufio_WriteString [NL] w1) flush)"

definition writer_WriteRaw :: "string \<Rightarrow> writer \<Rightarrow> writer option" where
  "writer_WriteRaw s w = write_line s w"

text \<open>A message that was written is shown to the witnesses too, whether it arrived or not.\<close>

definition writer_WriteMessage :: "message \<Rightarrow> writer \<Rightarrow> (writer \<times> message) option" where
  "writer_WriteMessage msg w = map_option (\<lambda>w1. (w1, msg)) (write_line (Wire msg) w)"

definition writer_WriteWitness :: "int \<Rightarrow> message \<Rightarrow> writer \<Rightarrow> (writer \<times> message) option" where
  "writer_WriteWitness t msg w =
     (case WitnessText t msg of (s, msg1) \<Rightarrow> map_option (\<lambda>w1. (w1, msg1)) (write_line s w))"

section \<open>What reaches the peer\<close>

definition taken :: "writer \<Rightarrow> string" where
  "taken w = co_taken (wr_conn w)"

text \<open>
  \<open>t\<close> is everything that was written: without an error it is what the peer has and what is buffered,
  after one the peer has a part of it.
\<close>

definition carries :: "string \<Rightarrow> writer \<Rightarrow> bool" where
  "carries t w \<longleftrightarrow> (if wr_err w then prefix (taken w) t else taken w @ wr_buf w = t)"

lemma carries_prefix: "carries t w \<Longrightarrow> prefix (taken w) t"
  by (auto simp: carries_def split: if_splits)

lemma carries_more: "\<lbrakk>carries t w; wr_err w\<rbrakk> \<Longrightarrow> carries (t @ s) w"
  by (simp add: carries_def prefix_prefix)

lemma carries_buffer: "\<lbrakk>carries t w; \<not> wr_err w\<rbrakk> \<Longrightarrow> carries (t @ s) (w\<lparr>wr_buf := wr_buf w @ s\<rparr>)"
  by (auto simp: carries_def taken_def)

lemma carries_deadline [simp]:
  "carries t (set_deadline d w) = carries t w" "taken (set_deadline d w) = taken w"
  "wr_err (set_deadline d w) = wr_err w" "wr_buf (set_deadline d w) = wr_buf w"
  by (simp_all add: carries_def taken_def set_deadline_def)

lemma bufio_Flush_carries: "\<lbrakk>bufio_Flush w = Some w'; carries t w\<rbrakk> \<Longrightarrow> carries t w' \<and> (wr_err w' \<or> wr_buf w' = [])"
  by (auto simp: bufio_Flush_def conn_Write_def carries_def taken_def take_is_prefix
      split: if_splits option.splits)

lemma bufio_WriteString_carries: "\<lbrakk>bufio_WriteString s w = Some w'; carries t w\<rbrakk> \<Longrightarrow> carries (t @ s) w'"
proof (induction s w arbitrary: t rule: bufio_WriteString.induct)
  case (1 s w)
  show ?case
  proof (cases "wr_err w")
    case True
    with "1.prems" carries_more show ?thesis by (simp add: bufio_WriteString.simps)
  next
    case False
    let ?n = "bufio_size - length (wr_buf w)"
    show ?thesis
    proof (cases "length s > ?n")
      case True
      with False "1.prems"(1) obtain w1 where w1: "bufio_Flush (w\<lparr>wr_buf := wr_buf w @ take ?n s\<rparr>) = Some w1"
        "bufio_WriteString (drop ?n s) w1 = Some w'"
        by (subst (asm) bufio_WriteString.simps) (auto simp: Let_def split: option.splits)
      from bufio_Flush_carries[OF w1(1) carries_buffer[OF "1.prems"(2) False]] have "carries (t @ take ?n s) w1" by simp
      from "1.IH"[OF False refl True w1(1,2) this] show ?thesis by simp
    next
      case False': False
      with False "1.prems"(1) have "w' = w\<lparr>wr_buf := wr_buf w @ s\<rparr>"
        by (subst (asm) bufio_WriteString.simps) (simp add: Let_def)
      with carries_buffer[OF "1.prems"(2) False] show ?thesis by simp
    qed
  qed
qed

lemma write_line_carries:
  assumes "write_line s w = Some w'" "carries t w"
  shows "carries (t @ s @ [NL]) w' \<and> (wr_err w' \<or> wr_buf w' = [])"
proof -
  from assms(1) obtain w1 w2 w3 where w: "bufio_WriteString s w = Some w1" "bufio_WriteString [NL] w1 = Some w2"
    "bufio_Flush (set_deadline True w2) = Some w3" "w' = set_deadline False w3"
    by (auto simp: write_line_def flush_def bind_eq_Some_conv)
  from bufio_WriteString_carries[OF w(2) bufio_WriteString_carries[OF w(1) assms(2)]]
  have "carries (t @ s @ [NL]) (set_deadline True w2)" by simp
  from bufio_Flush_carries[OF w(3) this] w(4) show ?thesis by simp
qed

text \<open>After an error nothing is written any more.\<close>

lemma write_line_after_error:
  assumes "wr_err w"
  shows "write_line s w = Some (set_deadline False w)"
proof -
  have "bufio_WriteString x w = Some w" for x using assms by (simp add: bufio_WriteString.simps)
  moreover have "bufio_Flush (set_deadline True w) = Some (set_deadline True w)"
    using assms by (simp add: bufio_Flush_def)
  ultimately show ?thesis by (simp add: write_line_def flush_def set_deadline_def)
qed

section \<open>Runs of a connection\<close>

text \<open>The daemon writes a line, or the peer reads: it will take as many more bytes, or all that come.\<close>

datatype writer_op = WLine string | WPeer "nat option"

fun writer_do :: "writer_op \<Rightarrow> writer \<Rightarrow> writer option" where
  "writer_do (WLine s) w = write_line s w"
| "writer_do (WPeer room) w = Some (w\<lparr>wr_conn := (wr_conn w)\<lparr>co_room := room\<rparr>\<rparr>)"

fun writer_run :: "writer_op list \<Rightarrow> writer \<Rightarrow> writer option" where
  "writer_run [] w = Some w"
| "writer_run (op # ops) w = Option.bind (writer_do op w) (writer_run ops)"

fun lines_of :: "writer_op list \<Rightarrow> string list" where
  "lines_of [] = []"
| "lines_of (WLine s # ops) = s # lines_of ops"
| "lines_of (WPeer room # ops) = lines_of ops"

definition frames :: "string list \<Rightarrow> string" where
  "frames ls = concat (map (\<lambda>s. s @ [NL]) ls)"

lemma writer_run_carries:
  "\<lbrakk>writer_run ops w = Some w'; carries t w; wr_err w \<or> wr_buf w = []\<rbrakk> \<Longrightarrow>
     carries (t @ frames (lines_of ops)) w' \<and> (wr_err w' \<or> wr_buf w' = [])"
proof (induction ops arbitrary: w t)
  case (Cons op ops)
  then obtain w1 where w1: "writer_do op w = Some w1" "writer_run ops w1 = Some w'"
    by (auto simp: bind_eq_Some_conv)
  show ?case
  proof (cases op)
    case (WLine s)
    with w1(1) write_line_carries[OF _ Cons.prems(2), of s w1]
    have "carries (t @ s @ [NL]) w1" "wr_err w1 \<or> wr_buf w1 = []" by simp_all
    from Cons.IH[OF w1(2) this] WLine show ?thesis by (simp add: frames_def)
  next
    case (WPeer room)
    with w1(1) Cons.prems(2,3) have "carries t w1" "wr_err w1 \<or> wr_buf w1 = []"
      by (auto simp: carries_def taken_def)
    from Cons.IH[OF w1(2) this] WPeer show ?thesis by simp
  qed
qed (simp add: frames_def)

lemma error_stays: "\<lbrakk>writer_run ops w = Some w'; wr_err w\<rbrakk> \<Longrightarrow> wr_err w' \<and> taken w' = taken w"
proof (induction ops arbitrary: w)
  case (Cons op ops)
  then obtain w1 where w1: "writer_do op w = Some w1" "writer_run ops w1 = Some w'"
    by (auto simp: bind_eq_Some_conv)
  have "wr_err w1 \<and> taken w1 = taken w"
  proof (cases op)
    case (WLine s)
    with w1(1) write_line_after_error[OF Cons.prems(2), of s] show ?thesis using Cons.prems(2) by auto
  next
    case (WPeer room)
    with w1(1) Cons.prems(2) show ?thesis by (auto simp: taken_def)
  qed
  with Cons.IH[OF w1(2)] show ?case by simp
qed simp

lemma silent_returns: "wr_err w \<Longrightarrow> \<exists>w'. writer_run ops w = Some w'"
proof (induction ops arbitrary: w)
  case (Cons op ops)
  then have "\<exists>w1. writer_do op w = Some w1 \<and> wr_err w1"
    by (cases op) (auto simp: write_line_after_error)
  with Cons.IH show ?case by auto
qed simp

text \<open>
  C26. A peer gets whole messages up to the first timeout, and then nothing ever again. In every run of a
  connection, with any messages and a peer that reads and stops reading as it likes, the bytes the peer
  has got are the first bytes of all the lines one after the other; as long as no write has failed they
  are exactly these lines; and once one has, every later write returns as if it had been made, but the
  peer gets no further byte, however ready to read it is. The connection stays open.
\<close>
theorem a_timeout_silences_the_connection:
  assumes "writer_run ops (newWriter c) = Some w" "co_taken c = []"
  shows "prefix (taken w) (frames (lines_of ops)) \<and>
    (if wr_err w then \<forall>later. \<exists>w'. writer_run later w = Some w' \<and> taken w' = taken w
     else taken w = frames (lines_of ops))"
proof -
  have "carries [] (newWriter c)" "wr_buf (newWriter c) = []"
    using assms(2) by (simp_all add: carries_def taken_def newWriter_def)
  with writer_run_carries[OF assms(1), of "[]"]
  have w: "carries (frames (lines_of ops)) w" "wr_err w \<or> wr_buf w = []" by simp_all
  show ?thesis
  proof (cases "wr_err w")
    case True
    with silent_returns[OF True] error_stays[OF _ True] carries_prefix[OF w(1)] show ?thesis
      by (metis (full_types))
  next
    case False
    with w show ?thesis by (simp add: carries_def)
  qed
qed

definition slow_peer :: conn_out where
  "slow_peer = \<lparr>co_deadline = False, co_room = Some 3, co_taken = []\<rparr>"

lemmas writer_eval =
  write_line_def flush_def bufio_Flush_def bufio_WriteString.simps conn_Write_def set_deadline_def newWriter_def
  bufio_size_def Let_def

theorem a_timeout_silences_the_connection_witness:
  "\<exists>w w'. writer_run [WLine ''ab'', WLine ''cd'', WPeer None] (newWriter slow_peer) = Some w \<and> wr_err w \<and>
     taken w = ''ab'' @ [NL] \<and> writer_run [WLine ''e''] w = Some w' \<and> taken w' = taken w"
proof -
  have "\<exists>w. writer_run [WLine ''ab'', WLine ''cd'', WPeer None] (newWriter slow_peer) = Some w \<and> wr_err w \<and>
      taken w = ''ab'' @ [NL]"
    by (simp add: writer_eval slow_peer_def taken_def)
  then obtain w where w: "writer_run [WLine ''ab'', WLine ''cd'', WPeer None] (newWriter slow_peer) = Some w"
    "wr_err w" "taken w = ''ab'' @ [NL]" by blast
  have "co_taken slow_peer = []" by (simp add: slow_peer_def)
  from a_timeout_silences_the_connection[OF w(1) this] w(2)
  have "\<forall>later. \<exists>w'. writer_run later w = Some w' \<and> taken w' = taken w" by simp
  then obtain w' where "writer_run [WLine ''e''] w = Some w'" "taken w' = taken w" by blast
  with w show ?thesis by blast
qed

text \<open>A peer that goes on reading gets every line.\<close>

lemma bufio_Flush_ready:
  assumes "co_room (wr_conn w) = None" "\<not> wr_err w"
  shows "\<exists>w'. bufio_Flush w = Some w' \<and> co_room (wr_conn w') = None \<and> \<not> wr_err w'"
  using assms by (simp add: bufio_Flush_def conn_Write_def)

lemma bufio_WriteString_ready:
  "\<lbrakk>co_room (wr_conn w) = None; \<not> wr_err w\<rbrakk> \<Longrightarrow>
     \<exists>w'. bufio_WriteString s w = Some w' \<and> co_room (wr_conn w') = None \<and> \<not> wr_err w'"
proof (induction s w rule: bufio_WriteString.induct)
  case (1 s w)
  let ?n = "bufio_size - length (wr_buf w)"
  show ?case
  proof (cases "length s > ?n")
    case True
    obtain w1 where w1: "bufio_Flush (w\<lparr>wr_buf := wr_buf w @ take ?n s\<rparr>) = Some w1"
      "co_room (wr_conn w1) = None" "\<not> wr_err w1"
      using bufio_Flush_ready[of "w\<lparr>wr_buf := wr_buf w @ take ?n s\<rparr>"] "1.prems" by auto
    from "1.IH"[OF "1.prems"(2) refl True w1] "1.prems"(2) True w1(1) show ?thesis
      by (subst bufio_WriteString.simps) (simp add: Let_def)
  next
    case False
    with "1.prems" show ?thesis by (subst bufio_WriteString.simps) (simp add: Let_def)
  qed
qed

lemma write_line_ready:
  assumes "co_room (wr_conn w) = None" "\<not> wr_err w"
  shows "\<exists>w'. write_line s w = Some w' \<and> co_room (wr_conn w') = None \<and> \<not> wr_err w'"
proof -
  obtain w1 where w1: "bufio_WriteString s w = Some w1" "co_room (wr_conn w1) = None" "\<not> wr_err w1"
    using bufio_WriteString_ready[OF assms] by blast
  obtain w2 where w2: "bufio_WriteString [NL] w1 = Some w2" "co_room (wr_conn w2) = None" "\<not> wr_err w2"
    using bufio_WriteString_ready[OF w1(2,3)] by blast
  have "co_room (wr_conn (set_deadline True w2)) = None" "\<not> wr_err (set_deadline True w2)"
    using w2(2,3) by (simp_all add: set_deadline_def)
  from bufio_Flush_ready[OF this] obtain w3 where w3: "bufio_Flush (set_deadline True w2) = Some w3"
    "co_room (wr_conn w3) = None" "\<not> wr_err w3" by blast
  with w1(1) w2(1) show ?thesis by (simp add: write_line_def flush_def) (simp add: set_deadline_def)
qed

lemma reading_peer_gets_every_line:
  assumes "co_room c = None" "co_taken c = []"
  shows "\<exists>w. writer_run (map WLine ls) (newWriter c) = Some w \<and> taken w = frames ls"
proof -
  have "\<exists>w'. writer_run (map WLine ls) w = Some w' \<and> \<not> wr_err w'"
    if "co_room (wr_conn w) = None" "\<not> wr_err w" for w
    using that
  proof (induction ls arbitrary: w)
    case (Cons s ls)
    from write_line_ready[OF Cons.prems, of s] Cons.IH show ?case by auto
  qed simp
  from this[of "newWriter c"] obtain w where w: "writer_run (map WLine ls) (newWriter c) = Some w" "\<not> wr_err w"
    using assms(1) by (auto simp: newWriter_def)
  have "lines_of (map WLine ls) = ls" by (induction ls) auto
  moreover have "carries [] (newWriter c)" "wr_buf (newWriter c) = []"
    using assms(2) by (simp_all add: carries_def taken_def newWriter_def)
  note writer_run_carries[OF w(1) this(1) disjI2[OF this(2)]]
  ultimately show ?thesis using w by (auto simp: carries_def)
qed

section \<open>The deadline\<close>

text \<open>
  C27. The deadline covers short messages only. A peer that stops reading before it has taken 4096 more
  bytes holds the daemon for the three seconds of the deadline when the message and its newline have at
  most 4096 bytes; a longer one fills the buffer, which is written to the connection before the deadline
  is set, so the write never returns and keeps the mutex of the writer for ever.
\<close>
theorem deadline_covers_short_messages_only:
  assumes "co_room c = Some k" "k < bufio_size" "\<not> co_deadline c"
  shows "(\<exists>w. write_line s (newWriter c) = Some w) \<longleftrightarrow> length s < bufio_size"
proof (cases "length s < bufio_size")
  case True
  let ?w = "(newWriter c)\<lparr>wr_buf := s\<rparr>" and ?w1 = "(newWriter c)\<lparr>wr_buf := s @ [NL]\<rparr>"
  have "bufio_WriteString s (newWriter c) = Some ?w"
    using True by (subst bufio_WriteString.simps) (simp add: newWriter_def Let_def)
  moreover have "bufio_WriteString [NL] ?w = Some ?w1"
    using True by (subst bufio_WriteString.simps) (simp add: newWriter_def Let_def)
  moreover have "\<exists>w. flush ?w1 = Some w"
    using assms(1) by (simp add: flush_def bufio_Flush_def conn_Write_def newWriter_def set_deadline_def)
  ultimately show ?thesis using True by (simp add: write_line_def)
next
  case False
  have stuck: "bufio_Flush w1 = None"
    if "length (wr_buf w1) = bufio_size" "wr_conn w1 = c" "\<not> wr_err w1" for w1
    using that assms by (auto simp: bufio_Flush_def conn_Write_def bufio_size_def)
  show ?thesis
  proof (cases "length s = bufio_size")
    case True
    have "bufio_WriteString s (newWriter c) = Some ((newWriter c)\<lparr>wr_buf := s\<rparr>)"
      using True by (subst bufio_WriteString.simps) (simp add: newWriter_def Let_def)
    moreover have "bufio_WriteString [NL] ((newWriter c)\<lparr>wr_buf := s\<rparr>) = None"
      using True stuck[of "(newWriter c)\<lparr>wr_buf := s\<rparr>"]
      by (subst bufio_WriteString.simps) (simp add: newWriter_def Let_def)
    ultimately show ?thesis using False by (simp add: write_line_def)
  next
    case False': False
    have "bufio_WriteString s (newWriter c) = None"
      using False False' stuck[of "(newWriter c)\<lparr>wr_buf := take bufio_size s\<rparr>"]
      by (subst bufio_WriteString.simps) (simp add: newWriter_def Let_def)
    with False show ?thesis by (simp add: write_line_def)
  qed
qed

theorem deadline_covers_short_messages_only_witness:
  "(\<exists>w. write_line (replicate 4095 (CHR ''x'')) (newWriter slow_peer) = Some w) \<and>
   write_line (replicate 4096 (CHR ''x'')) (newWriter slow_peer) = None"
proof -
  have c: "co_room slow_peer = Some 3" "3 < bufio_size" "\<not> co_deadline slow_peer"
    by (simp_all add: slow_peer_def bufio_size_def)
  from deadline_covers_short_messages_only[OF c, of "replicate 4095 (CHR ''x'')"]
    deadline_covers_short_messages_only[OF c, of "replicate 4096 (CHR ''x'')"]
  show ?thesis unfolding length_replicate bufio_size_def by (simp only: not_Some_eq not_ex) simp
qed

end
