(* ===== verification/Node_Reconnect.thy ===== *)
theory Node_Reconnect
  imports Prelude
begin

text \<open>
  A node and its connections (spored/internal/nodes/node.go): \<open>activateConnection\<close> puts a connection
  into the node's fields and starts a read loop, and the read loop works on these fields, not on the
  connection it was started for. A connection, its reader and its writer are one number; a read loop has
  the number of the connection it was started for. The loops take their steps in any order.
\<close>

text \<open>
  A loop is about to read, blocked in a read, on its way to the end of \<open>listen\<close>, or gone.
\<close>

datatype loop = Next | ReadingFrom nat | Ending | Gone

record cnode =
  cn_conn :: "nat option"
  cn_reader :: "nat option"
  cn_writer :: "nat option"
  cn_ended :: "nat list" \<comment> \<open>the connections that one of the two sides has closed\<close>
  cn_loops :: "nat \<Rightarrow> loop option"

definition cnode_New :: cnode where
  "cnode_New = \<lparr>cn_conn = None, cn_reader = None, cn_writer = None, cn_ended = [], cn_loops = (\<lambda>_. None)\<rparr>"

text \<open>The daemon goes on, or a call on nil ends it.\<close>

datatype outcome = Runs cnode | Panics

definition activate :: "nat \<Rightarrow> cnode \<Rightarrow> cnode" where
  "activate c n = n\<lparr>cn_conn := Some c, cn_reader := Some c, cn_writer := Some c,
     cn_loops := (cn_loops n)(c \<mapsto> Next)\<rparr>"

text \<open>\<open>n.reader.ReadString\<close>: the field is read for every line.\<close>

definition fetch :: "nat \<Rightarrow> cnode \<Rightarrow> outcome" where
  "fetch g n =
     (case cn_reader n of
        None \<Rightarrow> Panics
      | Some r \<Rightarrow> Runs (n\<lparr>cn_loops := (cn_loops n)(g \<mapsto> ReadingFrom r)\<rparr>))"

text \<open>The end of \<open>listen\<close>, under the node's lock: whatever connection is in the field is closed.\<close>

definition teardown :: "nat \<Rightarrow> cnode \<Rightarrow> outcome" where
  "teardown g n =
     (case cn_conn n of
        None \<Rightarrow> Panics
      | Some c \<Rightarrow> Runs (n\<lparr>cn_reader := None, cn_writer := None, cn_ended := c # cn_ended n, cn_conn := None,
                           cn_loops := (cn_loops n)(g \<mapsto> Gone)\<rparr>))"

datatype cn_event =
    EActivate nat \<comment> \<open>a handshake puts a new connection in place\<close>
  | EEnded nat \<comment> \<open>the peer or a failed handshake closes a connection\<close>
  | EFetch nat
  | EMessage nat \<comment> \<open>a loop has handled a message\<close>
  | EEnd nat \<comment> \<open>a loop has seen the end of the connection it reads\<close>
  | ETeardown nat

text \<open>\<open>None\<close>: the event cannot happen now.\<close>

fun cn_do :: "cn_event \<Rightarrow> cnode \<Rightarrow> outcome option" where
  "cn_do (EActivate c) n = (if cn_loops n c = None then Some (Runs (activate c n)) else None)"
| "cn_do (EEnded c) n = Some (Runs (n\<lparr>cn_ended := c # cn_ended n\<rparr>))"
| "cn_do (EFetch g) n = (if cn_loops n g = Some Next then Some (fetch g n) else None)"
| "cn_do (EMessage g) n =
     (case cn_loops n g of
        Some (ReadingFrom r) \<Rightarrow> Some (Runs (n\<lparr>cn_loops := (cn_loops n)(g \<mapsto> Next)\<rparr>))
      | _ \<Rightarrow> None)"
| "cn_do (EEnd g) n =
     (case cn_loops n g of
        Some (ReadingFrom r) \<Rightarrow>
          (if r \<in> set (cn_ended n) then Some (Runs (n\<lparr>cn_loops := (cn_loops n)(g \<mapsto> Ending)\<rparr>)) else None)
      | _ \<Rightarrow> None)"
| "cn_do (ETeardown g) n = (if cn_loops n g = Some Ending then Some (teardown g n) else None)"

fun cn_run :: "cn_event list \<Rightarrow> cnode \<Rightarrow> outcome option" where
  "cn_run [] n = Some (Runs n)"
| "cn_run (e # es) n =
     (case cn_do e n of
        None \<Rightarrow> None
      | Some Panics \<Rightarrow> Some Panics
      | Some (Runs n1) \<Rightarrow> cn_run es n1)"

section \<open>One connection at a time\<close>

text \<open>Every connection is put in place when there is none.\<close>

fun apart :: "cn_event list \<Rightarrow> cnode \<Rightarrow> bool" where
  "apart [] n = True"
| "apart (e # es) n =
     ((\<forall>c. e = EActivate c \<longrightarrow> cn_conn n = None) \<and>
      (case cn_do e n of Some (Runs n1) \<Rightarrow> apart es n1 | _ \<Rightarrow> True))"

definition live :: "loop option \<Rightarrow> bool" where
  "live l \<longleftrightarrow> l \<noteq> None \<and> l \<noteq> Some Gone"

text \<open>There is a loop exactly as long as there is a connection, and it reads that connection.\<close>

definition single_inv :: "cnode \<Rightarrow> bool" where
  "single_inv n \<longleftrightarrow> cn_reader n = cn_conn n \<and> cn_writer n = cn_conn n \<and>
     (\<forall>g. live (cn_loops n g) \<longleftrightarrow> cn_conn n = Some g) \<and>
     (\<forall>g r. cn_loops n g = Some (ReadingFrom r) \<longrightarrow> r = g)"

lemma single_inv_New: "single_inv cnode_New"
  by (simp add: single_inv_def cnode_New_def live_def)

lemma single_inv_step:
  assumes "single_inv n" "\<forall>c. e = EActivate c \<longrightarrow> cn_conn n = None" "cn_do e n = Some out"
  shows "\<exists>n1. out = Runs n1 \<and> single_inv n1"
proof (cases e)
  case (EActivate c)
  with assms show ?thesis
    by (auto simp: single_inv_def activate_def live_def split: if_splits)
next
  case (EFetch g)
  with assms have "cn_loops n g = Some Next" by (auto split: if_splits)
  with assms(1) have "cn_conn n = Some g" by (auto simp: single_inv_def live_def)
  with assms EFetch show ?thesis by (auto simp: single_inv_def fetch_def live_def split: if_splits)
next
  case (ETeardown g)
  with assms have "cn_loops n g = Some Ending" by (auto split: if_splits)
  with assms(1) have "cn_conn n = Some g" by (auto simp: single_inv_def live_def)
  with assms ETeardown show ?thesis by (auto simp: single_inv_def teardown_def live_def split: if_splits)
next
  case (EMessage g)
  with assms obtain r where r: "cn_loops n g = Some (ReadingFrom r)" by (auto split: option.splits loop.splits)
  with assms(1) have "cn_conn n = Some g" by (auto simp: single_inv_def live_def)
  with assms EMessage r show ?thesis by (auto simp: single_inv_def live_def)
next
  case (EEnd g)
  with assms obtain r where r: "cn_loops n g = Some (ReadingFrom r)" "r \<in> set (cn_ended n)"
    by (auto split: option.splits loop.splits if_splits)
  with assms(1) have "cn_conn n = Some g" by (auto simp: single_inv_def live_def)
  with assms EEnd r show ?thesis by (auto simp: single_inv_def live_def)
qed (use assms in \<open>auto simp: single_inv_def\<close>)

lemma apart_runs: "\<lbrakk>apart es n; single_inv n; cn_run es n = Some out\<rbrakk> \<Longrightarrow> \<exists>n1. out = Runs n1 \<and> single_inv n1"
proof (induction es arbitrary: n)
  case (Cons e es)
  from Cons.prems(3) obtain o1 where o1: "cn_do e n = Some o1" by (auto split: option.splits)
  from single_inv_step[OF Cons.prems(2) _ o1] Cons.prems(1) obtain n1 where n1: "o1 = Runs n1" "single_inv n1" by auto
  with Cons.IH[of n1] Cons.prems(1,3) o1 show ?case by simp
next
  case Nil
  then show ?case by (auto dest: sym)
qed

section \<open>Two connections at once\<close>

text \<open>A loop that has lost its connection while no new one is put in place.\<close>

definition stranded :: "nat \<Rightarrow> cnode \<Rightarrow> bool" where
  "stranded g n \<longleftrightarrow> cn_conn n = None \<and> cn_reader n = None \<and>
     (cn_loops n g = Some Next \<or> cn_loops n g = Some Ending \<or>
      (\<exists>r. cn_loops n g = Some (ReadingFrom r) \<and> r \<in> set (cn_ended n)))"

lemma stranded_step:
  "\<lbrakk>stranded g n; cn_do e n = Some (Runs n1); \<forall>c. e \<noteq> EActivate c\<rbrakk> \<Longrightarrow> stranded g n1"
  by (cases e)
    (auto simp: stranded_def fetch_def teardown_def split: if_splits option.splits loop.splits)

lemma stranded_run:
  "\<lbrakk>stranded g n; cn_run es n = Some (Runs n1); \<forall>c. EActivate c \<notin> set es\<rbrakk> \<Longrightarrow> stranded g n1"
proof (induction es arbitrary: n)
  case (Cons e es)
  then obtain n2 where n2: "cn_do e n = Some (Runs n2)" "cn_run es n2 = Some (Runs n1)"
    by (auto split: option.splits outcome.splits)
  with stranded_step[OF Cons.prems(1) n2(1)] Cons.IH Cons.prems(3) show ?case by auto
qed simp

text \<open>The next steps of the loop end the daemon.\<close>

definition doomed :: "nat \<Rightarrow> cnode \<Rightarrow> bool" where
  "doomed g n \<longleftrightarrow> cn_do (EFetch g) n = Some Panics \<or> cn_do (ETeardown g) n = Some Panics \<or>
     cn_run [EEnd g, ETeardown g] n = Some Panics"

lemma stranded_doomed: "stranded g n \<Longrightarrow> doomed g n"
  by (auto simp: stranded_def doomed_def fetch_def teardown_def)

text \<open>
  C25. A node must end its connection before it makes the next one. In every run in which a connection is
  put in place only when the node has none, no loop ever calls a method on nil. But nothing asks whether
  the node is connected: in any state in which the loops of two connections are reading, when the older
  one ends, its loop closes the newer connection and empties the fields; and from then on, whatever
  happens before another connection is put in place, the other loop is at most two steps from a call on
  nil, which ends the daemon.
\<close>
theorem overlapping_connections_end_the_daemon:
  "(apart es cnode_New \<longrightarrow> cn_run es cnode_New \<noteq> Some Panics) \<and>
   (cn_conn n = Some b \<and> cn_loops n b = Some (ReadingFrom b) \<and> cn_loops n a = Some (ReadingFrom a) \<and> a \<noteq> b \<longrightarrow>
     (\<exists>n1. cn_run [EEnded a, EEnd a, ETeardown a] n = Some (Runs n1) \<and> cn_conn n1 = None \<and> b \<in> set (cn_ended n1) \<and>
        (\<forall>later n2. (\<forall>c. EActivate c \<notin> set later) \<and> cn_run later n1 = Some (Runs n2) \<longrightarrow> doomed b n2)))"
proof (intro conjI impI)
  assume "apart es cnode_New"
  with apart_runs[OF _ single_inv_New, of es] show "cn_run es cnode_New \<noteq> Some Panics" by auto
next
  assume s: "cn_conn n = Some b \<and> cn_loops n b = Some (ReadingFrom b) \<and> cn_loops n a = Some (ReadingFrom a) \<and> a \<noteq> b"
  let ?n1 = "n\<lparr>cn_reader := None, cn_writer := None, cn_ended := b # a # cn_ended n, cn_conn := None,
      cn_loops := (cn_loops n)(a \<mapsto> Gone)\<rparr>"
  have "cn_run [EEnded a, EEnd a, ETeardown a] n = Some (Runs ?n1)"
    using s by (simp add: teardown_def)
  moreover have "stranded b ?n1" using s by (simp add: stranded_def)
  then have "\<forall>later n2. (\<forall>c. EActivate c \<notin> set later) \<and> cn_run later ?n1 = Some (Runs n2) \<longrightarrow> doomed b n2"
    using stranded_run stranded_doomed by blast
  ultimately show "\<exists>n1. cn_run [EEnded a, EEnd a, ETeardown a] n = Some (Runs n1) \<and> cn_conn n1 = None \<and>
      b \<in> set (cn_ended n1) \<and>
      (\<forall>later n2. (\<forall>c. EActivate c \<notin> set later) \<and> cn_run later n1 = Some (Runs n2) \<longrightarrow> doomed b n2)"
    by (intro exI[of _ ?n1]) simp
qed

text \<open>A node that connects a second time and then closes its first connection.\<close>

definition twice :: "cn_event list" where
  "twice = [EActivate 1, EFetch 1, EActivate 2, EFetch 2]"

theorem overlapping_connections_end_the_daemon_witness:
  "apart [EActivate 1, EFetch 1, EEnded 1, EEnd 1, ETeardown 1, EActivate 2, EFetch 2] cnode_New \<and>
   cn_run [EActivate 1, EFetch 1, EEnded 1, EEnd 1, ETeardown 1, EActivate 2, EFetch 2] cnode_New \<noteq> Some Panics \<and>
   (\<exists>n n1. cn_run twice cnode_New = Some (Runs n) \<and>
      cn_run [EEnded 1, EEnd 1, ETeardown 1] n = Some (Runs n1) \<and> doomed 2 n1)"
proof -
  let ?good = "[EActivate 1, EFetch 1, EEnded 1, EEnd 1, ETeardown 1, EActivate 2, EFetch 2]"
  have good: "apart ?good cnode_New"
    by (simp add: cnode_New_def activate_def fetch_def teardown_def)
  have "\<exists>n. cn_run twice cnode_New = Some (Runs n) \<and> cn_conn n = Some 2 \<and> cn_loops n 2 = Some (ReadingFrom 2) \<and>
      cn_loops n 1 = Some (ReadingFrom 1)"
    by (simp add: twice_def cnode_New_def activate_def fetch_def)
  then obtain n where n: "cn_run twice cnode_New = Some (Runs n)"
    "cn_conn n = Some 2 \<and> cn_loops n 2 = Some (ReadingFrom 2) \<and> cn_loops n 1 = Some (ReadingFrom 1) \<and> (1::nat) \<noteq> 2"
    by auto
  note both = overlapping_connections_end_the_daemon[of ?good n 2 1]
  from both n(2) obtain n1 where n1: "cn_run [EEnded 1, EEnd 1, ETeardown 1] n = Some (Runs n1)"
    "\<forall>later n2. (\<forall>c. EActivate c \<notin> set later) \<and> cn_run later n1 = Some (Runs n2) \<longrightarrow> doomed 2 n2"
    by blast
  from n1(2)[rule_format, of "[]" n1] have "doomed 2 n1" by simp
  with both good n(1) n1(1) show ?thesis by blast
qed

end
