(* ===== verification/Spec2Isabelle.thy ===== *)
theory Spec2Isabelle
  imports Outs Msg Wire_Parser Pipe_Split Await Abbrev Go_Path Manifest_Model Permissions Bus Bus_Pipe
    Node_IO Node_Listen Registry_Model Handshake Nodes_Model Nodes_Safety Node_Delivery Hyphae_Calls
    Parse_Array Spore_State Spore_Meta Spore_Dispatch Node_Verification Witness_Channel Platform Hub Program Logging
    Bus_Tables Node_Locks Saved_State Questions Node_Writer Node_Reconnect
begin

text \<open>
  A model of spored, the daemon of Spore OS (spored/internal, written in Go), and of what makes it
  correct. Paths below are relative to src/spored/internal.

  The program. Nodes are programs that connect to the daemon over a local socket. A node is installed
  with a manifest that says which commands it answers, which topics it announces and which
  capabilities it wants. After a handshake that checks the manifest and the binary, the daemon
  registers the node with its bus. The bus routes requests to the node that answers the command,
  responses back to whoever asked, and broadcasts to the subscribers of their topic. The permission
  manager stands between a request and its delivery. The daemon itself is a node too, SPORE, whose
  commands install and remove nodes, grant and revoke capabilities, keep state for the nodes and
  describe the system. A pipe is one message with several stages; a runner sends them one by one.

  Theories and the code they model.

  Prelude: Go strings as lists of bytes, the functions of packages strings, strconv and fmt that the
  daemon uses, Go maps as partial functions, the lemma collections.
  Outs (utilities/out): the text of pairs, flags, arrays and objects.
  Msg (iface, message, utilities/error): messages and errors as two mutually recursive datatypes, the
  methods of the message interface, identities and their delegation.
  Wire_Parser (cparser, message/request.go, response.go, broadcast.go, parse.go): building messages
  from what the C parser returns, quoting and unquoting.
  Pipe_Split (message/pipe.go): cutting a pipe into stages. Parse_Array (utilities/parse): arrays.
  Await (utilities/await): the table of pending responses, over channels of capacity one.
  Abbrev, Bus_Types, Bus_Api, Bus_Broadcast, Bus_Responses, Bus_Witness, Bus, Bus_Pipe (bus): the
  index of short names, the three tables of the bus, the list of witnesses, their composition and
  the pipe runner.
  Go_Path, Manifest_Model (manifest, utilities/status, utilities/file): manifests and their check.
  Permissions (permissions): allowances, permits, confirmations, the file they are kept in.
  Registry_Model (registry): the list of installed nodes and its file.
  Node_IO, Node_Listen, Handshake, Node_Delivery (nodes/node.go, binary.go, writer.go): framing, the
  read loop, the handshake, delivery with the lazy start of a node.
  Node_Writer (nodes/writer.go): the buffered writer of a connection with its deadline, over a peer that
  may stop reading. Node_Reconnect (nodes/node.go): the fields of a node under several connections and
  their read loops.
  Nodes_Model, Nodes_Safety (nodes/nodes.go): installing, removing, spawning and killing, over one
  record that holds the registry, the node table, the bus and the permission manager.
  Hyphae_Calls (hyphae): the requests the daemon makes into the user's session.
  Questions (hyphae, permissions): the parts that ask, with their counters and tables; a question as a
  state machine over the part and the bus, from the request to the first response with its handle.
  Spore_State, Spore_Meta, Spore_Dispatch (spore): the commands of the node SPORE.
  Node_Verification (nodes/node.go): the gate that holds messages back while a binary is verified.
  Witness_Channel (witness): the bounded channel of witness messages between all parts and the bus.
  Bus_Tables (bus): runs of the whole bus, over its three sides at once.
  Lock_Order, Node_Locks (nodes/nodes.go, nodes/node.go and what they call): read-write mutexes and the
  order in which the operations on the nodes take them.
  Platform (pal), Hub (hub, program.go), Program (main.go), Logging (logging): the places of the
  daemon's files, its endpoint, the wiring of the parts at the start, the accept loop, the subcommands,
  and the log lines.
  Saved_State (registry, permissions, nodes): the files while the daemon runs, and the next start.

  How code and model correspond. A struct with its mutable fields is a record, a method on it a
  function from the record to the record and the result. A function that returns an error returns
  an option of an error or a sum with the error on the left. Pointers and interface values are the
  numbers or names that identify what they point to. A Go map is a partial function; where the code
  ranges over one, the order is an argument of the definition, and the properties hold for each.
  Times are integers in nanoseconds; a definition has one argument for each reading of the clock.
  Random bytes, answers of the disk, of processes, of the YAML decoder, of the digest function, of
  the C parser and of the user's session are arguments or fields of an environment record. A call
  that never returns, because it waits for a mutex that is held or for room in a channel, and a call
  that panics, are None (in Node_Reconnect an outcome of its own); properties that say an operation returns say that it is not None. Counters
  of handles are 64 bits wide in the code and natural numbers here; the one product that can really
  wrap, the timeout of a pipe, is computed on 64-bit words. There is no fuel: every loop of the
  modelled code but one is over a list that gets shorter, and its function is total. The accept loop
  may run for ever; it is a partial function whose result is None then.

  Interfaces. The locale name_index states what the routing relies on from the index of names; the
  laws are proved once for the index of abbreviation.go and the bus reads its properties through the
  interpretation. The locale waiter_table does the same for the table of pending responses,
  permission_gate states what the bus relies on from the permissions, and
  ordered_operations what a family of operations owes so that its mutexes never block it for good. The
  state machines (the index, the waiting table, the response table, the bus, the permission manager,
  the installed nodes) are inductive relations of reachable states. This theory holds the properties
  that span components: from the bytes of a connection to the node that is called, from the answer back
  to the connection, from the first line to the permissions, and from the files to the next start.

  What the lemmas show. Safety of the gate: a delivered request was authorised, administrative
  capabilities need an allowance and a fresh confirmation, a permit is for its asker and for one
  call, an installation needs a confirmation, permissions follow a verified handshake, a
  connection calls only what its node may, a pipe speaks for one node only. Invariants: every
  installed node is found in the registry and on the bus; the sides of the bus agree on the nodes; no
  response is delivered without a request; persisted state stays in its directory. Refinement and
  equivalence: the index against the set of registered names, the witness stream against its channel
  and list, splitting against the positions of the separators, help against the tables of the bus.
  Round trips: values, arrays and framed messages are read back as written, grants, nodes and state
  survive a restart. Errors and progress: each command is answered, a failed request frees its
  handle, a pipe stops at the first failure, delivery of a response never blocks, the operations on
  the nodes take their mutexes in one order and so all finish. Some lemmas state a weakness of the
  code as it is, each with a run that shows it: a response without a handle holds the mutex of the
  response table for ever, a start on demand during a handshake reads a mutex twice and can wait for
  ever, a response is not compared with the node that was asked, so that any node can confirm for the
  user and a binary can vouch for itself, a write that times out loses every later message of its
  connection and a long one can wait for ever, a node that connects twice ends the daemon, a node
  that is installed twice comes back, state files of two nodes can coincide, a manifest can name its
  own digest, the internal names of the daemon are not reserved, one missing manifest stops help, the
  timeout wraps.

  Not modelled. The C parser library, the YAML decoder and the digest function are not part of the
  repository. The system calls of pal are arguments, and so are the paths of Windows, the way they
  are joined and compared. The service manager is only called. Handlers and goroutines run one after
  the other: the interleaving of steps inside one operation, the deadline of the first read and the
  logging of created errors are left out, except where a mutex or a channel decides whether a call
  returns: in the waiting table, the questions of the daemon's parts, the verification gate, the
  witness channel, the read loops of one node, the log and the mutexes of the nodes the steps come in
  any order.
\<close>

section \<open>From a connection to a command\<close>

lemma connection_request_identity:
  assumes "LRequest r \<in> set (listen_loop cp env man i rs)" "CHR '':'' \<notin> set i"
  shows "Actor r = i \<and> Origin r = i"
  using listen_loop_request[OF assms(1)] request_identity[OF _ assms(2)] by blast

text \<open>What must hold for a node to call a command, in terms of the node's id alone.\<close>

definition may_call :: "hyphae_confirm \<Rightarrow> int \<Rightarrow> Manager \<Rightarrow> string \<Rightarrow> string \<Rightarrow> bool" where
  "may_call hyphae now m i f \<longleftrightarrow>
     (if f \<in> set (pm_protectedCommands m) then i = protectedCaller
      else preauthorised i f \<or>
           (if f \<in> set (pm_adminCommands m)
            then standing_allowance m i f \<and> fst (fresh_confirmation hyphae i f)
            else standing_allowance m i f \<or>
                 (\<exists>token p. pm_permits m token = Some p \<and> pt_origin p = i \<and> pt_capability p = f \<and>
                    now < pt_expiresAt p)))"

lemma authorised_may_call:
  "\<lbrakk>authorised hyphae now m msg f; Actor msg = i; Origin msg = i\<rbrakk> \<Longrightarrow> may_call hyphae now m i f"
  by (auto simp: authorised_def may_call_def split: if_splits prod.splits option.splits)



section \<open>From an answer back to the connection\<close>



section \<open>From the first line of a connection to permissions\<close>


text \<open>The manifest on the disk claims the trust of the system.\<close>

definition system_env :: hs_env where
  "system_env = plain_env\<lparr>he_yaml := (\<lambda>c m. (m\<lparr>m_Trust := T_System\<rparr>, False))\<rparr>"

lemma system_handshake:
  "\<exists>man. handleConnection system_env plain_element plain_manifest = (None, man,
      [HBusRegister man, HWriteOK, HActivate False, HPermRegister man,
       HWitness (message_Witness ''handshake successful'' [Pair ''node'' ''a'']), HResolve]) \<and>
     m_Trust man = T_System"
proof -
  have sha: "HasPrefix ''sha256:m.yaml'' ''sha256:''" "HasPrefix ''sha256:b'' ''sha256:''" by code_simp+
  show ?thesis
    using sha
    by (simp add: handshake_run_defs system_env_def)
qed


section \<open>A restart\<close>

text \<open>
  C4. A restart loses nothing, and no permit outlives it. Let a daemon whose files are in step with its
  memory install, remove and connect nodes, answer requests, grant and revoke, in any order, with files
  that can be written. A daemon that starts from its files then comes up, with exactly the nodes of the
  registry installed; among them is every node that was installed, found on the bus under its id; the
  allowances are exactly the same; and there is no permit. No id in the registry may be one of the
  daemon's own.
\<close>
theorem restart_loses_nothing:
  assumes "nodes_reach w0" "saved w0" "nodes_steps w0 w"
    "el_ID ` set (w_registry w) \<subseteq> set (ne_order (hb_nodes env))"
    "el_ID ` set (w_registry w) \<inter> {protectedCaller, selfNodeId, permissionCaller, m_ID (hub_manifest env)} = {}"
    "m_ID (hub_manifest env) \<notin> {protectedCaller, selfNodeId, permissionCaller}"
  shows "\<exists>w'. hub_New (next_start w env) = Inr (Some w') \<and> nodes_reach w' \<and>
     (\<forall>i. w_nodes w' i \<noteq> None \<longleftrightarrow> i \<in> el_ID ` set (w_registry w)) \<and>
     (\<forall>i. w_nodes w i \<noteq> None \<longrightarrow> (\<exists>x. a_nodes (bus_api (w_bus w')) i = Some x \<and> n_id x = i)) \<and>
     pm_allowances (w_perm w') = pm_allowances (w_perm w) \<and> pm_permits (w_perm w') = (\<lambda>_. None)"
proof -
  let ?env = "next_start w env"
  from nodes_steps_saved[OF assms(3,2,1)] have w: "saved w" "nodes_reach w" by simp_all
  have env: "hb_registry ?env = RegElements (w_registry w)" "hb_nodes ?env = hb_nodes env"
    "hub_manifest ?env = hub_manifest env"
    using w(1) by (simp_all add: next_start_def saved_def reg_saved_def hub_manifest_def)
  from hub_New_complete[of ?env, OF env(1)] assms(4-6) obtain w' where w':
    "hub_New ?env = Inr (Some w')" "nodes_reach w'"
    "w_registry w' = map (\<lambda>el. el\<lparr>el_Binary := executablePathFor (ne_goos (hb_nodes env)) (el_Binary el)\<rparr>) (w_registry w)"
    "w_nodes w' = fst (nodes_New (hb_nodes env) (w_registry w'))"
    "w_perm w' = RegisterNode (Some (hub_manifest env)) (perm_New (hb_permissions ?env))"
    unfolding env(2,3) by blast
  have ids: "el_ID ` set (w_registry w') = el_ID ` set (w_registry w)"
    unfolding w'(3) by (auto simp: image_iff)
  have nodes: "w_nodes w' i \<noteq> None \<longleftrightarrow> i \<in> el_ID ` set (w_registry w)" for i
    unfolding w'(4) nodes_New_dom ids ..
  have "\<exists>x. a_nodes (bus_api (w_bus w')) i = Some x \<and> n_id x = i" if "w_nodes w i \<noteq> None" for i
  proof -
    from that nodes_invD(2)[OF nodes_reach_inv[OF w(2)]] have "w_nodes w' i \<noteq> None" unfolding nodes by fastforce
    then show ?thesis using nodes_invD(3)[OF nodes_reach_inv[OF w'(2)]] by blast
  qed
  moreover have "pm_allowances (w_perm w') = pm_allowances (w_perm w)"
    unfolding w'(5) RegisterNode_allowances using w(1) next_start_allowances by (simp add: saved_def)
  moreover have "pm_permits (perm_New r) = (\<lambda>_. None)" for r
    by (simp add: perm_New_def perm_load_def split: perm_read.split)
  then have "pm_permits (w_perm w') = (\<lambda>_. None)" unfolding w'(5) by (simp add: RegisterNode_permits)
  ultimately show ?thesis using w'(1,2) nodes by blast
qed

text \<open>A daemon without nodes, and the installation of one.\<close>

definition empty_world :: world where
  "empty_world = world_New quiet_nodes [] bus_New (perm_New FileNotExist) working_disk working_registry"

lemma empty_world_start:
  obtains w where "nodes_reach w" "saved w" "bus_open w" "w_rdisk w = working_registry" "w_registry w = []"
proof -
  have "\<not> rp_locked (bus_responses (w_bus empty_world))"
    by (simp add: empty_world_def world_New_def bus_New_def newResponses_def)
  from bus_Register_open[OF this] obtain b where
    b: "bus_Register (nodesSelf (w_next empty_world)) (w_bus empty_world) = Some b" "\<not> rp_locked (bus_responses b)"
    by blast
  let ?w = "empty_world\<lparr>w_bus := b, w_next := Suc (w_next empty_world)\<rparr>"
  have none: "w_nodes empty_world = (\<lambda>_. None)" by (simp add: empty_world_def world_New_def nodes_New_def)
  then have "nodes_Set quiet_nodes empty_world = Some ?w" using b(1) by (simp add: nodes_Set_def quiet_nodes_def)
  from nodes_reach.start[OF this, of "[]"] have "nodes_reach ?w"
    by (simp add: empty_world_def world_New_def nodes_New_def)
  moreover have "saved ?w"
    by (simp add: empty_world_def world_New_def saved_def reg_saved_def perm_saved_def working_registry_def
        working_disk_def perm_New_def perm_load_def)
  ultimately show thesis
    using that[of ?w] b(2) by (simp add: bus_open_def empty_world_def world_New_def)
qed

theorem restart_loses_nothing_witness:
  "\<exists>w w'. w_nodes w ''a'' \<noteq> None \<and> hub_New (next_start w small_hub) = Inr (Some w') \<and>
     w_nodes w' ''a'' \<noteq> None \<and> a_nodes (bus_api (w_bus w')) ''a'' \<noteq> None"
proof -
  obtain w0 where w0: "nodes_reach w0" "saved w0" "bus_open w0" "w_rdisk w0 = working_registry" "w_registry w0 = []"
    by (rule empty_world_start)
  obtain w where w: "nodes_Install quiet_nodes ''m.yaml'' False ''a'' w0 = Some (None, w)"
    "w_registry w = [plain_element]" "w_nodes w ''a'' \<noteq> None"
    by (rule quiet_Install[OF w0(3,4)]) (simp add: w0(5))
  have steps: "nodes_steps w0 w" by (rule nodes_steps.more[OF nodes_steps.stay nodes_step.install[OF w(1)]])
  have man: "m_ID (hub_manifest small_hub) = spore_id"
    by (simp add: hub_manifest_def small_hub_def spore_New_def manifest_Load_def two_files_def
        file_Read_def applyDefaults_def empty_manifest_def quiet_nodes_def IsReadable_def Let_def)
  have order: "ne_order (hb_nodes small_hub) = [''a'']" by (simp add: small_hub_def quiet_nodes_def)
  have ids: "el_ID ` set (w_registry w) = {''a''}" by (simp add: w(2) plain_element_def)
  have "\<exists>w'. hub_New (next_start w small_hub) = Inr (Some w') \<and> nodes_reach w' \<and>
     (\<forall>i. w_nodes w' i \<noteq> None \<longleftrightarrow> i \<in> el_ID ` set (w_registry w)) \<and>
     (\<forall>i. w_nodes w i \<noteq> None \<longrightarrow> (\<exists>x. a_nodes (bus_api (w_bus w')) i = Some x \<and> n_id x = i)) \<and>
     pm_allowances (w_perm w') = pm_allowances (w_perm w) \<and> pm_permits (w_perm w') = (\<lambda>_. None)"
    by (rule restart_loses_nothing[OF w0(1,2) steps])
      (simp_all add: ids order man spore_id_def protectedCaller_def selfNodeId_def permissionCaller_def)
  then obtain w' where w'0: "hub_New (next_start w small_hub) = Inr (Some w')"
    "\<forall>i. w_nodes w' i \<noteq> None \<longleftrightarrow> i \<in> el_ID ` set (w_registry w)"
    "\<forall>i. w_nodes w i \<noteq> None \<longrightarrow> (\<exists>x. a_nodes (bus_api (w_bus w')) i = Some x \<and> n_id x = i)"
    by (elim exE conjE) (rule that)
  note w' = w'0(1) w'0(2)[rule_format, of "''a''"] w'0(3)[THEN spec, of "''a''"]
  have "w_nodes w' ''a'' \<noteq> None" using w'(2) unfolding ids by simp
  moreover obtain x where "a_nodes (bus_api (w_bus w')) ''a'' = Some x" using w'(3) w(3) by (elim impE) blast+
  then have "a_nodes (bus_api (w_bus w')) ''a'' \<noteq> None" by simp
  ultimately show ?thesis using w(3) w'(1) by (intro exI conjI)
qed

end
